(* ===== verification/Prelude.thy ===== *)
theory Prelude
  imports Main "HOL-Library.Word"
begin

text \<open>
  Shared vocabulary of the development: the machine integers of the code, results that may
  fail (\<open>lab::result\<close>, exceptions and failed assertions are all values of a sum type), and the
  generic list and sum lemmas the component theories rely on.
\<close>

section \<open>Machine integers\<close>

type_synonym u64 = "64 word"
type_synonym u16 = "16 word"

named_theorems word_arith \<open>facts that move word comparisons and differences to nat\<close>

lemma word_min_diff_self [word_arith]:
  fixes t m :: u64
  assumes "t \<le> m"
  shows "t - min t m = 0"
  using assms by (simp add: min_def)

lemma word_min_sub_eq_0_iff [word_arith]:
  fixes t m :: u64
  shows "m - min t m = 0 \<longleftrightarrow> m \<le> t"
  by (auto simp: min_def)

lemma unat_sub_min [word_arith]:
  fixes t m :: u64
  shows "unat (t - min t m) = unat t - unat (min t m)"
  by (simp add: unat_sub)

lemma unat_min [word_arith]:
  fixes t m :: u64
  shows "unat (min t m) = min (unat t) (unat m)"
  by (simp add: min_def word_le_nat_alt)

lemma word_pos_iff [word_arith]:
  fixes q :: u64
  shows "0 < q \<longleftrightarrow> q \<noteq> 0"
  by (simp add: word_neq_0_conv)

section \<open>Results\<close>

text \<open>
  \<open>Inl\<close> is the failure, \<open>Inr\<close> the value. \<open>rbind\<close> is the early return of
  \<open>BOOST_LEAF_ASSIGN\<close> and \<open>LAB_LEAF_CHECK\<close>: a failed step ends the function with that failure.
\<close>

fun rbind :: "'e + 'a \<Rightarrow> ('a \<Rightarrow> 'e + 'b) \<Rightarrow> 'e + 'b" where
  "rbind (Inl e) f = Inl e"
| "rbind (Inr x) f = f x"

lemma rbind_cong [fundef_cong]:
  "m = m' \<Longrightarrow> (\<And>x. m' = Inr x \<Longrightarrow> f x = f' x) \<Longrightarrow> rbind m f = rbind m' f'"
  by (cases m') auto

lemma rbind_eq_Inr_iff: "rbind m f = Inr y \<longleftrightarrow> (\<exists>x. m = Inr x \<and> f x = Inr y)"
  by (cases m) auto

lemma rbind_eq_Inl_iff:
  "rbind m f = Inl e \<longleftrightarrow> m = Inl e \<or> (\<exists>x. m = Inr x \<and> f x = Inl e)"
  by (cases m) auto

lemma rbind_assoc: "rbind (rbind m f) g = rbind m (\<lambda>x. rbind (f x) g)"
  by (cases m) auto

fun is_ok :: "'e + 'a \<Rightarrow> bool" where
  "is_ok (Inl e) = False"
| "is_ok (Inr x) = True"

lemma is_ok_iff: "is_ok m \<longleftrightarrow> (\<exists>x. m = Inr x)"
  by (cases m) auto

section \<open>Lists\<close>

lemma distinct_concat_disjoint:
  "distinct (concat xss) \<Longrightarrow> xss = us @ xs # vs \<Longrightarrow> a \<in> set xs \<Longrightarrow> a \<notin> set (concat us) \<union> set (concat vs)"
  by auto

lemma remove1_split: "a \<notin> set us \<Longrightarrow> remove1 a (us @ a # vs) = us @ vs"
  by (simp add: remove1_append)

lemma map_fun_upd_notin: "a \<notin> set xs \<Longrightarrow> map (f(a := v)) xs = map f xs"
  by simp

lemma map_remove1_distinct:
  "inj_on f (insert a (set xs)) \<Longrightarrow> map f (remove1 a xs) = remove1 (f a) (map f xs)"
  by (induction xs) (auto simp: inj_on_def)

lemma sum_list_remove1_word:
  fixes f :: "'a \<Rightarrow> u64"
  shows "a \<in> set xs \<Longrightarrow> sum_list (map f (remove1 a xs)) = sum_list (map f xs) - f a"
  by (induction xs) (auto simp: algebra_simps)

lemma sorted_wrt_all_append:
  "sorted_wrt P (xs @ ys) \<longleftrightarrow> sorted_wrt P xs \<and> sorted_wrt P ys \<and> (\<forall>x\<in>set xs. \<forall>y\<in>set ys. P x y)"
  by (simp add: sorted_wrt_append)

lemma map_eq_conv_set: "(\<And>x. x \<in> set xs \<Longrightarrow> f x = g x) \<Longrightarrow> map f xs = map g xs"
  by simp

end
