(* ===== verification/Text.thy ===== *)
theory Text
  imports Prelude
begin

text \<open>
  Text primitives: the operations of \<open>std::string_view\<close> the code uses, decimal formatting
  (\<open>fmt::format("{}", n)\<close> of an unsigned integer) and parsing (\<open>std::from_chars\<close>), and the
  algorithms of \<open>lab/algorithm.hpp\<close>: trimming and splitting. \<open>npos\<close> is \<open>None\<close>.
\<close>

section \<open>string_view\<close>

fun find_char :: "char \<Rightarrow> string \<Rightarrow> nat option" where
  "find_char c [] = None"
| "find_char c (x # xs) = (if x = c then Some 0 else map_option Suc (find_char c xs))"

definition find_first_not_of :: "string \<Rightarrow> string \<Rightarrow> nat option" where
  "find_first_not_of chars view =
     (case dropWhile (\<lambda>c. c \<in> set chars) view of
        [] \<Rightarrow> None
      | rest \<Rightarrow> Some (length view - length rest))"

definition find_last_not_of :: "string \<Rightarrow> string \<Rightarrow> nat option" where
  "find_last_not_of chars view =
     (case dropWhile (\<lambda>c. c \<in> set chars) (rev view) of
        [] \<Rightarrow> None
      | rest \<Rightarrow> Some (length rest - 1))"

lemma find_char_None_iff: "find_char c s = None \<longleftrightarrow> c \<notin> set s"
  by (induction s) auto

lemma find_char_append: "c \<notin> set u \<Longrightarrow> find_char c (u @ c # v) = Some (length u)"
  by (induction u) auto

lemma find_char_SomeD:
  "find_char c s = Some i \<Longrightarrow> i < length s \<and> s = take i s @ c # drop (Suc i) s \<and> c \<notin> set (take i s)"
proof (induction s arbitrary: i)
  case (Cons x xs)
  then show ?case by (cases "x = c") auto
qed simp

section \<open>Decimal numbers\<close>

definition digit_char :: "nat \<Rightarrow> char" where
  "digit_char n = char_of (48 + n)"

definition is_digit :: "char \<Rightarrow> bool" where
  "is_digit c \<longleftrightarrow> 48 \<le> (of_char c :: nat) \<and> (of_char c :: nat) \<le> 57"

definition digit_value :: "char \<Rightarrow> nat" where
  "digit_value c = of_char c - 48"

fun decimal :: "nat \<Rightarrow> string" where
  "decimal n = (if n < 10 then [digit_char n] else decimal (n div 10) @ [digit_char (n mod 10)])"

declare decimal.simps [simp del]

definition decimal_value :: "string \<Rightarrow> nat" where
  "decimal_value s = foldl (\<lambda>v c. 10 * v + digit_value c) 0 s"

lemma of_digit_char: "n < 10 \<Longrightarrow> of_char (digit_char n) = 48 + n"
  by (simp add: digit_char_def)

lemma digit_char_simps [simp]:
  assumes "n < 10"
  shows "is_digit (digit_char n)" "digit_value (digit_char n) = n"
proof -
  have "(of_char (digit_char n) :: nat) = 48 + n" using assms by (simp add: digit_char_def)
  then show "is_digit (digit_char n)" "digit_value (digit_char n) = n"
    using assms by (simp_all add: is_digit_def digit_value_def)
qed

lemma decimal_digits: "c \<in> set (decimal n) \<Longrightarrow> is_digit c"
proof (induction n rule: decimal.induct)
  case (1 n)
  show ?case
  proof (cases "n < 10")
    case True
    with 1 show ?thesis by (simp add: decimal.simps [of n])
  next
    case False
    with 1 show ?thesis by (auto simp: decimal.simps [of n])
  qed
qed

lemma decimal_nonempty [simp]: "decimal n \<noteq> []"
  by (simp add: decimal.simps [of n])

lemma decimal_value_snoc: "decimal_value (s @ [c]) = 10 * decimal_value s + digit_value c"
  by (simp add: decimal_value_def)

lemma decimal_value_decimal [simp]: "decimal_value (decimal n) = n"
proof (induction n rule: decimal.induct)
  case (1 n)
  show ?case
  proof (cases "n < 10")
    case True
    then show ?thesis by (simp add: decimal.simps [of n] decimal_value_def)
  next
    case False
    with 1 show ?thesis by (simp add: decimal.simps [of n] decimal_value_snoc)
  qed
qed

lemma decimal_inject [simp]: "decimal m = decimal n \<longleftrightarrow> m = n"
  by (metis decimal_value_decimal)

section \<open>std::from_chars\<close>

datatype errc = Errc_Invalid_Argument | Errc_Result_Out_Of_Range

text \<open>
  For an unsigned type: the longest prefix of digits (no sign, no space), its value if the type
  can hold it, and what follows.
\<close>

definition std_from_chars :: "nat \<Rightarrow> string \<Rightarrow> errc + (nat \<times> string)" where
  "std_from_chars limit s =
     (let digits = takeWhile is_digit s
      in if digits = [] then Inl Errc_Invalid_Argument
         else if decimal_value digits \<ge> limit then Inl Errc_Result_Out_Of_Range
         else Inr (decimal_value digits, dropWhile is_digit s))"

lemma std_from_chars_decimal [simp]:
  assumes "n < limit"
  shows "std_from_chars limit (decimal n) = Inr (n, [])"
proof -
  have "takeWhile is_digit (decimal n) = decimal n" "dropWhile is_digit (decimal n) = []"
    using decimal_digits by (auto simp: takeWhile_eq_all_conv)
  then show ?thesis using assms unfolding std_from_chars_def by (simp only: Let_def) simp
qed

section \<open>Trimming and splitting\<close>

definition ascii_whitespace :: string where
  "ascii_whitespace = [CHR '' '', CHR 0x09, CHR 0x0D, CHR 0x0A]"

definition ltrim :: "string \<Rightarrow> string \<Rightarrow> string" where
  "ltrim view chars =
     (case find_first_not_of chars view of
        None \<Rightarrow> []
      | Some first \<Rightarrow> drop first view)"

definition rtrim :: "string \<Rightarrow> string \<Rightarrow> string" where
  "rtrim view chars =
     (case find_last_not_of chars view of
        None \<Rightarrow> []
      | Some last_index \<Rightarrow> take (last_index + 1) view)"

definition trim :: "string \<Rightarrow> string \<Rightarrow> string" where
  "trim view chars = rtrim (ltrim view chars) chars"

text \<open>\<open>boost::split\<close> with the default token compression: between any two delimiters lies a token.\<close>

fun split_on :: "char \<Rightarrow> string \<Rightarrow> string list" where
  "split_on d [] = [[]]"
| "split_on d (c # s) =
     (if c = d then [] # split_on d s
      else (case split_on d s of [] \<Rightarrow> [[c]] | t # ts \<Rightarrow> (c # t) # ts))"

text \<open>\<open>None\<close> is the failed assertion on the number of fields.\<close>

definition split_fields :: "nat \<Rightarrow> string \<Rightarrow> char \<Rightarrow> string list option" where
  "split_fields n body delimiter =
     (let parts = split_on delimiter body
      in if length parts = n then Some (map (\<lambda>p. trim p ascii_whitespace) parts) else None)"

lemma ltrim_eq: "ltrim view chars = dropWhile (\<lambda>c. c \<in> set chars) view"
proof (cases "dropWhile (\<lambda>c. c \<in> set chars) view")
  case Nil
  show ?thesis unfolding ltrim_def find_first_not_of_def Nil by simp
next
  case (Cons x xs)
  have "length view - length (x # xs) = length (takeWhile (\<lambda>c. c \<in> set chars) view)"
    by (metis Cons add_diff_cancel_right' length_append takeWhile_dropWhile_id)
  then show ?thesis
    using Cons by (simp add: ltrim_def find_first_not_of_def dropWhile_eq_drop [symmetric] del: length_Cons)
qed

lemma rtrim_eq: "rtrim view chars = rev (dropWhile (\<lambda>c. c \<in> set chars) (rev view))"
proof (cases "dropWhile (\<lambda>c. c \<in> set chars) (rev view)")
  case Nil
  show ?thesis unfolding rtrim_def find_last_not_of_def Nil by simp
next
  case (Cons x xs)
  have "rev view = takeWhile (\<lambda>c. c \<in> set chars) (rev view) @ x # xs" by (metis Cons takeWhile_dropWhile_id)
  then have "view = rev (x # xs) @ rev (takeWhile (\<lambda>c. c \<in> set chars) (rev view))"
    by (metis rev_append rev_rev_ident)
  then have "take (length (x # xs)) view = rev (x # xs)" by (metis append_eq_conv_conj length_rev)
  with Cons show ?thesis by (simp add: rtrim_def find_last_not_of_def)
qed

lemma split_on_nonempty [simp]: "split_on d s \<noteq> []"
  by (induction s) (auto split: list.split)

lemma split_on_no_delimiter: "t \<in> set (split_on d s) \<Longrightarrow> d \<notin> set t"
  by (induction s arbitrary: t) (auto split: list.splits if_splits)

lemma split_on_length: "length (split_on d s) = Suc (count_list s d)"
  by (induction s) (auto split: list.split)

end
