(* ===== verification/Errors.thy ===== *)
theory Errors
  imports Text
begin

text \<open>
  Error values (\<open>lab/error_code.hpp\<close>, \<open>errors.hpp\<close>, \<open>error.hpp\<close>, \<open>error_macros.hpp\<close> and the
  \<open>error_code.hpp\<close>/\<open>errors.hpp\<close> of each domain). \<open>lab::error\<close> is a type-erased payload: here a
  datatype with one constructor per payload of the repository. The source location it also
  carries is not modelled.
\<close>

section \<open>Error codes\<close>

datatype lab_error_code =
    Code_Generic_Error | Code_Invalid_Argument | Code_Out_Of_Bounds | Code_Already_In_Progress
  | Code_Not_Implemented | Code_Configuration_Error

datatype order_entry_error_code =
    Code_Invalid_Field | Code_Missing_Field | Code_Unknown_Order | Code_Parser_Error

datatype matching_engine_error_code = Code_Duplicate_Order | Code_Unknown_Symbol

datatype quickfix_error_code = Code_Not_Connected | Code_Malformed_Message | Code_Missing_Msg_Type

datatype morfix_quickfix_error_code = Code_Unsupported_Message

datatype error_code =
    Lab_Code lab_error_code
  | Order_Entry_Code order_entry_error_code
  | Matching_Engine_Code matching_engine_error_code
  | Quickfix_Code quickfix_error_code
  | Morfix_Quickfix_Code morfix_quickfix_error_code

fun lab_code_value :: "lab_error_code \<Rightarrow> int" where
  "lab_code_value Code_Generic_Error = 101001"
| "lab_code_value Code_Invalid_Argument = 101004"
| "lab_code_value Code_Out_Of_Bounds = 101007"
| "lab_code_value Code_Already_In_Progress = 101008"
| "lab_code_value Code_Not_Implemented = 101009"
| "lab_code_value Code_Configuration_Error = 101011"

fun lab_code_message :: "lab_error_code \<Rightarrow> string" where
  "lab_code_message Code_Generic_Error = ''generic error''"
| "lab_code_message Code_Invalid_Argument = ''invalid argument''"
| "lab_code_message Code_Out_Of_Bounds = ''out of bounds''"
| "lab_code_message Code_Already_In_Progress = ''already in progress''"
| "lab_code_message Code_Not_Implemented = ''not implemented''"
| "lab_code_message Code_Configuration_Error = ''configuration error''"

fun order_entry_code_value :: "order_entry_error_code \<Rightarrow> int" where
  "order_entry_code_value Code_Invalid_Field = 201001"
| "order_entry_code_value Code_Missing_Field = 201002"
| "order_entry_code_value Code_Unknown_Order = 201003"
| "order_entry_code_value Code_Parser_Error = 201004"

fun order_entry_code_message :: "order_entry_error_code \<Rightarrow> string" where
  "order_entry_code_message Code_Invalid_Field = ''invalid field''"
| "order_entry_code_message Code_Missing_Field = ''missing field''"
| "order_entry_code_message Code_Unknown_Order = ''unknown order''"
| "order_entry_code_message Code_Parser_Error = ''parser error''"

fun matching_engine_code_value :: "matching_engine_error_code \<Rightarrow> int" where
  "matching_engine_code_value Code_Duplicate_Order = 202001"
| "matching_engine_code_value Code_Unknown_Symbol = 202002"

fun matching_engine_code_message :: "matching_engine_error_code \<Rightarrow> string" where
  "matching_engine_code_message Code_Duplicate_Order = ''duplicate order''"
| "matching_engine_code_message Code_Unknown_Symbol = ''unknown symbol''"

fun quickfix_code_value :: "quickfix_error_code \<Rightarrow> int" where
  "quickfix_code_value Code_Not_Connected = 207001"
| "quickfix_code_value Code_Malformed_Message = 207002"
| "quickfix_code_value Code_Missing_Msg_Type = 207003"

fun quickfix_code_message :: "quickfix_error_code \<Rightarrow> string" where
  "quickfix_code_message Code_Not_Connected = ''not connected''"
| "quickfix_code_message Code_Malformed_Message = ''malformed message''"
| "quickfix_code_message Code_Missing_Msg_Type = ''missing message type''"

fun morfix_quickfix_code_value :: "morfix_quickfix_error_code \<Rightarrow> int" where
  "morfix_quickfix_code_value Code_Unsupported_Message = 206002"

fun morfix_quickfix_code_message :: "morfix_quickfix_error_code \<Rightarrow> string" where
  "morfix_quickfix_code_message Code_Unsupported_Message = ''unsupported message''"

text \<open>\<open>std::error_code\<close>: the value, and the category it is paired with.\<close>

fun code_value :: "error_code \<Rightarrow> int" where
  "code_value (Lab_Code c) = lab_code_value c"
| "code_value (Order_Entry_Code c) = order_entry_code_value c"
| "code_value (Matching_Engine_Code c) = matching_engine_code_value c"
| "code_value (Quickfix_Code c) = quickfix_code_value c"
| "code_value (Morfix_Quickfix_Code c) = morfix_quickfix_code_value c"

fun category_name :: "error_code \<Rightarrow> string" where
  "category_name (Lab_Code c) = ''lab::error_category''"
| "category_name (Order_Entry_Code c) = ''order_entry::error_category''"
| "category_name (Matching_Engine_Code c) = ''matching_engine::error_category''"
| "category_name (Quickfix_Code c) = ''quickfix_fix::error_category''"
| "category_name (Morfix_Quickfix_Code c) = ''morfix_quickfix::error_category''"

fun code_message :: "error_code \<Rightarrow> string" where
  "code_message (Lab_Code c) = lab_code_message c"
| "code_message (Order_Entry_Code c) = order_entry_code_message c"
| "code_message (Matching_Engine_Code c) = matching_engine_code_message c"
| "code_message (Quickfix_Code c) = quickfix_code_message c"
| "code_message (Morfix_Quickfix_Code c) = morfix_quickfix_code_message c"

section \<open>Payloads\<close>

datatype error =
    Generic_Error error_code "string option"
  | Invalid_Field string string
  | Missing_Field string
  | Unknown_Order_Error u64 u64
  | Parser_Error string
  | Duplicate_Order_Error u64 u64
  | Unknown_Symbol_Error string
  | Not_Connected
  | Malformed_Message string
  | Missing_Msg_Type
  | Unsupported_Message string

type_synonym 'a result = "error + 'a"

fun payload_code :: "error \<Rightarrow> error_code" where
  "payload_code (Generic_Error ec _) = ec"
| "payload_code (Invalid_Field _ _) = Order_Entry_Code Code_Invalid_Field"
| "payload_code (Missing_Field _) = Order_Entry_Code Code_Missing_Field"
| "payload_code (Unknown_Order_Error _ _) = Order_Entry_Code Code_Unknown_Order"
| "payload_code (Parser_Error _) = Order_Entry_Code Code_Parser_Error"
| "payload_code (Duplicate_Order_Error _ _) = Matching_Engine_Code Code_Duplicate_Order"
| "payload_code (Unknown_Symbol_Error _) = Matching_Engine_Code Code_Unknown_Symbol"
| "payload_code Not_Connected = Quickfix_Code Code_Not_Connected"
| "payload_code (Malformed_Message _) = Quickfix_Code Code_Malformed_Message"
| "payload_code Missing_Msg_Type = Quickfix_Code Code_Missing_Msg_Type"
| "payload_code (Unsupported_Message _) = Morfix_Quickfix_Code Code_Unsupported_Message"

text \<open>\<open>what\<close> of \<open>lab::errors::generic_error\<close>.\<close>

definition generic_error_what :: "error_code \<Rightarrow> string option \<Rightarrow> string" where
  [simp]: "generic_error_what ec txt = (case txt of Some s \<Rightarrow> code_message ec @ '' | '' @ s | None \<Rightarrow> code_message ec)"

fun payload_what :: "error \<Rightarrow> string" where
  "payload_what (Generic_Error ec txt) = generic_error_what ec txt"
| "payload_what (Invalid_Field n v) = ''invalid field '' @ n @ ''='' @ [CHR 0x22] @ v @ [CHR 0x22]"
| "payload_what (Missing_Field n) = ''missing required field: '' @ n"
| "payload_what (Unknown_Order_Error c i) =
     ''client_id='' @ decimal (unat c) @ '' orig_cl_ord_id='' @ decimal (unat i)"
| "payload_what (Parser_Error r) = ''parser error: '' @ r"
| "payload_what (Duplicate_Order_Error c i) =
     ''client_id='' @ decimal (unat c) @ '' cl_ord_id='' @ decimal (unat i)"
| "payload_what (Unknown_Symbol_Error s) = ''symbol='' @ s"
| "payload_what Not_Connected = ''FIX session has no peer''"
| "payload_what (Malformed_Message txt) = txt"
| "payload_what Missing_Msg_Type = ''tag 35 is required''"
| "payload_what (Unsupported_Message mt) = ''unsupported FIX message type '' @ mt"

definition error_what :: "error \<Rightarrow> string" where
  "error_what e = code_message (payload_code e) @ '' | '' @ payload_what e"

text \<open>\<open>lab::make_leaf_error(ec, text)\<close>.\<close>

definition make_leaf_error :: "error_code \<Rightarrow> string \<Rightarrow> 'a result" where
  "make_leaf_error ec txt = Inl (Generic_Error ec (Some txt))"

abbreviation invalid_argument :: "string \<Rightarrow> 'a result" where
  "invalid_argument txt \<equiv> make_leaf_error (Lab_Code Code_Invalid_Argument) txt"

text \<open>Each domain has its own block of numbers, so a number alone identifies a code.\<close>

fun domain_block :: "error_code \<Rightarrow> int" where
  "domain_block (Lab_Code _) = 101"
| "domain_block (Order_Entry_Code _) = 201"
| "domain_block (Matching_Engine_Code _) = 202"
| "domain_block (Quickfix_Code _) = 207"
| "domain_block (Morfix_Quickfix_Code _) = 206"

lemma code_value_block: "code_value c div 1000 = domain_block c"
proof (cases c)
  case (Lab_Code x) then show ?thesis by (cases x) simp_all
next
  case (Order_Entry_Code x) then show ?thesis by (cases x) simp_all
next
  case (Matching_Engine_Code x) then show ?thesis by (cases x) simp_all
next
  case (Quickfix_Code x) then show ?thesis by (cases x) simp_all
next
  case (Morfix_Quickfix_Code x) then show ?thesis by (cases x) simp_all
qed

text \<open>
  An error code is identified by its number alone: the numbers of all domains are
  distinct, and each domain keeps to its own block of a thousand.
\<close>
lemma code_numbers_identify:
  "inj code_value \<and> (\<forall>c. code_value c div 1000 = domain_block c)"
proof -
  have "c = d" if eq: "code_value c = code_value d" for c d
  proof -
    have "domain_block c = domain_block d" using eq code_value_block by metis
    then show ?thesis
    proof (cases c; cases d; simp)
      fix x y assume "c = Lab_Code x" "d = Lab_Code y"
      with eq show "x = y" by (cases x; cases y) simp_all
    next
      fix x y assume "c = Order_Entry_Code x" "d = Order_Entry_Code y"
      with eq show "x = y" by (cases x; cases y) simp_all
    next
      fix x y assume "c = Matching_Engine_Code x" "d = Matching_Engine_Code y"
      with eq show "x = y" by (cases x; cases y) simp_all
    next
      fix x y assume "c = Quickfix_Code x" "d = Quickfix_Code y"
      with eq show "x = y" by (cases x; cases y) simp_all
    next
      fix x y assume "c = Morfix_Quickfix_Code x" "d = Morfix_Quickfix_Code y"
      show "x = y" by (cases x; cases y) simp_all
    qed
  qed
  then show ?thesis using code_value_block by (auto intro: injI)
qed

section \<open>lab::from_chars\<close>

text \<open>\<open>lab/charconv.hpp\<close>: the whole view must be a number of the type, unless the match is partial.\<close>

datatype match_type = Match_Exact | Match_Partial

definition from_chars :: "match_type \<Rightarrow> string \<Rightarrow> 'a::len word result" where
  "from_chars mt view =
     (case std_from_chars (2 ^ LENGTH('a)) view of
        Inl _ \<Rightarrow> invalid_argument (''can't convert string '' @ [CHR 0x22] @ view @ [CHR 0x22] @ '' to integer'')
      | Inr (n, rest) \<Rightarrow>
          (if mt = Match_Exact \<and> rest \<noteq> []
           then invalid_argument (''string '' @ [CHR 0x22] @ view @ [CHR 0x22] @
                  '' to integer with exact match has unmatched characters '' @ [CHR 0x22] @ rest @ [CHR 0x22])
           else Inr (of_nat n)))"

definition format_unsigned :: "'a::len word \<Rightarrow> string" where
  "format_unsigned w = decimal (unat w)"

lemma from_chars_format [simp]: "from_chars mt (format_unsigned w) = Inr w"
  by (simp add: from_chars_def format_unsigned_def)

lemma format_unsigned_digits: "c \<in> set (format_unsigned w) \<Longrightarrow> is_digit c"
  by (simp add: format_unsigned_def decimal_digits)

lemma format_unsigned_nonempty [simp]: "format_unsigned w \<noteq> []"
  by (simp add: format_unsigned_def)

text \<open>
  C38: Exact number parsing accepts a text exactly when it is a non-empty string of decimal
  digits whose value fits the type, and yields that value; it is the inverse of formatting.
\<close>
theorem from_chars_exact_iff:
  "(from_chars Match_Exact s = Inr (w :: 'a::len word) \<longleftrightarrow>
     s \<noteq> [] \<and> list_all is_digit s \<and> decimal_value s = unat w) \<and>
   from_chars Match_Exact (format_unsigned w) = Inr w"
proof
  show "from_chars Match_Exact (format_unsigned w) = Inr w" by simp
  show "from_chars Match_Exact s = Inr w \<longleftrightarrow>
     s \<noteq> [] \<and> list_all is_digit s \<and> decimal_value s = unat w"
  proof (cases "\<forall>c\<in>set s. is_digit c")
    case True
    then have tw: "takeWhile is_digit s = s" by (simp add: takeWhile_eq_all_conv)
    have dw: "dropWhile is_digit s = []" using True by simp
    have "decimal_value s < 2 ^ LENGTH('a) \<Longrightarrow> (word_of_nat (decimal_value s) :: 'a word) = w \<longleftrightarrow> decimal_value s = unat w"
      using unat_of_nat [of "decimal_value s", where ?'a = 'a] by (auto simp: word_unat_eq_iff)
    moreover have "\<not> 2 ^ LENGTH('a) \<le> unat w" by (simp add: not_le)
    ultimately show ?thesis
      using True unfolding list_all_iff from_chars_def std_from_chars_def Let_def tw dw make_leaf_error_def by auto
  next
    case False
    then have "dropWhile is_digit s \<noteq> []" by simp
    with False show ?thesis
      unfolding from_chars_def std_from_chars_def Let_def make_leaf_error_def list_all_iff by (auto split: if_splits)
  qed
qed

end
