(* ===== verification/Fixed_String.thy ===== *)
theory Fixed_String
  imports Errors
begin

text \<open>
  \<open>lab::fixed_string<N>\<close> (\<open>lab/fixed_string.hpp\<close>): a string of at most \<open>N\<close> characters in a
  buffer of \<open>N + 2\<close>, its length in the first character and zeros behind its end. The template
  argument \<open>N\<close> is the first argument of each operation; the class requires \<open>N \<le> 127\<close>.
\<close>

section \<open>The class\<close>

record fixed_string =
  fs_buffer :: string
  fs_truncated :: bool

definition nul :: char where "nul = char_of (0::nat)"

definition fs_empty :: "nat \<Rightarrow> fixed_string" where
  "fs_empty n = \<lparr>fs_buffer = replicate (n + 2) nul, fs_truncated = False\<rparr>"

text \<open>Copying \<open>s\<close> over the buffer from position \<open>i\<close> on, as \<open>std::copy\<close> does.\<close>

definition overwrite :: "nat \<Rightarrow> string \<Rightarrow> string \<Rightarrow> string" where
  "overwrite i s buffer = take i buffer @ s @ drop (i + length s) buffer"

text \<open>The buffer that holds \<open>s\<close>: length, characters, on top of a zeroed array.\<close>

definition store :: "nat \<Rightarrow> string \<Rightarrow> string" where
  "store n s = overwrite 1 s (overwrite 0 [char_of (length s)] (replicate (n + 2) nul))"

definition fs_size :: "fixed_string \<Rightarrow> nat" where
  "fs_size fs = of_char (hd (fs_buffer fs))"

definition to_string_view :: "fixed_string \<Rightarrow> string" where
  "to_string_view fs = take (fs_size fs) (drop 1 (fs_buffer fs))"

definition c_str :: "fixed_string \<Rightarrow> string" where
  "c_str fs = drop 1 (fs_buffer fs)"

definition fs_is_empty :: "fixed_string \<Rightarrow> bool" where
  "fs_is_empty fs \<longleftrightarrow> fs_size fs = 0"

definition from_string_view :: "nat \<Rightarrow> string \<Rightarrow> fixed_string" where
  "from_string_view n sv =
     (let size = min (length sv) n
      in \<lparr>fs_buffer = store n (take size sv), fs_truncated = (length sv > n)\<rparr>)"

text \<open>Strict policy: a view that does not fit is an error; \<open>truncate_from\<close> asks for truncation.\<close>

definition fs_from :: "nat \<Rightarrow> string \<Rightarrow> fixed_string result" where
  "fs_from n sv =
     (if length sv > n then make_leaf_error (Lab_Code Code_Out_Of_Bounds) ''max size exceeded''
      else Inr (from_string_view n sv))"

definition truncate_from :: "nat \<Rightarrow> string \<Rightarrow> fixed_string" where
  "truncate_from n sv = from_string_view n sv"

text \<open>A literal that fits, checked at compile time.\<close>

definition fs_literal :: "nat \<Rightarrow> string \<Rightarrow> fixed_string" where
  "fs_literal n str = \<lparr>fs_buffer = overwrite 0 [char_of (length str)] (overwrite 1 str (replicate (n + 2) nul)),
                       fs_truncated = False\<rparr>"

text \<open>\<open>format_to_n\<close> writes at most \<open>N\<close> characters and reports the length of the whole number.\<close>

definition format_integer :: "int \<Rightarrow> string" where
  "format_integer i = (if i < 0 then CHR ''-'' # decimal (nat (- i)) else decimal (nat i))"

definition from_number :: "nat \<Rightarrow> int \<Rightarrow> fixed_string result" where
  "from_number n number =
     (let txt = format_integer number;
          buffer = overwrite 1 (take n txt) (replicate (n + 2) nul)
      in if length txt > n
         then make_leaf_error (Lab_Code Code_Out_Of_Bounds)
                (''number '' @ txt @ '' exceeds max string size '' @ decimal n)
         else Inr \<lparr>fs_buffer = overwrite 0 [char_of (length txt)] buffer, fs_truncated = False\<rparr>)"

definition sv_starts_with :: "string \<Rightarrow> string \<Rightarrow> bool" where
  "sv_starts_with sv chars \<longleftrightarrow> take (length chars) sv = chars"

definition sv_ends_with :: "string \<Rightarrow> string \<Rightarrow> bool" where
  "sv_ends_with sv chars \<longleftrightarrow> length chars \<le> length sv \<and> drop (length sv - length chars) sv = chars"

fun sv_contains :: "string \<Rightarrow> string \<Rightarrow> bool" where
  "sv_contains [] chars = (chars = [])"
| "sv_contains (c # sv) chars = (sv_starts_with (c # sv) chars \<or> sv_contains sv chars)"

definition fs_starts_with :: "fixed_string \<Rightarrow> string \<Rightarrow> bool" where
  "fs_starts_with fs chars = sv_starts_with (to_string_view fs) chars"

definition fs_ends_with :: "fixed_string \<Rightarrow> string \<Rightarrow> bool" where
  "fs_ends_with fs chars = sv_ends_with (to_string_view fs) chars"

definition fs_contains :: "fixed_string \<Rightarrow> string \<Rightarrow> bool" where
  "fs_contains fs chars = sv_contains (to_string_view fs) chars"

definition remove_suffix :: "nat \<Rightarrow> fixed_string \<Rightarrow> string \<Rightarrow> fixed_string" where
  "remove_suffix n fs chars =
     (let sv = to_string_view fs;
          sv' = (if sv_ends_with sv chars then take (length sv - length chars) sv else sv)
      in \<lparr>fs_buffer = store n sv', fs_truncated = fs_truncated fs\<rparr>)"

text \<open>
  Construction and assignment from a smaller fixed string. The constructor copies over a fresh
  zeroed buffer; the assignment copies over the old contents and clears what is left behind.
\<close>

definition fs_widen :: "nat \<Rightarrow> fixed_string \<Rightarrow> fixed_string" where
  "fs_widen n other = \<lparr>fs_buffer = overwrite 0 (fs_buffer other) (replicate (n + 2) nul),
                       fs_truncated = fs_truncated other\<rparr>"

definition fs_assign :: "nat \<Rightarrow> fixed_string \<Rightarrow> fixed_string \<Rightarrow> fixed_string" where
  "fs_assign n fs other =
     fs\<lparr>fs_buffer := overwrite (length (fs_buffer other)) (replicate (n + 2 - length (fs_buffer other)) nul)
                       (overwrite 0 (fs_buffer other) (fs_buffer fs)),
        fs_truncated := fs_truncated other\<rparr>"

definition fs_equal_view :: "fixed_string \<Rightarrow> string \<Rightarrow> bool" where
  "fs_equal_view fs rhs \<longleftrightarrow> to_string_view fs = rhs"

text \<open>Comparing two fixed strings converts the right one to a view.\<close>

definition fs_equal :: "fixed_string \<Rightarrow> fixed_string \<Rightarrow> bool" where
  "fs_equal fs other = fs_equal_view fs (to_string_view other)"

text \<open>\<open>boost::hash_range\<close> over the whole buffer; \<open>hash_range\<close> is a parameter.\<close>

definition fs_hash :: "(string \<Rightarrow> u64) \<Rightarrow> fixed_string \<Rightarrow> u64" where
  "fs_hash hash_range fs = hash_range (fs_buffer fs)"

section \<open>Representation invariant\<close>

definition fs_ok :: "nat \<Rightarrow> fixed_string \<Rightarrow> bool" where
  "fs_ok n fs \<longleftrightarrow> (\<exists>s. length s \<le> n \<and> fs_buffer fs = char_of (length s) # s @ replicate (n + 1 - length s) nul)"

lemma drop_nuls [simp]: "drop k (nul # replicate n nul) = replicate (Suc n - k) nul"
  by (metis drop_replicate replicate_Suc)

lemma store_eq: "length s \<le> n \<Longrightarrow> store n s = char_of (length s) # s @ replicate (n + 1 - length s) nul"
  by (simp add: store_def overwrite_def)

lemma of_char_length [simp]: "length s \<le> n \<Longrightarrow> n \<le> 127 \<Longrightarrow> (of_char (char_of (length s)) :: nat) = length s"
  by simp

lemma fs_okE:
  assumes "fs_ok n fs" "n \<le> 127"
  obtains s where "length s \<le> n" "to_string_view fs = s" "fs_size fs = length s"
    "fs_buffer fs = char_of (length s) # s @ replicate (n + 1 - length s) nul"
proof -
  from assms(1) obtain s where s: "length s \<le> n" "fs_buffer fs = char_of (length s) # s @ replicate (n + 1 - length s) nul"
    by (auto simp: fs_ok_def)
  moreover from s assms(2) have "fs_size fs = length s" by (simp add: fs_size_def)
  ultimately show thesis by (intro that [of s]) (simp_all add: to_string_view_def)
qed

lemma fs_ok_store: "length s \<le> n \<Longrightarrow> fs_buffer fs = store n s \<Longrightarrow> fs_ok n fs"
  by (auto simp: fs_ok_def store_eq)

lemma view_store: "length s \<le> n \<Longrightarrow> n \<le> 127 \<Longrightarrow> fs_buffer fs = store n s \<Longrightarrow> to_string_view fs = s"
  by (simp add: to_string_view_def fs_size_def store_eq)

lemma fs_literal_buffer: "length s \<le> n \<Longrightarrow> fs_buffer (fs_literal n s) = store n s"
  by (simp add: fs_literal_def store_eq overwrite_def numeral_2_eq_2)

lemma from_number_buffer:
  "from_number n i = Inr fs \<Longrightarrow> length (format_integer i) \<le> n \<and> fs_buffer fs = store n (format_integer i)"
  by (auto simp: from_number_def Let_def make_leaf_error_def store_eq overwrite_def numeral_2_eq_2 split: if_splits)

lemma widen_buffer:
  assumes "length s \<le> m" "m \<le> n" "fs_buffer fs = store m s"
  shows "fs_buffer (fs_widen n fs) = store n s"
proof -
  have "replicate (m + 1 - length s) nul @ replicate (n - m) nul = replicate (n + 1 - length s) nul"
    using assms(1,2) by (simp add: replicate_add [symmetric])
  then show ?thesis using assms by (simp add: fs_widen_def store_eq overwrite_def)
qed

lemma assign_buffer:
  assumes "length s \<le> m" "m \<le> n" "fs_buffer other = store m s" "length (fs_buffer fs) = n + 2"
  shows "fs_buffer (fs_assign n fs other) = store n s"
proof -
  have "replicate (m + 1 - length s) nul @ replicate (n - m) nul = replicate (n + 1 - length s) nul"
    using assms(1,2) by (simp add: replicate_add [symmetric])
  moreover have "length (store m s) = m + 2" using assms(1) by (simp add: store_eq)
  ultimately show ?thesis using assms by (simp add: fs_assign_def overwrite_def) (simp add: store_eq)
qed

lemma fs_ok_buffer: "fs_ok n fs \<Longrightarrow> n \<le> 127 \<Longrightarrow> length (to_string_view fs) \<le> n \<and> fs_buffer fs = store n (to_string_view fs)"
  by (elim fs_okE) (auto simp: store_eq)

text \<open>
  C37: Every way to make a fixed string (the default constructor, from a view under either policy, from a literal, from
  a number that fits, by dropping a suffix, by widening or assigning a smaller one) yields a
  well-formed buffer that reads back as the characters it was made from.
\<close>
theorem fixed_string_operations:
  assumes n: "n \<le> 127" and m: "m \<le> n"
  shows "fs_ok n (from_string_view n sv) \<and> to_string_view (from_string_view n sv) = take n sv \<and>
         (fs_from n sv = Inr fs \<longrightarrow> fs_ok n fs \<and> to_string_view fs = sv) \<and>
         (is_ok (fs_from n sv) \<longleftrightarrow> length sv \<le> n) \<and>
         (length sv \<le> n \<longrightarrow> fs_ok n (fs_literal n sv) \<and> to_string_view (fs_literal n sv) = sv) \<and>
         (from_number n i = Inr fs \<longrightarrow> fs_ok n fs \<and> to_string_view fs = format_integer i) \<and>
         (is_ok (from_number n i) \<longleftrightarrow> length (format_integer i) \<le> n) \<and>
         fs_ok n (fs_empty n) \<and> to_string_view (fs_empty n) = [] \<and>
         (fs_ok n fs \<longrightarrow> fs_ok n (remove_suffix n fs sv) \<and>
            to_string_view (remove_suffix n fs sv) =
              (if sv_ends_with (to_string_view fs) sv
               then take (length (to_string_view fs) - length sv) (to_string_view fs) else to_string_view fs)) \<and>
         (fs_ok m gs \<longrightarrow> fs_ok n (fs_widen n gs) \<and> to_string_view (fs_widen n gs) = to_string_view gs) \<and>
         (fs_ok m gs \<longrightarrow> fs_ok n fs \<longrightarrow>
            fs_ok n (fs_assign n fs gs) \<and> to_string_view (fs_assign n fs gs) = to_string_view gs)"
proof -
  have view: "fs_ok n (from_string_view n sv) \<and> to_string_view (from_string_view n sv) = take n sv" for sv
    by (auto simp: from_string_view_def min_def intro!: fs_ok_store view_store n)
  have strict: "fs_from n sv = Inr fs \<longrightarrow> fs_ok n fs \<and> to_string_view fs = sv" "is_ok (fs_from n sv) \<longleftrightarrow> length sv \<le> n"
    using view [of sv] by (auto simp: fs_from_def make_leaf_error_def)
  have lit: "length sv \<le> n \<longrightarrow> fs_ok n (fs_literal n sv) \<and> to_string_view (fs_literal n sv) = sv"
    using fs_ok_store [OF _ fs_literal_buffer] view_store [OF _ n fs_literal_buffer] by blast
  have num: "from_number n i = Inr fs \<longrightarrow> fs_ok n fs \<and> to_string_view fs = format_integer i"
    using from_number_buffer fs_ok_store view_store [OF _ n] by blast
  have suf: "fs_ok n fs \<longrightarrow> fs_ok n (remove_suffix n fs sv) \<and>
            to_string_view (remove_suffix n fs sv) =
              (if sv_ends_with (to_string_view fs) sv
               then take (length (to_string_view fs) - length sv) (to_string_view fs) else to_string_view fs)"
  proof
    assume "fs_ok n fs"
    define sv' where "sv' = (if sv_ends_with (to_string_view fs) sv
               then take (length (to_string_view fs) - length sv) (to_string_view fs) else to_string_view fs)"
    have "length (to_string_view fs) \<le> n" using fs_ok_buffer [OF \<open>fs_ok n fs\<close> n] by blast
    then have l: "length sv' \<le> n" by (auto simp: sv'_def)
    have b: "fs_buffer (remove_suffix n fs sv) = store n sv'" by (simp add: remove_suffix_def Let_def sv'_def)
    show "fs_ok n (remove_suffix n fs sv) \<and> to_string_view (remove_suffix n fs sv) =
              (if sv_ends_with (to_string_view fs) sv
               then take (length (to_string_view fs) - length sv) (to_string_view fs) else to_string_view fs)"
      unfolding sv'_def [symmetric] using fs_ok_store [OF l b] view_store [OF l n b] ..
  qed
  have small: "length (to_string_view gs) \<le> m" "fs_buffer gs = store m (to_string_view gs)" if "fs_ok m gs"
    using fs_ok_buffer [OF that] m n by auto
  have wid: "fs_ok m gs \<longrightarrow> fs_ok n (fs_widen n gs) \<and> to_string_view (fs_widen n gs) = to_string_view gs"
  proof
    assume g: "fs_ok m gs"
    have l: "length (to_string_view gs) \<le> n" using small(1) [OF g] m by simp
    note w = widen_buffer [OF small(1) [OF g] m small(2) [OF g]]
    show "fs_ok n (fs_widen n gs) \<and> to_string_view (fs_widen n gs) = to_string_view gs"
      using fs_ok_store [OF l w] view_store [OF l n w] ..
  qed
  have len: "length (fs_buffer fs) = n + 2" if "fs_ok n fs"
    using that by (auto simp: fs_ok_def)
  have ass: "fs_ok m gs \<longrightarrow> fs_ok n fs \<longrightarrow>
            fs_ok n (fs_assign n fs gs) \<and> to_string_view (fs_assign n fs gs) = to_string_view gs"
  proof (intro impI)
    assume g: "fs_ok m gs" and f: "fs_ok n fs"
    have l: "length (to_string_view gs) \<le> n" using small(1) [OF g] m by simp
    note w = assign_buffer [OF small(1) [OF g] m small(2) [OF g] len [OF f]]
    show "fs_ok n (fs_assign n fs gs) \<and> to_string_view (fs_assign n fs gs) = to_string_view gs"
      using fs_ok_store [OF l w] view_store [OF l n w] ..
  qed
  have number: "is_ok (from_number n i) \<longleftrightarrow> length (format_integer i) \<le> n"
    by (simp add: from_number_def Let_def make_leaf_error_def)
  have none: "fs_buffer (fs_empty n) = store n []" by (simp add: fs_empty_def store_eq nul_def)
  have empty: "fs_ok n (fs_empty n) \<and> to_string_view (fs_empty n) = []"
    using fs_ok_store [OF _ none] view_store [OF _ n none] by simp
  show ?thesis using view [of sv] strict lit num number empty suf wid ass by blast
qed

lemma fixed_string_operations_witness:
  "fs_ok 16 (from_string_view 16 ''PETR4'') \<and> to_string_view (from_string_view 16 ''PETR4'') = ''PETR4''"
  using fixed_string_operations [of 16 8 "''PETR4''" "fs_empty 16" 0 "fs_empty 8"] by simp

text \<open>
  Two well-formed fixed strings of one size compare equal exactly when their whole buffers
  are equal, so equal strings have equal hashes whatever \<open>boost::hash_range\<close> computes; the
  character array is terminated by a null right behind the string.
\<close>
lemma equal_strings_hash_equal:
  assumes "n \<le> 127" "fs_ok n fs" "fs_ok n gs"
  shows "(fs_equal fs gs \<longleftrightarrow> fs_buffer fs = fs_buffer gs) \<and>
         (fs_equal fs gs \<longrightarrow> fs_hash hash_range fs = fs_hash hash_range gs) \<and>
         c_str fs ! fs_size fs = nul"
proof -
  from fs_ok_buffer [OF assms(2,1)] fs_ok_buffer [OF assms(3,1)]
  have b: "fs_buffer fs = store n (to_string_view fs)" "fs_buffer gs = store n (to_string_view gs)" by auto
  then have eq: "fs_equal fs gs \<longleftrightarrow> fs_buffer fs = fs_buffer gs"
    by (auto simp: fs_equal_def fs_equal_view_def to_string_view_def fs_size_def)
  from assms(2,1) obtain s where "length s \<le> n" "fs_size fs = length s"
    "fs_buffer fs = char_of (length s) # s @ replicate (n + 1 - length s) nul" by (elim fs_okE)
  then have "c_str fs ! fs_size fs = nul" by (simp add: c_str_def nth_append)
  with eq show ?thesis by (simp add: fs_hash_def)
qed

lemma equal_strings_hash_equal_witness:
  "fs_equal (from_string_view 8 ''BVMF'') (fs_literal 8 ''BVMF'') \<and>
   fs_hash (\<lambda>s. of_nat (length s)) (from_string_view 8 ''BVMF'') = fs_hash (\<lambda>s. of_nat (length s)) (fs_literal 8 ''BVMF'')"
proof -
  have a: "fs_ok 8 (from_string_view 8 ''BVMF'')" "fs_ok 8 (fs_literal 8 ''BVMF'')"
    by (rule fs_ok_store [of "''BVMF''"]; simp add: from_string_view_def fs_literal_buffer)+
  have e: "fs_equal (from_string_view 8 ''BVMF'') (fs_literal 8 ''BVMF'')" by code_simp
  show ?thesis using equal_strings_hash_equal [OF _ a, of "\<lambda>s. of_nat (length s)"] e by simp
qed

end
