(* ===== verification/Order_Entry.thy ===== *)
theory Order_Entry
  imports Prelude
begin

text \<open>
  The order-entry vocabulary (\<open>order_entry/types.hpp\<close>, \<open>order_entry/messages.hpp\<close>).

  The \<open>strong_type\<close> wrappers are nominal only (their comparison and arithmetic are those of
  the wrapped value), so an identifier, price or quantity is the 64-bit word it wraps. A
  \<open>fixed_string\<close> is represented by its contents (its \<open>to_string_view\<close>): theory
  \<open>Fixed_String\<close> shows that equality, hashing and conversion depend on nothing else. Every
  enum is a datatype, every struct a record (field names carry a prefix for the struct),
  every variant a datatype with one constructor per alternative.
\<close>

section \<open>Types\<close>

type_synonym client_id = u64
type_synonym cl_ord_id = u64
type_synonym orig_cl_ord_id = u64
type_synonym order_id = u64
type_synonym exec_id = u64
type_synonym security_id = u64
type_synonym symbol = string
type_synonym security_exchange = string
type_synonym price = u64
type_synonym quantity = u64
type_synonym timestamp = u64

definition symbol_size :: nat where
  "symbol_size = 16"

definition security_exchange_size :: nat where
  "security_exchange_size = 8"

datatype side = Buy | Sell

datatype ord_type = Market | Limit

datatype time_in_force = Day | Ioc

datatype exec_type =
    Exec_New_Order | Exec_Replaced | Exec_Canceled | Exec_Trade | Exec_Rejected | Exec_Expired

datatype ord_status =
    Status_New_Order | Status_Partially_Filled | Status_Filled | Status_Canceled
  | Status_Replaced | Status_Rejected | Status_Expired

datatype reject_reason =
    Unknown_Order | Duplicate_Order | Unknown_Symbol | Unsupported_Request

definition opposite :: "side \<Rightarrow> side" where
  "opposite v = (if v = Buy then Sell else Buy)"

lemma opposite_simps [simp]: "opposite Buy = Sell" "opposite Sell = Buy"
  by (simp_all add: opposite_def)

lemma opposite_opposite [simp]: "opposite (opposite s) = s"
  by (cases s) simp_all

section \<open>Messages\<close>

record new_order_single =
  nos_client_id :: client_id
  nos_cl_ord_id :: cl_ord_id
  nos_security_id :: security_id
  nos_symbol :: symbol
  nos_security_exchange :: security_exchange
  nos_side :: side
  nos_ord_type :: ord_type
  nos_time_in_force :: time_in_force
  nos_order_qty :: quantity
  nos_price :: price

record replace_order =
  ro_client_id :: client_id
  ro_cl_ord_id :: cl_ord_id
  ro_orig_cl_ord_id :: orig_cl_ord_id
  ro_security_id :: security_id
  ro_symbol :: symbol
  ro_security_exchange :: security_exchange
  ro_side :: side
  ro_ord_type :: ord_type
  ro_time_in_force :: time_in_force
  ro_order_qty :: quantity
  ro_price :: price

record cancel_order =
  co_client_id :: client_id
  co_cl_ord_id :: cl_ord_id
  co_orig_cl_ord_id :: orig_cl_ord_id

datatype request =
    New_Order_Single new_order_single
  | Replace_Order replace_order
  | Cancel_Order cancel_order
  | Flush

record execution_report =
  er_client_id :: client_id
  er_cl_ord_id :: cl_ord_id
  er_orig_cl_ord_id :: "orig_cl_ord_id option"
  er_order_id :: order_id
  er_exec_id :: exec_id
  er_security_id :: security_id
  er_symbol :: symbol
  er_security_exchange :: security_exchange
  er_side :: side
  er_ord_type :: ord_type
  er_time_in_force :: time_in_force
  er_exec_type :: exec_type
  er_ord_status :: ord_status
  er_order_qty :: quantity
  er_cum_qty :: quantity
  er_leaves_qty :: quantity
  er_last_qty :: "quantity option"
  er_last_px :: "price option"
  er_avg_px :: "price option"
  er_transact_time :: timestamp
  er_reject_reason :: "reject_reason option"
  er_text :: string

record cancel_reject =
  cr_client_id :: client_id
  cr_cl_ord_id :: cl_ord_id
  cr_orig_cl_ord_id :: orig_cl_ord_id
  cr_reject_reason :: reject_reason
  cr_text :: string
  cr_transact_time :: timestamp

datatype event =
    Execution_Report execution_report
  | Cancel_Reject cancel_reject

record rejection =
  rj_raw_payload :: string
  rj_reason :: string

section \<open>Well-formed messages\<close>

text \<open>
  What the types guarantee of a message in the code: a symbol holds at most 16 characters
  and an exchange at most 8, since they are \<open>fixed_string\<close>s.
\<close>

definition symbol_ok :: "symbol \<Rightarrow> bool" where
  "symbol_ok s \<longleftrightarrow> length s \<le> symbol_size"

definition exchange_ok :: "security_exchange \<Rightarrow> bool" where
  "exchange_ok s \<longleftrightarrow> length s \<le> security_exchange_size"

end
