(* ===== verification/Json.thy ===== *)
theory Json
  imports Fixed_String Order_Entry
begin

text \<open>
  The JSON library (nlohmann::json, not part of the repository) as a parameter, and the helpers
  of \<open>lab/json.hpp\<close> the codecs use. An exception the library throws is its \<open>what()\<close> text, as \<open>Inl\<close>.
\<close>

section \<open>The library's interface\<close>

record 'j json_lib =
  js_null :: 'j
  js_string :: "string \<Rightarrow> 'j"
  js_number :: "u64 \<Rightarrow> 'j"
  js_object :: "(string \<times> 'j) list \<Rightarrow> 'j"
  js_dump :: "'j \<Rightarrow> string"
  js_parse :: "string \<Rightarrow> string + 'j"
  js_at :: "'j \<Rightarrow> string \<Rightarrow> string + 'j"
  js_find :: "'j \<Rightarrow> string \<Rightarrow> 'j option"
  js_get_string :: "'j \<Rightarrow> string + string"
  js_get_unsigned :: "'j \<Rightarrow> string + u64"
  js_integer :: "int \<Rightarrow> 'j"
  js_get_integer :: "'j \<Rightarrow> string + int"
  js_items :: "'j \<Rightarrow> (string \<times> 'j) list option"

text \<open>
  Flat objects: what the program's encoders build. The texts are those for which \<open>dump\<close> replaces
  nothing (a byte outside ASCII may be invalid UTF-8).
\<close>

datatype json_field = J_Null | J_String string | J_Number u64

fun field_value :: "('j, 'z) json_lib_scheme \<Rightarrow> json_field \<Rightarrow> 'j" where
  "field_value L J_Null = js_null L"
| "field_value L (J_String s) = js_string L s"
| "field_value L (J_Number n) = js_number L n"

definition flat_object :: "('j, 'z) json_lib_scheme \<Rightarrow> (string \<times> json_field) list \<Rightarrow> 'j" where
  "flat_object L kvs = js_object L (map (\<lambda>(k, v). (k, field_value L v)) kvs)"

definition ascii :: "string \<Rightarrow> bool" where
  "ascii s \<longleftrightarrow> list_all (\<lambda>c. (of_char c :: nat) < 128) s"

fun field_ascii :: "json_field \<Rightarrow> bool" where
  "field_ascii J_Null = True"
| "field_ascii (J_String s) = ascii s"
| "field_ascii (J_Number n) = True"

definition flat_ok :: "(string \<times> json_field) list \<Rightarrow> bool" where
  "flat_ok kvs \<longleftrightarrow> distinct (map fst kvs) \<and> list_all (\<lambda>(k, v). ascii k \<and> field_ascii v) kvs"

definition blank :: "string \<Rightarrow> bool" where
  "blank packet \<longleftrightarrow> list_all (\<lambda>c. c \<in> set ascii_whitespace) packet"

text \<open>The documented behaviour the codecs rely on.\<close>

definition json_laws :: "('j, 'z) json_lib_scheme \<Rightarrow> bool" where
  "json_laws L \<longleftrightarrow>
     (\<forall>kvs. flat_ok kvs \<longrightarrow> js_parse L (js_dump L (flat_object L kvs)) = Inr (flat_object L kvs)) \<and>
     (\<forall>kvs k. distinct (map fst kvs) \<longrightarrow> js_find L (js_object L kvs) k = map_of kvs k) \<and>
     (\<forall>j k v. js_find L j k = Some v \<longrightarrow> js_at L j k = Inr v) \<and>
     (\<forall>j k. js_find L j k = None \<longrightarrow> (\<exists>what. js_at L j k = Inl what)) \<and>
     (\<forall>s. js_get_string L (js_string L s) = Inr s) \<and> (\<exists>what. js_get_string L (js_null L) = Inl what) \<and>
     (\<forall>n. js_get_unsigned L (js_number L n) = Inr n) \<and> (\<exists>what. js_get_unsigned L (js_null L) = Inl what) \<and>
     (\<forall>s. blank s \<longrightarrow> (\<exists>what. js_parse L s = Inl what)) \<and>
     (\<forall>i. js_get_integer L (js_integer L i) = Inr i) \<and>
     (\<forall>kvs. distinct (map fst kvs) \<longrightarrow> (\<exists>items. js_items L (js_object L kvs) = Some items \<and> set items = set kvs)) \<and>
     (\<forall>j items. js_items L j = Some items \<longrightarrow> (\<forall>k v. (k, v) \<in> set items \<longleftrightarrow> js_find L j k = Some v)) \<and>
     (\<forall>j. js_items L j = None \<longrightarrow> (\<forall>k. js_find L j k = None))"

lemma find_flat:
  assumes "\<And>kvs k. distinct (map fst kvs) \<Longrightarrow> js_find L (js_object L kvs) k = map_of kvs k" "distinct (map fst kvs)"
  shows "js_find L (flat_object L kvs) k = map_option (field_value L) (map_of kvs k)"
proof -
  let ?kvs = "map (\<lambda>(k, v). (k, field_value L v)) kvs"
  have keys: "map fst ?kvs = map fst kvs" by (induction kvs) auto
  have members: "map_of ?kvs k = map_option (field_value L) (map_of kvs k)" by (induction kvs) auto
  have "js_find L (js_object L ?kvs) k = map_of ?kvs k" by (rule assms(1)) (use assms(2) in \<open>simp only: keys\<close>)
  then show ?thesis unfolding flat_object_def members .
qed

lemma json_lawsD:
  assumes "json_laws L"
  shows "flat_ok kvs \<Longrightarrow> js_parse L (js_dump L (flat_object L kvs)) = Inr (flat_object L kvs)"
    and "distinct (map fst kvs) \<Longrightarrow> js_find L (flat_object L kvs) k = map_option (field_value L) (map_of kvs k)"
    and "js_find L j k = Some v \<Longrightarrow> js_at L j k = Inr v"
    and "js_find L j k = None \<Longrightarrow> \<exists>what. js_at L j k = Inl what"
    and "js_get_string L (js_string L s) = Inr s"
    and "\<exists>what. js_get_string L (js_null L) = Inl what"
    and "js_get_unsigned L (js_number L n) = Inr n"
    and "\<exists>what. js_get_unsigned L (js_null L) = Inl what"
    and "blank s \<Longrightarrow> \<exists>what. js_parse L s = Inl what"
    and "js_get_integer L (js_integer L i) = Inr i"
    and "distinct (map fst members) \<Longrightarrow> \<exists>items. js_items L (js_object L members) = Some items \<and> set items = set members"
    and "js_items L j = Some items \<Longrightarrow> (k, v) \<in> set items \<longleftrightarrow> js_find L j k = Some v"
    and "js_items L j = None \<Longrightarrow> js_find L j k = None"
    and "distinct (map fst members) \<Longrightarrow> js_find L (js_object L members) k = map_of members k"
proof -
  from assms have object: "\<And>kvs k. distinct (map fst kvs) \<Longrightarrow> js_find L (js_object L kvs) k = map_of kvs k"
    unfolding json_laws_def by blast
  from find_flat [OF this]
  show "distinct (map fst kvs) \<Longrightarrow> js_find L (flat_object L kvs) k = map_option (field_value L) (map_of kvs k)"
    by blast
qed (use assms in \<open>unfold json_laws_def, blast+\<close>)

section \<open>Reading values\<close>

text \<open>\<open>from_json\<close> of a \<open>fixed_string\<close>, and reading one, a number or a string from a member.\<close>

definition get_fixed_string :: "('j, 'z) json_lib_scheme \<Rightarrow> nat \<Rightarrow> 'j \<Rightarrow> string + string" where
  "get_fixed_string L n j =
     rbind (js_get_string L j) (\<lambda>s.
       case fs_from n s of
         Inl _ \<Rightarrow> Inl ''fixed_string out of bounds''
       | Inr parsed \<Rightarrow> Inr (to_string_view parsed))"

lemma view_of_store [simp]:
  "length s \<le> n \<Longrightarrow> n \<le> 127 \<Longrightarrow> to_string_view \<lparr>fs_buffer = store n s, fs_truncated = b\<rparr> = s"
  by (rule view_store) simp_all

lemma get_fixed_string_string:
  "json_laws L \<Longrightarrow> length s \<le> n \<Longrightarrow> n \<le> 127 \<Longrightarrow> get_fixed_string L n (js_string L s) = Inr s"
  by (simp add: get_fixed_string_def json_lawsD fs_from_def from_string_view_def view_store)

lemma get_fixed_string_Inr:
  assumes "n \<le> 127" "get_fixed_string L n j = Inr s"
  shows "length s \<le> n"
  using assms
  by (auto simp: get_fixed_string_def rbind_eq_Inr_iff fs_from_def make_leaf_error_def from_string_view_def
      split: if_splits)

section \<open>Round trip of a flat object\<close>

lemma map_of_field_eq:
  "json_laws L \<Longrightarrow> distinct (map fst kvs) \<Longrightarrow> map_of kvs k = Some v \<Longrightarrow> js_find L (flat_object L kvs) k = Some (field_value L v)"
  by (simp add: json_lawsD(2))

lemma field_value_inject:
  assumes "json_laws L" "field_value L v = field_value L w"
    and "(\<exists>s. v = J_String s) = (\<exists>s. w = J_String s)" "(\<exists>s. v = J_Number s) = (\<exists>s. w = J_Number s)"
  shows "v = w"
proof (cases v)
  case J_Null
  with assms(3,4) show ?thesis by (cases w) auto
next
  case (J_String s)
  with assms(3) obtain t where "w = J_String t" by blast
  with J_String assms(2) json_lawsD(5) [OF assms(1)] show ?thesis by (metis field_value.simps(2) sum.inject(2))
next
  case (J_Number n)
  with assms(4) obtain k where "w = J_Number k" by blast
  with J_Number assms(2) json_lawsD(7) [OF assms(1)] show ?thesis by (metis field_value.simps(3) sum.inject(2))
qed

lemma null_is_no_value:
  assumes "json_laws L"
  shows "js_null L \<noteq> js_string L s" "js_null L \<noteq> js_number L n"
  using json_lawsD(5-8) [OF assms] by (metis sum.distinct(1))+

end
