(* ===== verification/Json_Sample.thy ===== *)
theory Json_Sample
  imports Json
begin

text \<open>
  A concrete JSON library: values, a printer and a parser for flat objects. It satisfies the
  laws, so every property that takes a JSON library as a parameter has an instance.
\<close>

datatype json_value =
    V_Null
  | V_String string
  | V_Number u64
  | V_Integer int
  | V_Bool bool
  | V_Array "json_value list"
  | V_Object "(string \<times> json_value) list"

fun escape :: "string \<Rightarrow> string" where
  "escape [] = []"
| "escape (c # s) =
     (if c = CHR 0x22 \<or> c = CHR 0x5C then [CHR 0x5C, c]
      else if c = CHR 0x0A then [CHR 0x5C, CHR 0x6E] else [c]) @ escape s"

definition quoted :: "string \<Rightarrow> string" where
  "quoted s = [CHR 0x22] @ escape s @ [CHR 0x22]"

fun print_value :: "json_value \<Rightarrow> string" where
  "print_value V_Null = ''null''"
| "print_value (V_String s) = quoted s"
| "print_value (V_Number n) = format_unsigned n"
| "print_value _ = ''?''"

fun print_members :: "(string \<times> json_value) list \<Rightarrow> string" where
  "print_members [] = ''}''"
| "print_members ((k, v) # kvs) =
     quoted k @ '':'' @ print_value v @ (if kvs = [] then [] else '','') @ print_members kvs"

fun print_json :: "json_value \<Rightarrow> string" where
  "print_json (V_Object kvs) = ''{'' @ print_members kvs"
| "print_json v = print_value v"

text \<open>The rest of a quoted text, up to its closing quote.\<close>

fun parse_quoted :: "string \<Rightarrow> (string \<times> string) option" where
  "parse_quoted [] = None"
| "parse_quoted (c # s) =
     (if c = CHR 0x22 then Some ([], s)
      else if c = CHR 0x5C
      then (case s of
              [] \<Rightarrow> None
            | d # s' \<Rightarrow> map_option (\<lambda>(t, r). ((if d = CHR 0x6E then CHR 0x0A else d) # t, r)) (parse_quoted s'))
      else map_option (\<lambda>(t, r). (c # t, r)) (parse_quoted s))"

fun parse_value :: "string \<Rightarrow> (json_value \<times> string) option" where
  "parse_value [] = None"
| "parse_value (c # s) =
     (if c = CHR 0x22 then map_option (\<lambda>(t, r). (V_String t, r)) (parse_quoted s)
      else if is_digit c
      then Some (V_Number (of_nat (decimal_value (takeWhile is_digit (c # s)))), dropWhile is_digit (c # s))
      else if take 4 (c # s) = ''null'' then Some (V_Null, drop 4 (c # s))
      else None)"

fun parse_members :: "nat \<Rightarrow> string \<Rightarrow> (string \<times> json_value) list option" where
  "parse_members 0 s = None"
| "parse_members (Suc fuel) s =
     (case s of
        c # s1 \<Rightarrow>
          (if c = CHR 0x22
           then (case parse_quoted s1 of
                   Some (k, d # s2) \<Rightarrow>
                     (if d = CHR '':''
                      then (case parse_value s2 of
                              Some (v, e # s3) \<Rightarrow>
                                (if e = CHR '','' then map_option (\<lambda>kvs. (k, v) # kvs) (parse_members fuel s3)
                                 else if e = CHR ''}'' \<and> s3 = [] then Some [(k, v)] else None)
                            | _ \<Rightarrow> None)
                      else None)
                 | _ \<Rightarrow> None)
           else if s = ''}'' then Some [] else None)
      | _ \<Rightarrow> None)"

fun parse_json :: "string \<Rightarrow> string + json_value" where
  "parse_json [] = Inl ''unexpected end of input''"
| "parse_json (c # s) =
     (case (if c = CHR ''{'' then map_option V_Object (parse_members (length s) s)
            else (case parse_value (c # s) of Some (v, []) \<Rightarrow> Some v | _ \<Rightarrow> None)) of
        Some v \<Rightarrow> Inr v
      | None \<Rightarrow> Inl ''syntax error'')"

fun find_member :: "json_value \<Rightarrow> string \<Rightarrow> json_value option" where
  "find_member (V_Object kvs) k = map_of kvs k"
| "find_member _ k = None"

fun string_of_value :: "json_value \<Rightarrow> string + string" where
  "string_of_value (V_String s) = Inr s"
| "string_of_value _ = Inl ''type must be string''"

fun unsigned_of_value :: "json_value \<Rightarrow> string + u64" where
  "unsigned_of_value (V_Number n) = Inr n"
| "unsigned_of_value _ = Inl ''type must be number''"

fun integer_of_value :: "json_value \<Rightarrow> string + int" where
  "integer_of_value (V_Integer i) = Inr i"
| "integer_of_value _ = Inl ''type must be number''"

fun items_of_value :: "json_value \<Rightarrow> (string \<times> json_value) list option" where
  "items_of_value (V_Object kvs) = Some (filter (\<lambda>(k, v). map_of kvs k = Some v) kvs)"
| "items_of_value _ = None"

definition sample_json :: "json_value json_lib" where
  "sample_json =
     \<lparr>js_null = V_Null, js_string = V_String, js_number = V_Number, js_object = V_Object,
      js_dump = print_json, js_parse = parse_json,
      js_at = (\<lambda>j k. case find_member j k of Some v \<Rightarrow> Inr v | None \<Rightarrow> Inl (''key not found: '' @ k)),
      js_find = find_member, js_get_string = string_of_value, js_get_unsigned = unsigned_of_value,
      js_integer = V_Integer, js_get_integer = integer_of_value, js_items = items_of_value\<rparr>"

lemma parse_quoted_escape: "parse_quoted (escape s @ CHR 0x22 # r) = Some (s, r)"
  by (induction s) auto

definition boundary :: "string \<Rightarrow> bool" where
  "boundary r \<longleftrightarrow> (\<exists>c t. r = c # t \<and> \<not> is_digit c)"

lemma digits_boundary:
  assumes "boundary r"
  shows "takeWhile is_digit (format_unsigned n @ r) = format_unsigned n"
    and "dropWhile is_digit (format_unsigned n @ r) = r"
  using assms format_unsigned_digits [of _ n]
  by (auto simp: boundary_def takeWhile_append dropWhile_append)

fun flat_value :: "json_value \<Rightarrow> bool" where
  "flat_value (V_Object _) = False"
| "flat_value (V_Integer _) = False"
| "flat_value (V_Bool _) = False"
| "flat_value (V_Array _) = False"
| "flat_value _ = True"

lemma parse_print_value:
  assumes "flat_value v" "boundary r"
  shows "parse_value (print_value v @ r) = Some (v, r)"
proof (cases v)
  case (V_Number n)
  obtain c s where cs: "format_unsigned n = c # s" by (cases "format_unsigned n") simp_all
  then have c: "is_digit c" using format_unsigned_digits [of c n] by simp
  then have "c \<noteq> CHR 0x22" by (auto simp: is_digit_def)
  moreover have "decimal_value (format_unsigned n) = unat n" by (simp add: format_unsigned_def)
  ultimately show ?thesis
    using digits_boundary [OF assms(2), of n] c V_Number cs by (simp del: takeWhile.simps dropWhile.simps)
next
  case V_Null
  then show ?thesis by (simp add: is_digit_def)
qed (use assms in \<open>auto simp: quoted_def parse_quoted_escape\<close>)

lemma parse_print_members:
  assumes "list_all (flat_value \<circ> snd) kvs" "length kvs < fuel"
  shows "parse_members fuel (print_members kvs) = Some kvs"
  using assms
proof (induction kvs arbitrary: fuel)
  case Nil
  then show ?case by (cases fuel) simp_all
next
  case (Cons kv kvs)
  obtain k v where kv: "kv = (k, v)" by (cases kv)
  obtain n where n: "fuel = Suc n" using Cons.prems by (cases fuel) simp_all
  have v: "flat_value v" using Cons.prems by (simp add: kv)
  show ?case
  proof (cases "kvs = []")
    case True
    have "boundary ''}''" by (simp add: boundary_def is_digit_def)
    from parse_print_value [OF v this] show ?thesis
      by (simp add: n kv True quoted_def parse_quoted_escape)
  next
    case False
    have "boundary ('','' @ print_members kvs)" by (simp add: boundary_def is_digit_def)
    from parse_print_value [OF v this] Cons False show ?thesis
      by (simp add: n kv quoted_def parse_quoted_escape)
  qed
qed

lemma length_print_members: "length kvs < length (print_members kvs)"
  by (induction kvs rule: print_members.induct) (auto simp: quoted_def)

lemma sample_json_laws: "json_laws sample_json"
proof -
  have flat: "flat_value (field_value sample_json v)" for v by (cases v) (simp_all add: sample_json_def)
  have dump: "js_parse sample_json (js_dump sample_json (flat_object sample_json kvs)) = Inr (flat_object sample_json kvs)" for kvs
  proof -
    let ?kvs = "map (\<lambda>(k, v). (k, field_value sample_json v)) kvs"
    have "list_all (flat_value \<circ> snd) ?kvs" using flat by (auto simp: list_all_iff)
    from parse_print_members [OF this, of "length (print_members ?kvs)"] length_print_members
    have "parse_members (length (print_members ?kvs)) (print_members ?kvs) = Some ?kvs" by blast
    then show ?thesis by (simp add: sample_json_def flat_object_def)
  qed
  have blank: "\<exists>what. parse_json s = Inl what" if "blank s" for s
    using that by (cases s) (auto simp: blank_def ascii_whitespace_def is_digit_def)
  have items: "set (filter (\<lambda>(k, v). map_of kvs k = Some v) kvs) = set kvs" if "distinct (map fst kvs)"
    for kvs :: "(string \<times> json_value) list"
    using that by auto
  have found: "((k, v) \<in> set items) = (find_member j k = Some v)" if "items_of_value j = Some items" for j items k v
    using that by (cases j) (auto dest: map_of_SomeD)
  have none: "find_member j k = None" if "items_of_value j = None" for j k using that by (cases j) simp_all
  show ?thesis
    unfolding json_laws_def
  proof (intro conjI allI impI)
    fix kvs
    show "js_parse sample_json (js_dump sample_json (flat_object sample_json kvs)) = Inr (flat_object sample_json kvs)"
      by (rule dump)
  next
    fix kvs :: "(string \<times> json_value) list"
    assume "distinct (map fst kvs)"
    then show "\<exists>items. js_items sample_json (js_object sample_json kvs) = Some items \<and> set items = set kvs"
      using items [of kvs] by (simp add: sample_json_def)
  qed (use blank found none in \<open>simp_all add: sample_json_def\<close>)
qed

text \<open>A document is printed on one line.\<close>

lemma escape_one_line: "CHR 0x0A \<notin> set (escape s)"
  by (induction s) auto

lemma digits_one_line: "CHR 0x0A \<notin> set (format_unsigned n)"
  using format_unsigned_digits [of "CHR 0x0A" n] by (auto simp: is_digit_def)

lemma print_value_one_line: "CHR 0x0A \<notin> set (print_value v)"
  by (cases v) (simp_all add: quoted_def escape_one_line digits_one_line)

lemma print_members_one_line: "CHR 0x0A \<notin> set (print_members kvs)"
  by (induction kvs rule: print_members.induct) (simp_all add: quoted_def escape_one_line print_value_one_line)

lemma sample_one_line: "CHR 0x0A \<notin> set (js_dump sample_json v)"
proof -
  have "CHR 0x0A \<notin> set (print_json v)"
    by (cases v rule: print_json.cases)
      (simp_all add: print_members_one_line print_value_one_line quoted_def escape_one_line digits_one_line)
  then show ?thesis by (simp add: sample_json_def)
qed

end
