(* ===== verification/Json_Config.thy ===== *)
theory Json_Config
  imports Json_Sample
begin

text \<open>
  The generic part of \<open>lab/json.hpp\<close>: reading and writing members, objects described by their
  members, values that are optional or have a default, and whole files. A \<open>from_json\<close> is a
  function from a JSON value to a value or the text of the exception it throws; where the code
  reads into an existing object, the function also takes the object.
\<close>

section \<open>The library's interface for configuration\<close>

text \<open>
  \<open>js_parse_file\<close> is \<open>parse\<close> of a stream with the flag that skips comments. Arrays are read with
  \<open>get<std::vector>\<close>, element by element.
\<close>

record 'j config_lib = "'j json_lib" +
  js_bool :: "bool \<Rightarrow> 'j"
  js_get_bool :: "'j \<Rightarrow> string + bool"
  js_array :: "'j list \<Rightarrow> 'j"
  js_elements :: "'j \<Rightarrow> string + 'j list"
  js_is_null :: "'j \<Rightarrow> bool"
  js_parse_file :: "bool \<Rightarrow> string \<Rightarrow> string + 'j"

definition config_laws :: "('j, 'z) config_lib_scheme \<Rightarrow> bool" where
  "config_laws L \<longleftrightarrow> json_laws L \<and>
     (\<forall>b. js_get_bool L (js_bool L b) = Inr b) \<and>
     (\<forall>vs. js_elements L (js_array L vs) = Inr vs) \<and>
     (\<forall>kvs. \<not> js_is_null L (js_object L kvs))"

lemma config_lawsD:
  assumes "config_laws L"
  shows "json_laws L" "js_get_bool L (js_bool L b) = Inr b" "js_elements L (js_array L vs) = Inr vs"
    "\<not> js_is_null L (js_object L kvs)"
  using assms unfolding config_laws_def by blast+

section \<open>Members\<close>

definition read_field ::
  "('j, 'z) json_lib_scheme \<Rightarrow> ('j \<Rightarrow> string + 'a) \<Rightarrow> 'j \<Rightarrow> string \<Rightarrow> string + 'a" where
  "read_field L from_json j key = rbind (js_at L j key) from_json"

text \<open>The overload for \<open>defaulted_field\<close>: an absent member keeps the value the object has.\<close>

definition read_defaulted_field ::
  "('j, 'z) json_lib_scheme \<Rightarrow> ('j \<Rightarrow> string + 'a) \<Rightarrow> 'j \<Rightarrow> string \<Rightarrow> 'a \<Rightarrow> string + 'a" where
  "read_defaulted_field L from_json j key field =
     (case js_find L j key of Some v \<Rightarrow> from_json v | None \<Rightarrow> Inr field)"

text \<open>The overload for \<open>std::optional\<close>, with the serializer that reads null as no value.\<close>

definition optional_from_json ::
  "('j, 'z) config_lib_scheme \<Rightarrow> ('j \<Rightarrow> string + 'a) \<Rightarrow> 'j \<Rightarrow> string + 'a option" where
  "optional_from_json L from_json v =
     (if js_is_null L v then Inr None else rbind (from_json v) (\<lambda>x. Inr (Some x)))"

definition read_optional_field ::
  "('j, 'z) config_lib_scheme \<Rightarrow> ('j \<Rightarrow> string + 'a) \<Rightarrow> 'j \<Rightarrow> string \<Rightarrow> 'a option \<Rightarrow> string + 'a option" where
  "read_optional_field L from_json j key field =
     (case js_find L j key of Some v \<Rightarrow> optional_from_json L from_json v | None \<Rightarrow> Inr field)"

text \<open>\<open>json_object[key] = value\<close>: replaces the member or adds it. Keys are kept sorted by the library; the order is not observable.\<close>

fun write_member :: "string \<Rightarrow> 'j \<Rightarrow> (string \<times> 'j) list \<Rightarrow> (string \<times> 'j) list" where
  "write_member key v [] = [(key, v)]"
| "write_member key v ((k, w) # ms) = (if k = key then (k, v) # ms else (k, w) # write_member key v ms)"

definition write_optional_member :: "string \<Rightarrow> 'j option \<Rightarrow> (string \<times> 'j) list \<Rightarrow> (string \<times> 'j) list" where
  "write_optional_member key field ms = (case field of Some v \<Rightarrow> write_member key v ms | None \<Rightarrow> ms)"

definition read_type :: "('j, 'z) json_lib_scheme \<Rightarrow> 'j \<Rightarrow> string + string" where
  "read_type L j = read_field L (js_get_string L) j ''type''"

section \<open>Described objects\<close>

definition has_described_field :: "string list \<Rightarrow> string \<Rightarrow> bool" where
  "has_described_field members key \<longleftrightarrow> list_ex (\<lambda>m. key = m) members"

definition quoted_name :: "string \<Rightarrow> string" where
  "quoted_name s = [CHR 0x27] @ s @ [CHR 0x27]"

definition reject_unknown_fields :: "('j, 'z) json_lib_scheme \<Rightarrow> string list \<Rightarrow> 'j \<Rightarrow> string + unit" where
  "reject_unknown_fields L members j =
     (case js_items L j of
        None \<Rightarrow> Inl ''expected json object''
      | Some items \<Rightarrow>
          (case find (\<lambda>(key, _). \<not> has_described_field members key) items of
             Some (key, _) \<Rightarrow> Inl (''unknown json field '' @ quoted_name key)
           | None \<Rightarrow> Inr ()))"

text \<open>\<open>read_described_object\<close>: \<open>read_members\<close> reads the members one after the other.\<close>

definition read_described_object ::
  "('j, 'z) json_lib_scheme \<Rightarrow> string list \<Rightarrow> ('j \<Rightarrow> string + 'a) \<Rightarrow> 'j \<Rightarrow> string + 'a" where
  "read_described_object L members read_members j = rbind (reject_unknown_fields L members j) (\<lambda>_. read_members j)"

text \<open>\<open>write_described_object\<close>: the members of an empty object, written in order.\<close>

definition write_described_object :: "('j, 'z) json_lib_scheme \<Rightarrow> (string \<times> 'j) list \<Rightarrow> 'j" where
  "write_described_object L members = js_object L (fold (\<lambda>(k, v). write_member k v) members [])"

section \<open>Values\<close>

fun read_elements :: "('j \<Rightarrow> string + 'a) \<Rightarrow> 'j list \<Rightarrow> string + 'a list" where
  "read_elements from_json [] = Inr []"
| "read_elements from_json (v # vs) =
     rbind (from_json v) (\<lambda>x. rbind (read_elements from_json vs) (\<lambda>xs. Inr (x # xs)))"

definition vector_from_json :: "('j, 'z) config_lib_scheme \<Rightarrow> ('j \<Rightarrow> string + 'a) \<Rightarrow> 'j \<Rightarrow> string + 'a list" where
  "vector_from_json L from_json j = rbind (js_elements L j) (read_elements from_json)"

text \<open>A 16-bit member: the library converts the number it holds without a range check.\<close>

definition get_u16 :: "('j, 'z) json_lib_scheme \<Rightarrow> 'j \<Rightarrow> string + u16" where
  "get_u16 L j = rbind (js_get_unsigned L j) (\<lambda>n. Inr (ucast n))"

section \<open>Texts and files\<close>

definition json_try_parse :: "('j, 'z) json_lib_scheme \<Rightarrow> string \<Rightarrow> 'j result" where
  "json_try_parse L json_text =
     (case js_parse L json_text of
        Inl what \<Rightarrow> invalid_argument (''invalid json: '' @ what)
      | Inr j \<Rightarrow> Inr j)"

definition json_try_cast :: "('j \<Rightarrow> string + 'a) \<Rightarrow> 'j \<Rightarrow> 'a result" where
  "json_try_cast from_json j =
     (case from_json j of
        Inl what \<Rightarrow> invalid_argument (''invalid json value: '' @ what)
      | Inr x \<Rightarrow> Inr x)"

definition json_try_parse_as :: "('j, 'z) json_lib_scheme \<Rightarrow> ('j \<Rightarrow> string + 'a) \<Rightarrow> string \<Rightarrow> 'a result" where
  "json_try_parse_as L from_json json_text = rbind (json_try_parse L json_text) (json_try_cast from_json)"

text \<open>The file system: the contents of each file that can be opened.\<close>

type_synonym files = "string \<Rightarrow> string option"

definition read_from_file ::
  "('j, 'z) config_lib_scheme \<Rightarrow> files \<Rightarrow> ('j \<Rightarrow> string + 'a) \<Rightarrow> string \<Rightarrow> bool \<Rightarrow> 'a result" where
  "read_from_file L fs from_json filename ignore_comments =
     (case fs filename of
        None \<Rightarrow> invalid_argument (''file not found: '' @ filename)
      | Some contents \<Rightarrow>
          (case rbind (js_parse_file L ignore_comments contents) from_json of
             Inl what \<Rightarrow> invalid_argument (''invalid json file '' @ quoted_name filename @ '': '' @ what)
           | Inr x \<Rightarrow> Inr x))"

text \<open>\<open>std::getline\<close>, called until it fails: \<open>line\<close> is what has been read of the current line.\<close>

fun get_lines :: "string \<Rightarrow> string \<Rightarrow> string list" where
  "get_lines line [] = (if line = [] then [] else [line])"
| "get_lines line (c # input) = (if c = CHR 0x0A then line # get_lines [] input else get_lines (line @ [c]) input)"

fun read_jsonl_lines ::
  "('j, 'z) json_lib_scheme \<Rightarrow> ('j \<Rightarrow> string + 'a) \<Rightarrow> string list \<Rightarrow> 'a list \<Rightarrow> 'a list result" where
  "read_jsonl_lines L from_json [] values = Inr values"
| "read_jsonl_lines L from_json (line # lines) values =
     rbind (json_try_parse_as L from_json line) (\<lambda>v. read_jsonl_lines L from_json lines (values @ [v]))"

text \<open>\<open>bad\<close>: the stream reported an error while it was read.\<close>

definition read_jsonl ::
  "('j, 'z) json_lib_scheme \<Rightarrow> files \<Rightarrow> bool \<Rightarrow> ('j \<Rightarrow> string + 'a) \<Rightarrow> string \<Rightarrow> 'a list result" where
  "read_jsonl L fs bad from_json filename =
     (case fs filename of
        None \<Rightarrow> invalid_argument (''file not found: '' @ filename)
      | Some contents \<Rightarrow>
          rbind (read_jsonl_lines L from_json (get_lines [] contents) []) (\<lambda>values.
            if bad then invalid_argument (''failed to read file: '' @ filename) else Inr values))"

section \<open>Facts the configurations share\<close>

lemma write_member_keys: "set (map fst (write_member k v ms)) = insert k (set (map fst ms))"
  by (induction ms rule: write_member.induct) (simp_all add: insert_commute)

lemma write_member_distinct: "distinct (map fst ms) \<Longrightarrow> distinct (map fst (write_member k v ms))"
proof (induction ms)
  case (Cons m ms)
  obtain k' w where m: "m = (k', w)" by (cases m)
  show ?case
  proof (cases "k' = k")
    case True
    with Cons.prems show ?thesis by (simp add: m)
  next
    case False
    then have "k' \<notin> set (map fst (write_member k v ms))"
      using Cons.prems unfolding write_member_keys by (simp add: m)
    with Cons False show ?thesis by (simp add: m)
  qed
qed simp

lemma map_of_write_member: "map_of (write_member k v ms) = (map_of ms)(k \<mapsto> v)"
  by (induction ms) auto

lemma write_new_member: "k \<notin> set (map fst ms) \<Longrightarrow> write_member k v ms = ms @ [(k, v)]"
  by (induction ms) auto

lemma fold_write_members:
  "distinct (map fst ms @ map fst ns) \<Longrightarrow> fold (\<lambda>(k, v). write_member k v) ns ms = ms @ ns"
proof (induction ns arbitrary: ms)
  case (Cons n ns)
  obtain k v where n: "n = (k, v)" by (cases n)
  have w: "write_member k v ms = ms @ [(k, v)]" using Cons.prems by (intro write_new_member) (auto simp: n)
  have "distinct (map fst (ms @ [(k, v)]) @ map fst ns)" using Cons.prems by (auto simp: n)
  from Cons.IH [OF this] show ?case by (simp add: n w)
qed simp

lemma write_described_eq: "distinct (map fst ms) \<Longrightarrow> write_described_object L ms = js_object L ms"
  using fold_write_members [of "[]" ms] by (simp add: write_described_object_def)

lemma read_field_object:
  "config_laws L \<Longrightarrow> distinct (map fst ms) \<Longrightarrow>
   read_field L from_json (js_object L ms) k =
     (case map_of ms k of Some v \<Rightarrow> from_json v | None \<Rightarrow> rbind (js_at L (js_object L ms) k) from_json)"
  by (simp add: read_field_def json_lawsD config_lawsD split: option.split)

lemma find_object:
  "config_laws L \<Longrightarrow> distinct (map fst ms) \<Longrightarrow> js_find L (js_object L ms) k = map_of ms k"
  by (simp add: json_lawsD config_lawsD)

lemma read_defaulted_member:
  "config_laws L \<Longrightarrow> distinct (map fst ms) \<Longrightarrow>
   read_defaulted_field L from_json (js_object L ms) k d = (case map_of ms k of Some v \<Rightarrow> from_json v | None \<Rightarrow> Inr d)"
  by (simp add: read_defaulted_field_def find_object)

lemma read_optional_member:
  "config_laws L \<Longrightarrow> distinct (map fst ms) \<Longrightarrow>
   read_optional_field L from_json (js_object L ms) k d =
     (case map_of ms k of Some v \<Rightarrow> optional_from_json L from_json v | None \<Rightarrow> Inr d)"
  by (simp add: read_optional_field_def find_object)

lemma reject_unknown_object:
  assumes "config_laws L" "distinct (map fst ms)" "set (map fst ms) \<subseteq> set members"
  shows "reject_unknown_fields L members (js_object L ms) = Inr ()"
proof -
  from json_lawsD(11) [OF config_lawsD(1) [OF assms(1)] assms(2)] obtain items where
    items: "js_items L (js_object L ms) = Some items" "set items = set ms" by blast
  have "find (\<lambda>(key, _). \<not> has_described_field members key) items = None"
    using items(2) assms(3) by (force simp: find_None_iff has_described_field_def list_ex_iff)
  with items(1) show ?thesis by (simp add: reject_unknown_fields_def)
qed

lemma reject_unknown_Inr:
  assumes "reject_unknown_fields L members j = Inr u" "json_laws L" "js_find L j k = Some v"
  shows "k \<in> set members"
proof -
  from assms(1) obtain items where items: "js_items L j = Some items"
    "find (\<lambda>(key, _). \<not> has_described_field members key) items = None"
    by (auto simp: reject_unknown_fields_def split: option.splits)
  from json_lawsD(12) [OF assms(2) items(1)] assms(3) have "(k, v) \<in> set items" by blast
  with items(2) show ?thesis by (auto simp: find_None_iff has_described_field_def list_ex_iff)
qed

lemma read_described_object_eq:
  assumes "config_laws L" "distinct (map fst ms)" "set (map fst ms) \<subseteq> set members"
  shows "read_described_object L members f (js_object L ms) = f (js_object L ms)"
  using reject_unknown_object [OF assms] by (simp add: read_described_object_def)

lemma read_elements_map:
  "(\<And>x. x \<in> set xs \<Longrightarrow> from_json (to_json x) = Inr x) \<Longrightarrow> read_elements from_json (map to_json xs) = Inr xs"
  by (induction xs) auto

lemma vector_round_trip:
  "config_laws L \<Longrightarrow> (\<And>x. x \<in> set xs \<Longrightarrow> from_json (to_json x) = Inr x) \<Longrightarrow>
   vector_from_json L from_json (js_array L (map to_json xs)) = Inr xs"
  by (simp add: vector_from_json_def config_lawsD read_elements_map)

lemma optional_object:
  "config_laws L \<Longrightarrow> optional_from_json L from_json (js_object L ms) = rbind (from_json (js_object L ms)) (\<lambda>x. Inr (Some x))"
  by (simp add: optional_from_json_def config_lawsD)

text \<open>A 16-bit value survives being written as the number it is.\<close>

lemma u16_of_u64: "(ucast (ucast (p :: u16) :: u64) :: u16) = p"
  by (rule bit_word_eqI) (simp add: bit_simps)

lemma get_u16_number: "config_laws L \<Longrightarrow> get_u16 L (js_number L (ucast p)) = Inr p"
  by (simp add: get_u16_def json_lawsD config_lawsD u16_of_u64)

lemma read_type_object:
  "config_laws L \<Longrightarrow> distinct (map fst ms) \<Longrightarrow> map_of ms ''type'' = Some (js_string L s) \<Longrightarrow> read_type L (js_object L ms) = Inr s"
  by (simp add: read_type_def read_field_object json_lawsD config_lawsD)

lemmas config_read = read_field_object read_defaulted_member read_optional_member read_described_object_eq
  write_described_eq read_type_object optional_object get_u16_number

lemmas config_values = json_lawsD(5,7,10) [OF config_lawsD(1)] config_lawsD(2,3)

section \<open>The sample library\<close>

fun bool_of_value :: "json_value \<Rightarrow> string + bool" where
  "bool_of_value (V_Bool b) = Inr b"
| "bool_of_value _ = Inl ''type must be boolean''"

fun elements_of_value :: "json_value \<Rightarrow> string + json_value list" where
  "elements_of_value (V_Array vs) = Inr vs"
| "elements_of_value _ = Inl ''type must be array''"

fun is_null_value :: "json_value \<Rightarrow> bool" where
  "is_null_value V_Null = True"
| "is_null_value _ = False"

definition sample_config_lib :: "json_value config_lib" where
  "sample_config_lib = json_lib.extend sample_json
     \<lparr>js_bool = V_Bool, js_get_bool = bool_of_value, js_array = V_Array, js_elements = elements_of_value,
      js_is_null = is_null_value, js_parse_file = (\<lambda>_. parse_json)\<rparr>"

lemma field_value_fields:
  "js_null L = js_null K \<Longrightarrow> js_string L = js_string K \<Longrightarrow> js_number L = js_number K \<Longrightarrow> field_value L = field_value K"
proof
  fix f
  assume "js_null L = js_null K" "js_string L = js_string K" "js_number L = js_number K"
  then show "field_value L f = field_value K f" by (cases f) simp_all
qed

lemma json_laws_truncate: "json_laws (json_lib.truncate L) = json_laws L"
proof -
  have v: "field_value (json_lib.truncate L) = field_value L"
    by (rule field_value_fields) (simp_all add: json_lib.truncate_def)
  show ?thesis unfolding json_laws_def flat_object_def v by (simp add: json_lib.truncate_def)
qed

lemma sample_config_laws: "config_laws sample_config_lib"
proof -
  have t: "json_lib.truncate sample_config_lib = sample_json"
    by (simp add: sample_config_lib_def json_lib.defs)
  have o: "js_object sample_config_lib = V_Object" by (simp add: sample_config_lib_def sample_json_def json_lib.defs)
  have "json_laws sample_config_lib"
    using sample_json_laws unfolding t [symmetric] json_laws_truncate .
  then show ?thesis
    unfolding config_laws_def o by (simp add: sample_config_lib_def json_lib.defs)
qed

end
