(* ===== verification/Event_Loop.thy ===== *)
theory Event_Loop
  imports Errors
begin

text \<open>
  \<open>lab::event_loop\<close> (\<open>lab/event_loop.hpp\<close>): one consumer thread runs posted tasks in order and a list
  of pollers. The thread's program counter is a phase; other threads post tasks and clear the
  running flag between any two of its steps. A task is an opaque value; what it does is the
  business of the theories that use the loop. The queue is the library's FIFO.
\<close>

section \<open>Configuration\<close>

datatype idle_strategy = Timed_Wait int | Busy_Spin

record event_loop_config =
  elc_thread_name :: string
  elc_queue_capacity :: u64
  elc_idle_strategy :: idle_strategy

definition default_loop_config :: event_loop_config where
  "default_loop_config = \<lparr>elc_thread_name = [], elc_queue_capacity = 1024, elc_idle_strategy = Timed_Wait 1000\<rparr>"

text \<open>The name given to the thread, if any: the kernel keeps fifteen bytes.\<close>

definition thread_name_set :: "string \<Rightarrow> string option" where
  "thread_name_set name = (if name = [] then None else Some (take 15 name))"

section \<open>State\<close>

datatype phase =
    Not_Started
  | Head
  | Tasks
  | Polling nat
  | Waiting
  | Drain
  | Finished

record 't event_loop =
  el_running :: bool
  el_phase :: phase
  el_did_work :: bool
  el_queue :: "'t list"
  el_posted :: "'t list"
  el_executed :: "'t list"

definition event_loop_init :: "'t event_loop" where
  "event_loop_init =
     \<lparr>el_running = False, el_phase = Not_Started, el_did_work = False, el_queue = [], el_posted = [], el_executed = []\<rparr>"

section \<open>Calls of other threads\<close>

text \<open>\<open>start\<close>: \<open>thread_failure\<close> is the text of the exception thrown when no thread can be created.\<close>

definition loop_start :: "string option \<Rightarrow> 't event_loop \<Rightarrow> unit result \<times> 't event_loop" where
  "loop_start thread_failure st =
     (if el_running st
      then (make_leaf_error (Lab_Code Code_Already_In_Progress) ''event loop already running'', st)
      else (case thread_failure of
              Some what \<Rightarrow> (make_leaf_error (Lab_Code Code_Generic_Error) what, st)
            | None \<Rightarrow> (Inr (), st\<lparr>el_running := True, el_phase := Head\<rparr>)))"

definition loop_post :: "'t \<Rightarrow> 't event_loop \<Rightarrow> 't event_loop" where
  "loop_post task st = st\<lparr>el_queue := el_queue st @ [task], el_posted := el_posted st @ [task]\<rparr>"

definition loop_stop :: "'t event_loop \<Rightarrow> 't event_loop" where
  "loop_stop st = st\<lparr>el_running := False\<rparr>"

definition loop_is_running :: "'t event_loop \<Rightarrow> bool" where
  "loop_is_running st \<longleftrightarrow> el_running st"

text \<open>\<open>join\<close> returns at once if there is no thread and otherwise when it has finished; \<open>None\<close>: it waits.\<close>

definition loop_join :: "'t event_loop \<Rightarrow> 't event_loop option" where
  "loop_join st = (if el_phase st \<in> {Not_Started, Finished} then Some st else None)"

definition loop_destroy :: "'t event_loop \<Rightarrow> 't event_loop option" where
  "loop_destroy st = loop_join (loop_stop st)"

section \<open>Steps of the loop's thread\<close>

definition run_task :: "'t \<Rightarrow> 't list \<Rightarrow> 't event_loop \<Rightarrow> 't event_loop" where
  "run_task task rest st = st\<lparr>el_queue := rest, el_executed := el_executed st @ [task]\<rparr>"

inductive thread_step :: "idle_strategy \<Rightarrow> nat \<Rightarrow> 't event_loop \<Rightarrow> 't event_loop \<Rightarrow> bool"
  for idle :: idle_strategy and pollers :: nat where
  enter: "el_phase st = Head \<Longrightarrow> el_running st \<Longrightarrow>
    thread_step idle pollers st (st\<lparr>el_phase := Tasks, el_did_work := False\<rparr>)"
| leave: "el_phase st = Head \<Longrightarrow> \<not> el_running st \<Longrightarrow> thread_step idle pollers st (st\<lparr>el_phase := Drain\<rparr>)"
| task: "el_phase st = Tasks \<Longrightarrow> el_queue st = t # rest \<Longrightarrow>
    thread_step idle pollers st ((run_task t rest st)\<lparr>el_did_work := True\<rparr>)"
| no_task: "el_phase st = Tasks \<Longrightarrow> el_queue st = [] \<Longrightarrow> thread_step idle pollers st (st\<lparr>el_phase := Polling 0\<rparr>)"
| poll: "el_phase st = Polling i \<Longrightarrow> i < pollers \<Longrightarrow>
    thread_step idle pollers st (st\<lparr>el_phase := Polling (Suc i), el_did_work := (worked \<or> el_did_work st)\<rparr>)"
| again: "el_phase st = Polling i \<Longrightarrow> i \<ge> pollers \<Longrightarrow> idle = Busy_Spin \<or> el_did_work st \<Longrightarrow>
    thread_step idle pollers st (st\<lparr>el_phase := Head\<rparr>)"
| idle_wait: "el_phase st = Polling i \<Longrightarrow> i \<ge> pollers \<Longrightarrow> idle = Timed_Wait d \<Longrightarrow> \<not> el_did_work st \<Longrightarrow>
    thread_step idle pollers st (st\<lparr>el_phase := Waiting\<rparr>)"
| woken: "el_phase st = Waiting \<Longrightarrow> el_queue st = t # rest \<Longrightarrow>
    thread_step idle pollers st ((run_task t rest st)\<lparr>el_phase := Head\<rparr>)"
| timed_out: "el_phase st = Waiting \<Longrightarrow> thread_step idle pollers st (st\<lparr>el_phase := Head\<rparr>)"
| drain_task: "el_phase st = Drain \<Longrightarrow> el_queue st = t # rest \<Longrightarrow> thread_step idle pollers st (run_task t rest st)"
| finish: "el_phase st = Drain \<Longrightarrow> el_queue st = [] \<Longrightarrow> thread_step idle pollers st (st\<lparr>el_phase := Finished\<rparr>)"

inductive_cases thread_step_cases: "thread_step idle pollers st st'"

text \<open>
  All steps: the thread's own, and the calls of others, posting and stopping at any time. \<open>start\<close> raises the
  flag and then creates the thread, and other steps may come between; of the threads that
  call it one is inside at a time (it writes \<open>thread_\<close> without a lock). It asks only whether the flag is
  down. If the thread of the last run has not finished then, the new thread already runs before
  the assignment to \<open>thread_\<close> joins the old one, and two threads consume the single-consumer queue: from there
  on nothing is modelled. \<open>Single starting st\<close> has at most one thread, \<open>Doubled old st\<close> has the
  new thread of \<open>st\<close> beside one at the phase \<open>old\<close>.
\<close>

datatype 't loop_world = Single bool "'t event_loop" | Doubled phase "'t event_loop"

fun loop_of :: "'t loop_world \<Rightarrow> 't event_loop" where
  "loop_of (Single starting st) = st"
| "loop_of (Doubled old st) = st"

inductive loop_step :: "idle_strategy \<Rightarrow> nat \<Rightarrow> 't loop_world \<Rightarrow> 't loop_world \<Rightarrow> bool"
  for idle :: idle_strategy and pollers :: nat where
  thread: "thread_step idle pollers st st' \<Longrightarrow> loop_step idle pollers (Single c st) (Single c st')"
| post: "loop_step idle pollers (Single c st) (Single c (loop_post t st))"
| stop: "loop_step idle pollers (Single c st) (Single c (loop_stop st))"
| start_refused: "el_running st \<Longrightarrow> loop_step idle pollers (Single c st) (Single c st)"
| start_called: "\<not> el_running st \<Longrightarrow> loop_step idle pollers (Single False st) (Single True (st\<lparr>el_running := True\<rparr>))"
| start_failed: "loop_step idle pollers (Single True st) (Single False (st\<lparr>el_running := False\<rparr>))"
| thread_created: "el_phase st \<in> {Not_Started, Finished} \<Longrightarrow>
    loop_step idle pollers (Single True st) (Single False (st\<lparr>el_phase := Head\<rparr>))"
| thread_replaced: "el_phase st \<notin> {Not_Started, Finished} \<Longrightarrow>
    loop_step idle pollers (Single True st) (Doubled (el_phase st) (st\<lparr>el_phase := Head\<rparr>))"

inductive loop_run :: "idle_strategy \<Rightarrow> nat \<Rightarrow> 't loop_world \<Rightarrow> 't loop_world \<Rightarrow> bool"
  for idle :: idle_strategy and pollers :: nat where
  loop_refl: "loop_run idle pollers w w"
| loop_step: "loop_run idle pollers w w' \<Longrightarrow> loop_step idle pollers w' w'' \<Longrightarrow> loop_run idle pollers w w''"

abbreviation new_loop :: "'t loop_world" where
  "new_loop \<equiv> Single False event_loop_init"

text \<open>A call of \<open>start\<close> that nothing interrupts.\<close>

lemma start_in_steps:
  assumes "el_phase st \<in> {Not_Started, Finished}"
  shows "loop_run idle pollers (Single False st) (Single False (snd (loop_start failure st)))"
proof (cases "el_running st")
  case True
  with loop_step [OF loop_refl start_refused [OF True]] show ?thesis by (simp add: loop_start_def)
next
  case False
  note raised = loop_step [OF loop_refl start_called [OF False], of idle pollers]
  show ?thesis
  proof (cases failure)
    case None
    have "el_phase (st\<lparr>el_running := True\<rparr>) \<in> {Not_Started, Finished}" using assms by simp
    from loop_step [OF raised thread_created [OF this]] False None show ?thesis by (simp add: loop_start_def)
  next
    case (Some what)
    from False have "st\<lparr>el_running := True\<rparr>\<lparr>el_running := False\<rparr> = st" by (cases st) simp
    with loop_step [OF raised start_failed] False Some show ?thesis by (simp add: loop_start_def)
  qed
qed

text \<open>
  A caller that joins before it starts again never has two threads; one that only stops can.
\<close>

lemma restart_after_join:
  assumes "loop_join st = Some st" "loop_step idle pollers (Single True st) w"
  shows "\<exists>c st'. w = Single c st' \<and> (el_phase st' = el_phase st \<or> el_phase st' = Head)"
proof -
  from assms(1) have no_thread: "el_phase st \<in> {Not_Started, Finished}" by (auto simp: loop_join_def split: if_splits)
  then have "\<not> thread_step idle pollers st st'" for st' by (auto elim: thread_step.cases)
  with no_thread assms(2) show ?thesis by (auto elim!: loop_step.cases simp: loop_post_def loop_stop_def)
qed

lemma restart_without_join:
  "\<exists>st :: 't event_loop. loop_run idle pollers new_loop (Doubled Head st)"
proof -
  let ?s1 = "event_loop_init\<lparr>el_running := True\<rparr> :: 't event_loop"
  let ?s2 = "?s1\<lparr>el_phase := Head\<rparr>"
  let ?s3 = "(loop_stop ?s2)\<lparr>el_running := True\<rparr>"
  note defs = event_loop_init_def loop_stop_def
  have "loop_run idle pollers new_loop (Single True ?s1)" by (rule loop_step [OF loop_refl start_called]) (simp add: defs)
  then have "loop_run idle pollers new_loop (Single False ?s2)" by (rule loop_step [OF _ thread_created]) (simp add: defs)
  then have "loop_run idle pollers new_loop (Single False (loop_stop ?s2))" by (rule loop_step [OF _ stop])
  then have "loop_run idle pollers new_loop (Single True ?s3)" by (rule loop_step [OF _ start_called]) (simp add: defs)
  then have "loop_run idle pollers new_loop (Doubled (el_phase ?s3) (?s3\<lparr>el_phase := Head\<rparr>))"
    by (rule loop_step [OF _ thread_replaced [of ?s3]]) (simp add: defs)
  moreover have "el_phase ?s3 = Head" by (simp add: defs)
  ultimately show ?thesis by (simp only:) blast
qed

section \<open>Order of execution\<close>

definition loop_ok :: "'t event_loop \<Rightarrow> bool" where
  "loop_ok st \<longleftrightarrow> el_posted st = el_executed st @ el_queue st \<and> (el_phase st = Not_Started \<longrightarrow> el_executed st = [])"

lemma thread_step_ok:
  assumes "thread_step idle pollers st st'" "loop_ok st"
  shows "loop_ok st' \<and> el_posted st' = el_posted st \<and> el_running st' = el_running st"
  using assms by (cases rule: thread_step.cases) (auto simp: loop_ok_def run_task_def)

lemma loop_step_ok:
  assumes "loop_step idle pollers w w'" "loop_ok (loop_of w)"
  shows "loop_ok (loop_of w')"
  using assms(1)
proof cases
  case thread
  with assms(2) thread_step_ok show ?thesis by auto
qed (use assms(2) in \<open>auto simp: loop_ok_def loop_post_def loop_stop_def\<close>)

lemma loop_run_ok: "loop_run idle pollers w w' \<Longrightarrow> loop_ok (loop_of w) \<Longrightarrow> loop_ok (loop_of w')"
  by (induction rule: loop_run.induct) (auto intro: loop_step_ok)

lemma loop_init_ok: "loop_ok event_loop_init"
  by (simp add: loop_ok_def event_loop_init_def)

lemma doubled_while_live:
  assumes "loop_run idle pollers w0 w" "w = Doubled old st" "w0 = new_loop"
  shows "old \<notin> {Not_Started, Finished}"
  using assms
proof (induction rule: loop_run.induct)
  case (loop_step w w' w'')
  from loop_step.hyps(2) loop_step.prems(1) show ?case by (cases rule: loop_step.cases) auto
qed simp



section \<open>Shutting down\<close>

text \<open>How far the thread is from finishing once the running flag is cleared.\<close>

fun phase_rank :: "nat \<Rightarrow> phase \<Rightarrow> nat" where
  "phase_rank pollers Tasks = pollers + 6"
| "phase_rank pollers (Polling i) = 5 + (pollers - i)"
| "phase_rank pollers Waiting = 4"
| "phase_rank pollers Head = 3"
| "phase_rank pollers Drain = 2"
| "phase_rank pollers Finished = 1"
| "phase_rank pollers Not_Started = 0"

definition remaining_steps :: "nat \<Rightarrow> 't event_loop \<Rightarrow> nat" where
  "remaining_steps pollers st = length (el_queue st) + phase_rank pollers (el_phase st)"

lemma stopped_step_decreases:
  assumes "thread_step idle pollers st st'" "\<not> el_running st"
  shows "remaining_steps pollers st' < remaining_steps pollers st"
  using assms by (cases rule: thread_step.cases) (auto simp: remaining_steps_def run_task_def)

lemma thread_can_step:
  assumes "el_phase st \<notin> {Not_Started, Finished}"
  shows "\<exists>st'. thread_step idle pollers st st'"
proof (cases "el_phase st")
  case Head
  show ?thesis
  proof (cases "el_running st")
    case True
    from enter [OF Head True] show ?thesis by (rule exI)
  next
    case False
    from leave [OF Head False] show ?thesis by (rule exI)
  qed
next
  case Tasks
  show ?thesis
  proof (cases "el_queue st")
    case Nil
    from no_task [OF Tasks Nil] show ?thesis by (rule exI)
  next
    case (Cons t rest)
    from task [OF Tasks Cons] show ?thesis by (rule exI)
  qed
next
  case (Polling i)
  consider "i < pollers" | "i \<ge> pollers" "idle = Busy_Spin \<or> el_did_work st"
    | d where "i \<ge> pollers" "idle = Timed_Wait d" "\<not> el_did_work st"
    by (cases idle; cases "i < pollers"; cases "el_did_work st"; simp add: not_less)
  then show ?thesis
  proof cases
    case 1
    from poll [OF Polling 1] show ?thesis by (rule exI)
  next
    case 2
    from again [OF Polling 2] show ?thesis by (rule exI)
  next
    case 3
    from idle_wait [OF Polling 3] show ?thesis by (rule exI)
  qed
next
  case Waiting
  from timed_out [OF Waiting] show ?thesis by (rule exI)
next
  case Drain
  show ?thesis
  proof (cases "el_queue st")
    case Nil
    from finish [OF Drain Nil] show ?thesis by (rule exI)
  next
    case (Cons t rest)
    from drain_task [OF Drain Cons] show ?thesis by (rule exI)
  qed
qed (use assms in simp_all)

inductive thread_steps :: "idle_strategy \<Rightarrow> nat \<Rightarrow> nat \<Rightarrow> 't event_loop \<Rightarrow> 't event_loop \<Rightarrow> bool"
  for idle :: idle_strategy and pollers :: nat where
  no_steps: "thread_steps idle pollers 0 st st"
| more_steps: "thread_step idle pollers st st' \<Longrightarrow> thread_steps idle pollers n st' st'' \<Longrightarrow>
    thread_steps idle pollers (Suc n) st st''"

lemma thread_steps_bound:
  "thread_steps idle pollers n st st' \<Longrightarrow> \<not> el_running st \<Longrightarrow> loop_ok st \<Longrightarrow>
   n + remaining_steps pollers st' \<le> remaining_steps pollers st \<and> loop_ok st' \<and> el_posted st' = el_posted st \<and>
   \<not> el_running st'"
proof (induction rule: thread_steps.induct)
  case (more_steps st st' n st'')
  from thread_step_ok [OF more_steps.hyps(1) more_steps.prems(2)] stopped_step_decreases [OF more_steps.hyps(1) more_steps.prems(1)]
    more_steps.IH more_steps.prems show ?case by auto
qed simp

lemma thread_step_phase:
  assumes "thread_step idle pollers st st'" "loop_ok st"
  shows "el_phase st' \<noteq> Not_Started \<and> (el_phase st' = Finished \<longrightarrow> el_queue st' = [])"
  using assms by (cases rule: thread_step.cases) (auto simp: run_task_def)

text \<open>
  C22: Once \<open>stop\<close> has been called and nothing more is posted or started, the thread finishes within a number of
  its own steps bounded by the tasks left and the pollers: it is never stuck before, it cannot run
  longer, and when it finishes every task that was posted has been executed, in order.
\<close>
theorem stopped_loop_drains:
  assumes "loop_run idle pollers new_loop (Single starting st0)" "st = loop_stop st0"
    and "thread_steps idle pollers n st st'" "el_phase st' \<notin> {Not_Started}"
  shows "n \<le> length (el_queue st) + pollers + 6 \<and>
    (el_phase st' \<noteq> Finished \<longrightarrow> (\<exists>st''. thread_step idle pollers st' st'')) \<and>
    (el_phase st' = Finished \<and> 0 < n \<longrightarrow> el_executed st' = el_posted st0)"
proof -
  have ok: "loop_ok st" "\<not> el_running st" "el_posted st = el_posted st0"
    using loop_run_ok [OF assms(1)] loop_init_ok assms(2) by (simp_all add: loop_ok_def loop_stop_def)
  note bound = thread_steps_bound [OF assms(3) ok(2,1)]
  have "remaining_steps pollers st \<le> length (el_queue st) + pollers + 6"
    by (cases "el_phase st") (simp_all add: remaining_steps_def)
  with bound have "n \<le> length (el_queue st) + pollers + 6" by linarith
  moreover have "el_phase st' \<noteq> Finished \<longrightarrow> (\<exists>st''. thread_step idle pollers st' st'')"
    using thread_can_step [of st' idle pollers] assms(4) by blast
  moreover have "el_queue st' = []" if "el_phase st' = Finished" "0 < n"
  proof -
    have "thread_steps idle pollers n st st' \<Longrightarrow> loop_ok st \<Longrightarrow> 0 < n \<Longrightarrow> el_phase st' = Finished \<Longrightarrow> el_queue st' = []" for n st st'
    proof (induction rule: thread_steps.induct)
      case (more_steps st st1 n st2)
      show ?case
      proof (cases n)
        case 0
        with more_steps.hyps(2) have "st2 = st1" by (auto elim: thread_steps.cases)
        with thread_step_phase [OF more_steps.hyps(1) more_steps.prems(1)] more_steps.prems(3) show ?thesis by blast
      next
        case (Suc k)
        with more_steps.IH thread_step_ok [OF more_steps.hyps(1) more_steps.prems(1)] more_steps.prems(3) show ?thesis by blast
      qed
    qed simp
    from this [OF assms(3) ok(1) that(2,1)] show ?thesis .
  qed
  ultimately show ?thesis using bound ok(3) by (auto simp: loop_ok_def)
qed

lemma stopped_loop_drains_witness:
  "\<exists>st'. thread_steps Busy_Spin 0 3 (loop_stop (snd (loop_start None (loop_post ''a'' event_loop_init)))) st' \<and>
     el_executed st' = [''a'']"
proof -
  let ?s0 = "snd (loop_start None (loop_post ''a'' event_loop_init))"
  let ?s1 = "loop_stop ?s0"
  let ?s2 = "?s1\<lparr>el_phase := Drain\<rparr>"
  let ?s3 = "run_task ''a'' [] ?s2"
  let ?s4 = "?s3\<lparr>el_phase := Finished\<rparr>"
  note defs = event_loop_init_def loop_post_def loop_start_def run_task_def loop_stop_def
  have "thread_step Busy_Spin 0 ?s1 ?s2" by (rule leave) (simp_all add: defs)
  moreover have "thread_step Busy_Spin 0 ?s2 ?s3" by (rule drain_task) (simp_all add: defs)
  moreover have "thread_step Busy_Spin 0 ?s3 ?s4" by (rule finish) (simp_all add: defs)
  ultimately have steps: "thread_steps Busy_Spin 0 3 ?s1 ?s4"
    by (auto simp: numeral_3_eq_3 intro!: more_steps no_steps)
  have posted: "loop_run Busy_Spin 0 new_loop (Single False (loop_post ''a'' event_loop_init))"
    by (rule loop_step [OF loop_refl post])
  have raised: "\<not> el_running (loop_post ''a'' event_loop_init)" by (simp add: defs)
  have "?s0 = (loop_post ''a'' event_loop_init)\<lparr>el_running := True\<rparr>\<lparr>el_phase := Head\<rparr>" by (simp add: defs)
  moreover have "loop_run Busy_Spin 0 new_loop
      (Single False ((loop_post ''a'' event_loop_init)\<lparr>el_running := True\<rparr>\<lparr>el_phase := Head\<rparr>))"
    by (rule loop_step [OF loop_step [OF posted start_called [OF raised]] thread_created]) (simp add: defs)
  ultimately have run: "loop_run Busy_Spin 0 new_loop (Single False ?s0)" by (simp only:)
  have p: "el_phase ?s4 \<notin> {Not_Started}" by (simp add: defs)
  have "el_phase ?s4 = Finished" "el_posted ?s0 = [''a'']" by (simp_all add: defs)
  with stopped_loop_drains [OF run refl steps p] have "el_executed ?s4 = [''a'']" by (simp only:) simp
  with steps show ?thesis by blast
qed

end
