(* ===== verification/Order_Book.thy ===== *)
theory Order_Book
  imports Order_Entry
begin

text \<open>
  The per-symbol order book (\<open>matching_engine/order_state.hpp\<close>, \<open>order_node.hpp\<close>,
  \<open>order_book.hpp\<close>).

  Resting orders live in nodes of an engine-wide pool; the book only links them. A node
  pointer is an address, and the node store maps the addresses handed out by the pool to the
  order data in the node. Reading an address that is not handed out is the fault
  \<open>Dangling_Pointer\<close>, a failed \<open>LAB_ASSERT\<close> the fault \<open>Assert_Failed\<close>, so a theorem that an
  operation returns \<open>Inr\<close> is a theorem of memory safety.

  A side of the book is an ordered map from price to price level. The class is a template
  over the map (\<open>std::map\<close> or \<open>flat_map\<close>), so the model is what both promise: the
  entries in the order of the comparator, \<open>std::greater\<close> for bids and \<open>std::less\<close> for asks.
\<close>

section \<open>Data\<close>

datatype fault = Assert_Failed | Dangling_Pointer | Bad_Alloc

record order_state =
  os_client_id :: client_id
  os_cl_ord_id :: cl_ord_id
  os_security_id :: security_id
  os_symbol :: symbol
  os_security_exchange :: security_exchange
  os_side :: side
  os_ord_type :: ord_type
  os_time_in_force :: time_in_force
  os_price :: price
  os_order_qty :: quantity
  os_leaves_qty :: quantity

type_synonym addr = nat

record node_store =
  heap :: "addr \<rightharpoonup> order_state"

record price_level =
  lv_orders :: "addr list"
  lv_total_remaining :: quantity

record level_snapshot =
  ls_price :: price
  ls_total_quantity :: quantity

type_synonym side_map = "(price \<times> price_level) list"

record order_book =
  bids :: side_map
  asks :: side_map

definition empty_level :: price_level where
  "empty_level = \<lparr>lv_orders = [], lv_total_remaining = 0\<rparr>"

definition empty_book :: order_book where
  "empty_book = \<lparr>bids = [], asks = []\<rparr>"

section \<open>The ordered map\<close>

text \<open>The comparator of a side's map: \<open>before s p q\<close> if \<open>p\<close> is iterated before \<open>q\<close>.\<close>

fun before :: "side \<Rightarrow> price \<Rightarrow> price \<Rightarrow> bool" where
  "before Buy p q = (q < p)"
| "before Sell p q = (p < q)"

text \<open>
  \<open>m[k]\<close> followed by an update \<open>f\<close> of the entry: a missing entry is first inserted, default
  constructed, at its place in the order. Keys are compared with the comparator only.
\<close>

fun sm_at :: "(price \<Rightarrow> price \<Rightarrow> bool) \<Rightarrow> price \<Rightarrow> (price_level \<Rightarrow> price_level) \<Rightarrow> side_map \<Rightarrow> side_map" where
  "sm_at lt k f [] = [(k, f empty_level)]"
| "sm_at lt k f ((p, l) # m) =
     (if lt p k then (p, l) # sm_at lt k f m
      else if lt k p then (k, f empty_level) # (p, l) # m
      else (p, f l) # m)"

fun sm_find :: "(price \<Rightarrow> price \<Rightarrow> bool) \<Rightarrow> price \<Rightarrow> side_map \<Rightarrow> price_level option" where
  "sm_find lt k [] = None"
| "sm_find lt k ((p, l) # m) =
     (if lt p k then sm_find lt k m else if lt k p then None else Some l)"

fun sm_erase :: "(price \<Rightarrow> price \<Rightarrow> bool) \<Rightarrow> price \<Rightarrow> side_map \<Rightarrow> side_map" where
  "sm_erase lt k [] = []"
| "sm_erase lt k ((p, l) # m) =
     (if lt p k then (p, l) # sm_erase lt k m else if lt k p then (p, l) # m else m)"

section \<open>Operations of the book\<close>

definition place_into ::
  "(price \<Rightarrow> price \<Rightarrow> bool) \<Rightarrow> addr \<Rightarrow> order_state \<Rightarrow> side_map \<Rightarrow> side_map" where
  "place_into lt node data side_map =
     sm_at lt (os_price data)
       (\<lambda>level. level\<lparr>lv_orders := lv_orders level @ [node],
                     lv_total_remaining := lv_total_remaining level + os_leaves_qty data\<rparr>)
       side_map"

definition place :: "'a node_store_scheme \<Rightarrow> addr \<Rightarrow> order_book \<Rightarrow> fault + order_book" where
  "place st node b =
     (case heap st node of
        None \<Rightarrow> Inl Dangling_Pointer
      | Some data \<Rightarrow>
          (case os_side data of
             Buy \<Rightarrow> Inr (b\<lparr>bids := place_into (before Buy) node data (bids b)\<rparr>)
           | Sell \<Rightarrow> Inr (b\<lparr>asks := place_into (before Sell) node data (asks b)\<rparr>)))"

text \<open>
  \<open>cancel_from\<close> asserts that the node's level exists. Unlinking a node that is not in that
  level would follow hooks into another list: the fault \<open>Dangling_Pointer\<close>.
\<close>

definition cancel_from ::
  "(price \<Rightarrow> price \<Rightarrow> bool) \<Rightarrow> addr \<Rightarrow> order_state \<Rightarrow> side_map \<Rightarrow> fault + side_map" where
  "cancel_from lt node data side_map =
     (case sm_find lt (os_price data) side_map of
        None \<Rightarrow> Inl Assert_Failed
      | Some level \<Rightarrow>
          (if node \<notin> set (lv_orders level) then Inl Dangling_Pointer
           else
             (let level' = level\<lparr>lv_total_remaining := lv_total_remaining level - os_leaves_qty data,
                                lv_orders := remove1 node (lv_orders level)\<rparr>
              in if lv_orders level' = [] then Inr (sm_erase lt (os_price data) side_map)
                 else Inr (sm_at lt (os_price data) (\<lambda>_. level') side_map))))"

definition cancel :: "'a node_store_scheme \<Rightarrow> addr \<Rightarrow> order_book \<Rightarrow> fault + order_book" where
  "cancel st node b =
     (case heap st node of
        None \<Rightarrow> Inl Dangling_Pointer
      | Some data \<Rightarrow>
          (case os_side data of
             Buy \<Rightarrow> rbind (cancel_from (before Buy) node data (bids b)) (\<lambda>m. Inr (b\<lparr>bids := m\<rparr>))
           | Sell \<Rightarrow> rbind (cancel_from (before Sell) node data (asks b)) (\<lambda>m. Inr (b\<lparr>asks := m\<rparr>))))"

definition best_price :: "side_map \<Rightarrow> price option" where
  "best_price m = (case m of [] \<Rightarrow> None | (p, l) # _ \<Rightarrow> Some p)"

definition total_at_best :: "side_map \<Rightarrow> quantity option" where
  "total_at_best m = (case m of [] \<Rightarrow> None | (p, l) # _ \<Rightarrow> Some (lv_total_remaining l))"

definition best_level_of :: "side_map \<Rightarrow> level_snapshot option" where
  "best_level_of m =
     (case m of [] \<Rightarrow> None
      | (p, l) # _ \<Rightarrow> Some \<lparr>ls_price = p, ls_total_quantity = lv_total_remaining l\<rparr>)"

definition best_bid :: "order_book \<Rightarrow> price option" where
  "best_bid b = best_price (bids b)"

definition best_ask :: "order_book \<Rightarrow> price option" where
  "best_ask b = best_price (asks b)"

definition total_at_best_bid :: "order_book \<Rightarrow> quantity option" where
  "total_at_best_bid b = total_at_best (bids b)"

definition total_at_best_ask :: "order_book \<Rightarrow> quantity option" where
  "total_at_best_ask b = total_at_best (asks b)"

definition best :: "side \<Rightarrow> order_book \<Rightarrow> price option" where
  "best s b = (if s = Buy then best_bid b else best_ask b)"

definition best_level :: "side \<Rightarrow> order_book \<Rightarrow> level_snapshot option" where
  "best_level s b = (if s = Buy then best_level_of (bids b) else best_level_of (asks b))"

text \<open>The two maps by side, to state lemmas once for both.\<close>

fun side_of :: "side \<Rightarrow> order_book \<Rightarrow> side_map" where
  "side_of Buy b = bids b"
| "side_of Sell b = asks b"

fun with_side :: "side \<Rightarrow> side_map \<Rightarrow> order_book \<Rightarrow> order_book" where
  "with_side Buy m b = b\<lparr>bids := m\<rparr>"
| "with_side Sell m b = b\<lparr>asks := m\<rparr>"

lemma side_of_with_side:
  "side_of s (with_side s' m b) = (if s = s' then m else side_of s b)"
  by (cases s; cases s') simp_all

lemma with_side_self [simp]: "with_side s (side_of s b) b = b"
  by (cases s) simp_all

lemma place_by_side:
  "heap st n = Some d \<Longrightarrow>
   place st n b = Inr (with_side (os_side d) (place_into (before (os_side d)) n d (side_of (os_side d) b)) b)"
  by (simp add: place_def split: side.splits)

lemma cancel_by_side:
  "heap st n = Some d \<Longrightarrow>
   cancel st n b = rbind (cancel_from (before (os_side d)) n d (side_of (os_side d) b))
                     (\<lambda>m. Inr (with_side (os_side d) m b))"
  by (simp add: cancel_def split: side.splits)

lemma best_by_side: "best s b = best_price (side_of s b)"
  by (cases s) (simp_all add: best_def best_bid_def best_ask_def)

lemma best_level_by_side: "best_level s b = best_level_of (side_of s b)"
  by (cases s) (simp_all add: best_level_def)

section \<open>The comparator's contract\<close>

text \<open>
  What the ordered map asks of its comparator (a strict total order on prices), and what the
  map's operations then guarantee. Both sides are instances.
\<close>

locale ordered_side =
  fixes lt :: "price \<Rightarrow> price \<Rightarrow> bool"
  assumes irrefl: "\<not> lt p p"
    and trans: "lt p q \<Longrightarrow> lt q r \<Longrightarrow> lt p r"
    and total: "lt p q \<or> p = q \<or> lt q p"
begin

lemma asym: "lt p q \<Longrightarrow> \<not> lt q p"
  using irrefl trans by blast

lemma neq: "lt p q \<Longrightarrow> p \<noteq> q"
  using irrefl by blast

lemma total_eq: "\<not> lt p q \<Longrightarrow> \<not> lt q p \<Longrightarrow> p = q"
  using total by blast

lemma sm_at_split_hit:
  "sorted_wrt lt (map fst (us @ (k, l) # vs)) \<Longrightarrow> sm_at lt k f (us @ (k, l) # vs) = us @ (k, f l) # vs"
proof (induction us)
  case Nil
  then show ?case by (simp add: irrefl)
next
  case (Cons e us)
  then show ?case by (cases e) auto
qed

lemma sm_find_split:
  "sorted_wrt lt (map fst (us @ (k, l) # vs)) \<Longrightarrow> sm_find lt k (us @ (k, l) # vs) = Some l"
proof (induction us)
  case Nil
  then show ?case by (simp add: irrefl)
next
  case (Cons e us)
  then show ?case by (cases e) auto
qed

lemma sm_erase_split:
  "sorted_wrt lt (map fst (us @ (k, l) # vs)) \<Longrightarrow> sm_erase lt k (us @ (k, l) # vs) = us @ vs"
proof (induction us)
  case Nil
  then show ?case by (simp add: irrefl)
next
  case (Cons e us)
  then show ?case by (cases e) auto
qed

lemma sm_at_cases:
  "sorted_wrt lt (map fst m) \<Longrightarrow>
   (\<exists>us l vs. m = us @ (k, l) # vs \<and> sm_at lt k f m = us @ (k, f l) # vs) \<or>
   (\<exists>us vs. m = us @ vs \<and> k \<notin> set (map fst m) \<and> sm_at lt k f m = us @ (k, f empty_level) # vs \<and>
      (\<forall>p\<in>set (map fst us). lt p k) \<and> (\<forall>p\<in>set (map fst vs). lt k p))"
proof (induction m)
  case Nil
  then show ?case by simp
next
  case (Cons e m)
  obtain p l where e: "e = (p, l)" by (cases e)
  consider "lt p k" | "lt k p" | "p = k" using total by blast
  then show ?case
  proof cases
    case 1
    have at: "sm_at lt k f (e # m) = e # sm_at lt k f m" using 1 e by simp
    from Cons.prems have "sorted_wrt lt (map fst m)" by simp
    from Cons.IH [OF this] show ?thesis
    proof (elim disjE exE conjE)
      fix us l' vs
      assume "m = us @ (k, l') # vs" "sm_at lt k f m = us @ (k, f l') # vs"
      then have "e # m = (e # us) @ (k, l') # vs \<and> sm_at lt k f (e # m) = (e # us) @ (k, f l') # vs"
        using at by simp
      then show ?thesis by blast
    next
      fix us vs
      assume a: "m = us @ vs" "k \<notin> set (map fst m)" "sm_at lt k f m = us @ (k, f empty_level) # vs"
        "\<forall>p\<in>set (map fst us). lt p k" "\<forall>p\<in>set (map fst vs). lt k p"
      then have "e # m = (e # us) @ vs \<and> k \<notin> set (map fst (e # m)) \<and>
          sm_at lt k f (e # m) = (e # us) @ (k, f empty_level) # vs \<and>
          (\<forall>p\<in>set (map fst (e # us)). lt p k) \<and> (\<forall>p\<in>set (map fst vs). lt k p)"
        using at 1 e neq by fastforce
      then show ?thesis by blast
    qed
  next
    case 2
    then have "\<not> lt p k" by (rule asym)
    with 2 e have "sm_at lt k f (e # m) = [] @ (k, f empty_level) # e # m" by simp
    moreover have "\<forall>q\<in>set (map fst (e # m)). lt k q"
      using Cons.prems 2 e trans by auto
    moreover from this have "k \<notin> set (map fst (e # m))" using irrefl by blast
    ultimately show ?thesis by (metis append_Nil empty_iff list.set(1) list.simps(8))
  next
    case 3
    with e have "e # m = [] @ (k, l) # m \<and> sm_at lt k f (e # m) = [] @ (k, f l) # m"
      by (simp add: irrefl)
    then show ?thesis by blast
  qed
qed

lemma keys_sm_at:
  "sorted_wrt lt (map fst m) \<Longrightarrow> set (map fst (sm_at lt k f m)) = insert k (set (map fst m))"
  by (drule sm_at_cases [of m k f]) (elim disjE exE conjE; simp; blast)

lemma sorted_sm_at:
  assumes "sorted_wrt lt (map fst m)"
  shows "sorted_wrt lt (map fst (sm_at lt k f m))"
  using sm_at_cases [OF assms, of k f] assms by (auto simp: sorted_wrt_append)

lemma head_is_best:
  "sorted_wrt lt (map fst ((p, l) # m)) \<Longrightarrow> q \<in> set (map fst ((p, l) # m)) \<Longrightarrow> q = p \<or> lt p q"
  by auto

end

interpretation side: ordered_side "before s" for s
  by unfold_locales (cases s; auto)+

end
