(* ===== verification/Book_Invariant.thy ===== *)
theory Book_Invariant
  imports Order_Book
begin

text \<open>
  What makes a side of the book correct, and that placing and cancelling keep it. The
  abstract view of a side is the list of its resting orders in matching priority: best price
  first, arrival order within a price.
\<close>

section \<open>Invariant and abstraction\<close>

definition level_orders :: "'a node_store_scheme \<Rightarrow> price_level \<Rightarrow> order_state list" where
  "level_orders st l = map (\<lambda>a. the (heap st a)) (lv_orders l)"

definition side_addrs :: "side_map \<Rightarrow> addr list" where
  "side_addrs m = concat (map (\<lambda>e. lv_orders (snd e)) m)"

definition resting_orders :: "'a node_store_scheme \<Rightarrow> side_map \<Rightarrow> order_state list" where
  "resting_orders st m = concat (map (\<lambda>e. level_orders st (snd e)) m)"

definition resting_ok :: "symbol \<Rightarrow> side \<Rightarrow> price \<Rightarrow> order_state \<Rightarrow> bool" where
  "resting_ok sy s p d \<longleftrightarrow>
     os_symbol d = sy \<and> os_side d = s \<and> os_price d = p \<and> p \<noteq> 0 \<and>
     os_leaves_qty d \<noteq> 0 \<and> os_leaves_qty d \<le> os_order_qty d"

definition level_ok :: "symbol \<Rightarrow> side \<Rightarrow> 'a node_store_scheme \<Rightarrow> price \<Rightarrow> price_level \<Rightarrow> bool" where
  "level_ok sy s st p l \<longleftrightarrow>
     lv_orders l \<noteq> [] \<and>
     (\<forall>a\<in>set (lv_orders l). \<exists>d. heap st a = Some d \<and> resting_ok sy s p d) \<and>
     lv_total_remaining l = sum_list (map os_leaves_qty (level_orders st l))"

definition side_ok :: "symbol \<Rightarrow> side \<Rightarrow> 'a node_store_scheme \<Rightarrow> side_map \<Rightarrow> bool" where
  "side_ok sy s st m \<longleftrightarrow>
     sorted_wrt (before s) (map fst m) \<and>
     (\<forall>(p, l)\<in>set m. level_ok sy s st p l) \<and>
     distinct (side_addrs m)"

text \<open>Price-time priority on the abstract list: behind every order of the same or a better price.\<close>

definition insert_order :: "side \<Rightarrow> order_state \<Rightarrow> order_state list \<Rightarrow> order_state list" where
  "insert_order s d ds =
     takeWhile (\<lambda>x. \<not> before s (os_price d) (os_price x)) ds @
     d # dropWhile (\<lambda>x. \<not> before s (os_price d) (os_price x)) ds"

section \<open>Computation rules\<close>

lemma side_addrs_simps [simp]:
  "side_addrs [] = []"
  "side_addrs (e # m) = lv_orders (snd e) @ side_addrs m"
  "side_addrs (m @ m') = side_addrs m @ side_addrs m'"
  by (simp_all add: side_addrs_def)

lemma resting_orders_simps [simp]:
  "resting_orders st [] = []"
  "resting_orders st (e # m) = level_orders st (snd e) @ resting_orders st m"
  "resting_orders st (m @ m') = resting_orders st m @ resting_orders st m'"
  by (simp_all add: resting_orders_def)

lemma resting_orders_addrs: "resting_orders st m = map (\<lambda>a. the (heap st a)) (side_addrs m)"
  by (induction m) (simp_all add: level_orders_def)

lemma length_level_orders [simp]: "length (level_orders st l) = length (lv_orders l)"
  by (simp add: level_orders_def)

lemma level_orders_eq_Nil [simp]: "level_orders st l = [] \<longleftrightarrow> lv_orders l = []"
  by (simp add: level_orders_def)

lemma side_ok_Nil [simp]: "side_ok sy s st []"
  by (simp add: side_ok_def)

lemma side_ok_Cons:
  "side_ok sy s st ((p, l) # m) \<longleftrightarrow>
     level_ok sy s st p l \<and> side_ok sy s st m \<and>
     (\<forall>q\<in>set (map fst m). before s p q) \<and>
     distinct (lv_orders l) \<and> set (lv_orders l) \<inter> set (side_addrs m) = {}"
  by (auto simp: side_ok_def)

lemma side_ok_append:
  "side_ok sy s st (m @ m') \<longleftrightarrow>
     side_ok sy s st m \<and> side_ok sy s st m' \<and>
     (\<forall>p\<in>set (map fst m). \<forall>q\<in>set (map fst m'). before s p q) \<and>
     set (side_addrs m) \<inter> set (side_addrs m') = {}"
  by (auto simp: side_ok_def sorted_wrt_append)

lemma side_ok_sorted: "side_ok sy s st m \<Longrightarrow> sorted_wrt (before s) (map fst m)"
  by (simp add: side_ok_def)

lemma side_ok_distinct: "side_ok sy s st m \<Longrightarrow> distinct (side_addrs m)"
  by (simp add: side_ok_def)

section \<open>Frame: a side only depends on its own nodes\<close>

lemma level_orders_cong:
  "(\<And>a. a \<in> set (lv_orders l) \<Longrightarrow> heap st' a = heap st a) \<Longrightarrow> level_orders st' l = level_orders st l"
  by (simp add: level_orders_def)

lemma level_ok_cong:
  assumes "\<And>a. a \<in> set (lv_orders l) \<Longrightarrow> heap st' a = heap st a"
  shows "level_ok sy s st' p l \<longleftrightarrow> level_ok sy s st p l"
  using assms level_orders_cong [of l st' st] by (simp add: level_ok_def)

lemma side_addrs_mem: "(p, l) \<in> set m \<Longrightarrow> a \<in> set (lv_orders l) \<Longrightarrow> a \<in> set (side_addrs m)"
  by (force simp: side_addrs_def)

lemma side_ok_cong:
  assumes "\<And>a. a \<in> set (side_addrs m) \<Longrightarrow> heap st' a = heap st a"
  shows "side_ok sy s st' m \<longleftrightarrow> side_ok sy s st m"
proof -
  have "level_ok sy s st' p l \<longleftrightarrow> level_ok sy s st p l" if "(p, l) \<in> set m" for p l
    by (rule level_ok_cong) (rule assms, rule side_addrs_mem [OF that])
  then show ?thesis by (auto simp: side_ok_def)
qed

lemma resting_orders_cong:
  "(\<And>a. a \<in> set (side_addrs m) \<Longrightarrow> heap st' a = heap st a) \<Longrightarrow> resting_orders st' m = resting_orders st m"
  by (simp add: resting_orders_addrs)

section \<open>Reading a side\<close>

lemma side_ok_node:
  assumes "side_ok sy s st m" "a \<in> set (side_addrs m)"
  shows "\<exists>d p l. heap st a = Some d \<and> resting_ok sy s p d \<and> (p, l) \<in> set m \<and> a \<in> set (lv_orders l)"
proof -
  from assms(2) obtain p l where pl: "(p, l) \<in> set m" "a \<in> set (lv_orders l)"
    by (auto simp: side_addrs_def)
  with assms(1) have "level_ok sy s st p l" by (auto simp: side_ok_def)
  with pl show ?thesis by (fastforce simp: level_ok_def)
qed

lemma level_ok_prices:
  "level_ok sy s st p l \<Longrightarrow> d \<in> set (level_orders st l) \<Longrightarrow> resting_ok sy s p d"
  by (auto simp: level_ok_def level_orders_def)

lemma side_ok_order:
  assumes "side_ok sy s st m" "d \<in> set (resting_orders st m)"
  shows "resting_ok sy s (os_price d) d \<and> os_price d \<in> set (map fst m)"
proof -
  from assms(2) obtain a where "a \<in> set (side_addrs m)" "d = the (heap st a)"
    by (auto simp: resting_orders_addrs)
  with side_ok_node [OF assms(1), of a] obtain p l where "resting_ok sy s p d" "(p, l) \<in> set m"
    by auto
  then show ?thesis by (force simp: resting_ok_def)
qed

lemma resting_orders_sorted:
  assumes "side_ok sy s st m"
  shows "sorted_wrt (\<lambda>x y. \<not> before s (os_price y) (os_price x)) (resting_orders st m)"
  using assms
proof (induction m)
  case Nil
  then show ?case by simp
next
  case (Cons e m)
  obtain p l where e: "e = (p, l)" by (cases e)
  from Cons.prems have ok: "level_ok sy s st p l" "side_ok sy s st m" "\<forall>q\<in>set (map fst m). before s p q"
    by (auto simp: e side_ok_Cons)
  have price: "os_price d = p" if "d \<in> set (level_orders st l)" for d
    using level_ok_prices [OF ok(1) that] by (simp add: resting_ok_def)
  have "sorted_wrt (\<lambda>x y. \<not> before s (os_price y) (os_price x)) (level_orders st l)"
    by (rule sorted_wrt_mono_rel [where P = "\<lambda>_ _. True"]) (auto simp: price side.irrefl)
  moreover have "\<not> before s (os_price y) (os_price x)"
    if "x \<in> set (level_orders st l)" "y \<in> set (resting_orders st m)" for x y
    using side_ok_order [OF ok(2) that(2)] ok(3) price [OF that(1)] side.asym by auto
  ultimately show ?case using Cons.IH [OF ok(2)] by (simp add: e sorted_wrt_append)
qed

lemma best_price_eq_head:
  assumes "side_ok sy s st m"
  shows "best_price m = (case resting_orders st m of [] \<Rightarrow> None | d # _ \<Rightarrow> Some (os_price d))"
proof (cases m)
  case Nil
  then show ?thesis by (simp add: best_price_def)
next
  case (Cons e m')
  obtain p l where e: "e = (p, l)" by (cases e)
  from assms have ok: "level_ok sy s st p l" by (simp add: Cons e side_ok_Cons)
  then obtain d ds where ds: "level_orders st l = d # ds"
    by (cases "level_orders st l") (auto simp: level_ok_def)
  with level_ok_prices [OF ok, of d] show ?thesis
    by (simp add: Cons e best_price_def resting_ok_def)
qed

section \<open>Placing\<close>

lemma takeWhile_append_none:
  "(\<And>x. x \<in> set xs \<Longrightarrow> P x) \<Longrightarrow> (\<And>y. y \<in> set ys \<Longrightarrow> \<not> P y) \<Longrightarrow>
   takeWhile P (xs @ ys) = xs \<and> dropWhile P (xs @ ys) = ys"
  by (induction xs) (cases ys; auto)+

lemma level_ok_snoc:
  assumes "level_ok sy s st p l \<or> l = empty_level" "heap st n = Some d" "resting_ok sy s p d"
  shows "level_ok sy s st p (l\<lparr>lv_orders := lv_orders l @ [n],
                              lv_total_remaining := lv_total_remaining l + os_leaves_qty d\<rparr>)"
  using assms by (auto simp: level_ok_def level_orders_def empty_level_def)

lemma place_into_ok:
  assumes ok: "side_ok sy s st m" and n: "heap st n = Some d" "n \<notin> set (side_addrs m)"
    and d: "resting_ok sy s (os_price d) d"
  shows "side_ok sy s st (place_into (before s) n d m) \<and>
         set (side_addrs (place_into (before s) n d m)) = insert n (set (side_addrs m)) \<and>
         set (map fst (place_into (before s) n d m)) = insert (os_price d) (set (map fst m)) \<and>
         resting_orders st (place_into (before s) n d m) = insert_order s d (resting_orders st m)"
proof -
  let ?k = "os_price d"
  define f :: "price_level \<Rightarrow> price_level" where "f = (\<lambda>l. l\<lparr>lv_orders := lv_orders l @ [n],
                             lv_total_remaining := lv_total_remaining l + os_leaves_qty d\<rparr>)"
  have place: "place_into (before s) n d m = sm_at (before s) ?k f m"
    by (simp add: place_into_def f_def)
  have fl: "lv_orders (f l) = lv_orders l @ [n]" for l by (simp add: f_def)
  have lo: "level_orders st (f l) = level_orders st l @ [d]" for l
    using n by (simp add: level_orders_def fl)
  have bad: "before s ?k (os_price x)" if "x \<in> set (resting_orders st vs)" "\<forall>q\<in>set (map fst vs). before s ?k q"
    "side_ok sy s st vs" for x vs
    using side_ok_order [OF that(3,1)] that(2) by blast
  have good: "\<not> before s ?k (os_price x)" if "x \<in> set (resting_orders st us)" "\<forall>p\<in>set (map fst us). before s p ?k"
    "side_ok sy s st us" for x us
    using side_ok_order [OF that(3,1)] that(2) side.asym by blast
  from side.sm_at_cases [OF side_ok_sorted [OF ok], of ?k f] show ?thesis
  proof (elim disjE exE conjE)
    fix us l vs
    assume m: "m = us @ (?k, l) # vs" and at: "sm_at (before s) ?k f m = us @ (?k, f l) # vs"
    from ok have okm: "side_ok sy s st us" "side_ok sy s st vs" "level_ok sy s st ?k l"
      "\<forall>p\<in>set (map fst us). before s p ?k" "\<forall>q\<in>set (map fst vs). before s ?k q"
      by (auto simp: m side_ok_append side_ok_Cons)
    have kk: "\<not> before s ?k (os_price x)" if "x \<in> set (level_orders st l)" for x
      using level_ok_prices [OF okm(3) that] side.irrefl by (auto simp: resting_ok_def)
    have "level_ok sy s st ?k (f l)"
      using level_ok_snoc [of sy s st ?k l n d] okm(3) n d by (simp add: f_def)
    then have "side_ok sy s st (us @ (?k, f l) # vs)"
      using ok n by (auto simp: m side_ok_append side_ok_Cons fl)
    moreover have "resting_orders st (us @ (?k, f l) # vs) = insert_order s d (resting_orders st m)"
      using takeWhile_append_none [of "resting_orders st us @ level_orders st l"
          "\<lambda>x. \<not> before s ?k (os_price x)" "resting_orders st vs"] good bad okm kk
      by (simp add: m insert_order_def lo) blast
    ultimately show ?thesis unfolding place at by (auto simp: m fl)
  next
    fix us vs
    assume m: "m = us @ vs" and notin: "?k \<notin> set (map fst m)"
      and at: "sm_at (before s) ?k f m = us @ (?k, f empty_level) # vs"
      and lu: "\<forall>p\<in>set (map fst us). before s p ?k" and lv: "\<forall>q\<in>set (map fst vs). before s ?k q"
    from ok have okm: "side_ok sy s st us" "side_ok sy s st vs"
      by (auto simp: m side_ok_append)
    have "level_ok sy s st ?k (f empty_level)"
      using level_ok_snoc [of sy s st ?k empty_level n d] n d by (simp add: f_def)
    then have "side_ok sy s st (us @ (?k, f empty_level) # vs)"
      using ok n lu lv side.trans by (fastforce simp: m side_ok_append side_ok_Cons fl empty_level_def)
    moreover have "resting_orders st (us @ (?k, f empty_level) # vs) = insert_order s d (resting_orders st m)"
      using takeWhile_append_none [of "resting_orders st us"
          "\<lambda>x. \<not> before s ?k (os_price x)" "resting_orders st vs"] good bad okm lu lv
      by (simp add: m insert_order_def lo) (simp add: level_orders_def empty_level_def)
    ultimately show ?thesis unfolding place at by (auto simp: m fl empty_level_def)
  qed
qed

section \<open>Cancelling\<close>

lemma level_ok_remove1:
  assumes "level_ok sy s st p l" "n \<in> set (lv_orders l)" "heap st n = Some d" "distinct (lv_orders l)"
    and "remove1 n (lv_orders l) \<noteq> []"
  shows "level_ok sy s st p (l\<lparr>lv_total_remaining := lv_total_remaining l - os_leaves_qty d,
                              lv_orders := remove1 n (lv_orders l)\<rparr>)"
  using assms sum_list_remove1_word [of n "lv_orders l" "\<lambda>a. os_leaves_qty (the (heap st a))"]
  by (auto simp: level_ok_def level_orders_def o_def)

lemma cancel_from_ok:
  assumes ok: "side_ok sy s st m" and n: "n \<in> set (side_addrs m)" "heap st n = Some d"
  shows "\<exists>m'. cancel_from (before s) n d m = Inr m' \<and> side_ok sy s st m' \<and>
              side_addrs m' = remove1 n (side_addrs m) \<and> set (map fst m') \<subseteq> set (map fst m)"
proof -
  from side_ok_node [OF ok n(1)] n(2) obtain p l
    where pl: "(p, l) \<in> set m" "n \<in> set (lv_orders l)" and d: "resting_ok sy s p d" by auto
  from d have p: "os_price d = p" by (simp add: resting_ok_def)
  from pl(1) obtain us vs where m: "m = us @ (p, l) # vs" by (meson split_list)
  from ok have okm: "level_ok sy s st p l" "distinct (lv_orders l)" "n \<notin> set (side_addrs us)"
    using pl(2) by (auto simp: m side_ok_append side_ok_Cons)
  have sorted: "sorted_wrt (before s) (map fst (us @ (p, l) # vs))"
    using side_ok_sorted [OF ok] m by simp
  let ?l = "l\<lparr>lv_total_remaining := lv_total_remaining l - os_leaves_qty d, lv_orders := remove1 n (lv_orders l)\<rparr>"
  have addrs: "remove1 n (side_addrs m) = side_addrs us @ remove1 n (lv_orders l) @ side_addrs vs"
    using okm(3) pl(2) by (simp add: m remove1_append)
  show ?thesis
  proof (cases "remove1 n (lv_orders l) = []")
    case True
    then have "cancel_from (before s) n d m = Inr (us @ vs)"
      using pl(2) by (simp add: cancel_from_def p m side.sm_find_split [OF sorted] side.sm_erase_split [OF sorted])
    moreover have "side_ok sy s st (us @ vs)"
      using ok by (auto simp: m side_ok_append side_ok_Cons)
    ultimately show ?thesis using addrs True by (auto simp: m)
  next
    case False
    then have "cancel_from (before s) n d m = Inr (us @ (p, ?l) # vs)"
      using pl(2) by (simp add: cancel_from_def p m side.sm_find_split [OF sorted] side.sm_at_split_hit [OF sorted])
    moreover have "level_ok sy s st p ?l"
      using level_ok_remove1 [OF okm(1) pl(2) n(2) okm(2) False] .
    then have "side_ok sy s st (us @ (p, ?l) # vs)"
      using ok notin_set_remove1 set_remove1_subset [of n "lv_orders l"]
      by (auto simp: m side_ok_append side_ok_Cons)
    ultimately show ?thesis using addrs by (auto simp: m)
  qed
qed

end
