(* ===== verification/Market_Data.thy ===== *)
theory Market_Data
  imports Prelude
begin

text \<open>
  The market-data vocabulary (\<open>market_data/types.hpp\<close>, \<open>market_data/messages.hpp\<close>). It
  mirrors raw values of the order-entry side but stays a domain of its own: its \<open>side\<close> is
  another enum, and the matching engine converts between the two.
\<close>

section \<open>Types\<close>

type_synonym md_security_id = u64
type_synonym md_price = u64
type_synonym md_quantity = u64
type_synonym md_order_id = u64
type_synonym trade_id = u64
type_synonym md_timestamp = u64
type_synonym trade_date = string

datatype md_side = Md_Buy | Md_Sell

datatype update_action = Action_New_Order | Action_Change | Action_Delete_Order

datatype security_trading_status = Trading_Open | Trading_Closed | Trading_Halted

datatype security_trading_event = Event_None | Event_Trading_Resume | Event_Trading_Halt

datatype trade_condition = Condition_Regular

datatype trade_sub_type = Sub_Type_Regular

section \<open>Messages\<close>

record security_definition =
  sd_security_id :: md_security_id
  sd_symbol :: string
  sd_security_exchange :: string
  sd_security_group :: string
  sd_security_type :: string
  sd_security_subtype :: "string option"
  sd_min_price_increment :: md_price
  sd_round_lot :: md_quantity
  sd_currency :: string

record security_status =
  ss_security_id :: md_security_id
  ss_security_exchange :: string
  ss_trading_session_id :: string
  ss_security_trading_status :: security_trading_status
  ss_security_trading_event :: security_trading_event
  ss_transact_time :: md_timestamp

record md_execution_summary =
  es_security_id :: md_security_id
  es_aggressor_side :: md_side
  es_last_px :: md_price
  es_fill_qty :: md_quantity
  es_traded_hidden_qty :: "md_quantity option"
  es_cancel_qty :: "md_quantity option"
  es_aggressor_time :: md_timestamp
  es_transact_time :: md_timestamp

record trade =
  tr_security_id :: md_security_id
  tr_trade_id :: trade_id
  tr_price :: md_price
  tr_quantity :: md_quantity
  tr_buyer :: "md_order_id option"
  tr_seller :: "md_order_id option"
  tr_trade_condition :: trade_condition
  tr_trade_sub_type :: "trade_sub_type option"
  tr_trade_date :: trade_date
  tr_transact_time :: md_timestamp

record mbo_book_update =
  mb_security_id :: md_security_id
  mb_update_action :: update_action
  mb_side :: md_side
  mb_resting_order_id :: md_order_id
  mb_price :: "md_price option"
  mb_quantity :: "md_quantity option"
  mb_previous_quantity :: "md_quantity option"
  mb_transact_time :: md_timestamp

datatype message =
    Security_Definition security_definition
  | Security_Status security_status
  | Execution_Summary md_execution_summary
  | Trade trade
  | Mbo_Book_Update mbo_book_update

end
