(* ===== verification/Matching.thy ===== *)
theory Matching
  imports Book_Invariant Market_Data
begin

text \<open>
  The side-agnostic matching algorithm (\<open>matching_engine/matching.hpp\<close>): a taker walks the
  opposite side of the book. The two callbacks of the template are parameters acting on the
  caller's state, which extends the node store; \<open>on_release\<close> may fault, since it returns a
  node to the pool.
\<close>

section \<open>The code\<close>

text \<open>\<open>trades\<close> counts nodes of the book, so it cannot reach the limit of \<open>std::size_t\<close>.\<close>

record execution_summary =
  xs_trades :: nat
  xs_last_traded :: "price option"

definition no_execution :: execution_summary where
  "no_execution = \<lparr>xs_trades = 0, xs_last_traded = None\<rparr>"

definition crosses :: "order_state \<Rightarrow> price \<Rightarrow> bool" where
  "crosses taker level_price =
     (if os_price taker = 0 then True
      else case os_side taker of
             Buy \<Rightarrow> level_price \<le> os_price taker
           | Sell \<Rightarrow> os_price taker \<le> level_price)"

definition make_trade :: "order_state \<Rightarrow> order_state \<Rightarrow> price \<Rightarrow> quantity \<Rightarrow> trade" where
  "make_trade taker maker level_price fill_qty =
     (let buyer = (if os_side taker = Buy then taker else maker);
          seller = (if os_side taker = Buy then maker else taker)
      in \<lparr>tr_security_id = os_security_id taker,
          tr_trade_id = 0,
          tr_price = level_price,
          tr_quantity = fill_qty,
          tr_buyer = Some (os_cl_ord_id buyer),
          tr_seller = Some (os_cl_ord_id seller),
          tr_trade_condition = Condition_Regular,
          tr_trade_sub_type = None,
          tr_trade_date = ''20260522'',
          tr_transact_time = 0\<rparr>)"

definition write_node :: "addr \<Rightarrow> order_state \<Rightarrow> 'a node_store_scheme \<Rightarrow> 'a node_store_scheme" where
  "write_node n d st = st\<lparr>heap := (heap st)(n \<mapsto> d)\<rparr>"

type_synonym 'a trade_callback = "trade \<Rightarrow> 'a node_store_scheme \<Rightarrow> 'a node_store_scheme"
type_synonym 'a release_callback = "addr \<Rightarrow> 'a node_store_scheme \<Rightarrow> fault + 'a node_store_scheme"

text \<open>
  The loop of \<open>consume_level\<close>. It is not structural: a partially filled maker stays at the
  head of the FIFO. It ends because each round either pops a node or exhausts the taker.
\<close>

function consume_level ::
  "'a trade_callback \<Rightarrow> 'a release_callback \<Rightarrow> price_level \<Rightarrow> price \<Rightarrow> order_state \<Rightarrow>
   'a node_store_scheme \<Rightarrow> nat \<Rightarrow> fault + (price_level \<times> order_state \<times> 'a node_store_scheme \<times> nat)"
where
  "consume_level on_trade on_release level level_price taker st trades =
     (case lv_orders level of
        [] \<Rightarrow> Inr (level, taker, st, trades)
      | node # nodes \<Rightarrow>
          (if os_leaves_qty taker = 0 then Inr (level, taker, st, trades)
           else
             (case heap st node of
                None \<Rightarrow> Inl Dangling_Pointer
              | Some maker \<Rightarrow>
                  (let fill_qty = min (os_leaves_qty taker) (os_leaves_qty maker);
                       st1 = on_trade (make_trade taker maker level_price fill_qty) st;
                       taker' = taker\<lparr>os_leaves_qty := os_leaves_qty taker - fill_qty\<rparr>;
                       maker' = maker\<lparr>os_leaves_qty := os_leaves_qty maker - fill_qty\<rparr>;
                       level' = level\<lparr>lv_total_remaining := lv_total_remaining level - fill_qty\<rparr>;
                       st2 = write_node node maker' st1
                   in if os_leaves_qty maker' = 0
                      then rbind (on_release node st2)
                             (\<lambda>st3. consume_level on_trade on_release
                                      (level'\<lparr>lv_orders := nodes\<rparr>) level_price taker' st3 (trades + 1))
                      else consume_level on_trade on_release level' level_price taker' st2 (trades + 1)))))"
  by pat_completeness auto
termination
proof (relation "measure (\<lambda>(ot, orl, level, p, taker, st, n).
                   length (lv_orders level) + unat (os_leaves_qty taker))", goal_cases)
  case 1
  show ?case by simp
next
  case (2 on_trade on_release level level_price taker st trades node nodes maker)
  have "unat (os_leaves_qty taker - min (os_leaves_qty taker) (os_leaves_qty maker)) < Suc (unat (os_leaves_qty taker))"
    by (simp add: word_arith)
  with 2 show ?case by auto
next
  case (3 on_trade on_release level level_price taker st trades node nodes maker)
  have "os_leaves_qty maker \<noteq> min (os_leaves_qty taker) (os_leaves_qty maker) \<Longrightarrow>
      os_leaves_qty taker = min (os_leaves_qty taker) (os_leaves_qty maker)"
    by (simp add: min_def split: if_splits)
  with 3 show ?case by (auto simp: unat_gt_0)
qed

declare consume_level.simps [simp del]

text \<open>
  The loop of \<open>match\<close>. \<open>passed\<close> is \<open>[begin, it)\<close>, the levels the iterator has left behind;
  the list argument is \<open>[it, end)\<close>.
\<close>

fun match_loop ::
  "(order_state \<Rightarrow> price \<Rightarrow> bool) \<Rightarrow> 'a trade_callback \<Rightarrow> 'a release_callback \<Rightarrow> side_map \<Rightarrow> side_map \<Rightarrow>
   order_state \<Rightarrow> 'a node_store_scheme \<Rightarrow> execution_summary \<Rightarrow>
   fault + (side_map \<times> side_map \<times> order_state \<times> 'a node_store_scheme \<times> execution_summary)"
where
  "match_loop cross on_trade on_release passed [] taker st result =
     Inr (passed, [], taker, st, result)"
| "match_loop cross on_trade on_release passed ((level_price, level) # m) taker st result =
     (if os_leaves_qty taker \<noteq> 0 \<and> cross taker level_price then
        rbind (consume_level on_trade on_release level level_price taker st 0)
          (\<lambda>(level', taker', st', level_trades).
             let result' = (if level_trades > 0
                            then result\<lparr>xs_last_traded := Some level_price,
                                        xs_trades := xs_trades result + level_trades\<rparr>
                            else result)
             in if lv_orders level' = []
                then match_loop cross on_trade on_release (passed @ [(level_price, level')]) m taker' st' result'
                else Inr (passed, (level_price, level') # m, taker', st', result'))
      else Inr (passed, (level_price, level) # m, taker, st, result))"

definition match_side ::
  "(order_state \<Rightarrow> price \<Rightarrow> bool) \<Rightarrow> 'a trade_callback \<Rightarrow> 'a release_callback \<Rightarrow> side_map \<Rightarrow>
   order_state \<Rightarrow> 'a node_store_scheme \<Rightarrow>
   fault + (side_map \<times> order_state \<times> 'a node_store_scheme \<times> execution_summary)"
where
  "match_side cross on_trade on_release m taker st =
     rbind (match_loop cross on_trade on_release [] m taker st no_execution)
       (\<lambda>(passed, rest, taker', st', result).
          Inr (if xs_trades result > 0 then rest else passed @ rest, taker', st', result))"

section \<open>The specification: greedy fill in priority order\<close>

text \<open>
  On the flat list of resting orders in priority order: fill the head while quantity is left
  and the head's price crosses; a head that is not exhausted keeps its place with the
  remainder. The result lists the fills (maker as it was, quantity), the quantity left and
  the orders left.
\<close>

fun fill_orders ::
  "(price \<Rightarrow> bool) \<Rightarrow> quantity \<Rightarrow> order_state list \<Rightarrow>
   (order_state \<times> quantity) list \<times> quantity \<times> order_state list"
where
  "fill_orders cr q [] = ([], q, [])"
| "fill_orders cr q (d # ds) =
     (if q = 0 \<or> \<not> cr (os_price d) then ([], q, d # ds)
      else if os_leaves_qty d \<le> q
           then (let (fills, q', rest) = fill_orders cr (q - os_leaves_qty d) ds
                 in ((d, os_leaves_qty d) # fills, q', rest))
           else ([(d, q)], 0, d\<lparr>os_leaves_qty := os_leaves_qty d - q\<rparr> # ds))"

lemma fill_orders_append:
  "fill_orders cr q (xs @ ys) =
     (let (f1, q1, r1) = fill_orders cr q xs
      in if r1 = [] then (let (f2, q2, r2) = fill_orders cr q1 ys in (f1 @ f2, q2, r2))
         else (f1, q1, r1 @ ys))"
  by (induction xs arbitrary: q) (auto split: prod.splits)

lemma fill_orders_cong:
  "(\<And>d. d \<in> set ds \<Longrightarrow> cr (os_price d) = cr' (os_price d)) \<Longrightarrow> fill_orders cr q ds = fill_orders cr' q ds"
  by (induction ds arbitrary: q) auto

lemma fill_orders_ConsE:
  assumes "fill_orders cr q (d # ds) = (fills, q', rest)"
  obtains (stop) "q = 0 \<or> \<not> cr (os_price d)" "fills = []" "q' = q" "rest = d # ds"
  | (full) f where "q \<noteq> 0" "cr (os_price d)" "os_leaves_qty d \<le> q"
      "fill_orders cr (q - os_leaves_qty d) ds = (f, q', rest)" "fills = (d, os_leaves_qty d) # f"
  | (part) "q \<noteq> 0" "cr (os_price d)" "q < os_leaves_qty d" "fills = [(d, q)]" "q' = 0"
      "rest = d\<lparr>os_leaves_qty := os_leaves_qty d - q\<rparr> # ds"
proof -
  have "os_leaves_qty d \<le> q \<or> q < os_leaves_qty d" by (rule le_less_linear)
  then consider "q = 0 \<or> \<not> cr (os_price d)" | "q \<noteq> 0" "cr (os_price d)" "os_leaves_qty d \<le> q"
    | "q \<noteq> 0" "cr (os_price d)" "q < os_leaves_qty d"
    by blast
  then show thesis
  proof cases
    case 1
    with assms show thesis by (intro stop) auto
  next
    case 2
    obtain f q1 r where f: "fill_orders cr (q - os_leaves_qty d) ds = (f, q1, r)" by (metis prod_cases3)
    with 2 assms have "fills = (d, os_leaves_qty d) # f" "q1 = q'" "r = rest" by simp_all
    with 2 f show thesis by (intro full) auto
  next
    case 3
    then have "\<not> os_leaves_qty d \<le> q" by simp
    with 3 assms show thesis by (intro part) auto
  qed
qed

lemma fill_orders_left:
  "fill_orders cr q ds = (fills, q', rest) \<Longrightarrow> q' \<noteq> 0 \<Longrightarrow> rest = [] \<or> \<not> cr (os_price (hd rest))"
proof (induction ds arbitrary: q fills)
  case (Cons d ds)
  from Cons.prems(1) show ?case
  proof (cases rule: fill_orders_ConsE)
    case (full f)
    from Cons.IH [OF full(4) Cons.prems(2)] show ?thesis .
  qed (use Cons.prems(2) in simp_all)
qed simp

lemma fill_orders_all_left:
  "fill_orders (\<lambda>_. True) q ds = (fills, q', rest) \<Longrightarrow> q' \<noteq> 0 \<Longrightarrow> rest = []"
  using fill_orders_left by blast

lemma fill_orders_quantity:
  "fill_orders cr q ds = (fills, q', rest) \<Longrightarrow> q = q' + sum_list (map snd fills)"
proof (induction ds arbitrary: q fills)
  case (Cons d ds)
  from Cons.prems show ?case
  proof (cases rule: fill_orders_ConsE)
    case (full f)
    from Cons.IH [OF full(4)] full(5) show ?thesis
      by (simp add: algebra_simps)
  qed auto
qed simp

lemma fill_orders_unat:
  "fill_orders cr q ds = (fills, q', rest) \<Longrightarrow> unat q = unat q' + sum_list (map (\<lambda>e. unat (snd e)) fills)"
proof (induction ds arbitrary: q fills)
  case (Cons d ds)
  from Cons.prems show ?case
  proof (cases rule: fill_orders_ConsE)
    case (full f)
    from Cons.IH [OF full(4)] full(3,5) show ?thesis
      by (simp add: unat_sub word_le_nat_alt)
  qed auto
qed simp

lemma fill_orders_makers:
  "fill_orders cr q ds = (fills, q', rest) \<Longrightarrow>
     sum_list (map os_leaves_qty ds) = sum_list (map snd fills) + sum_list (map os_leaves_qty rest)"
proof (induction ds arbitrary: q fills)
  case (Cons d ds)
  from Cons.prems show ?case
  proof (cases rule: fill_orders_ConsE)
    case (full f)
    from Cons.IH [OF full(4)] full(5) show ?thesis by simp
  qed auto
qed simp

lemma fill_orders_fills:
  "fill_orders cr q ds = (fills, q', rest) \<Longrightarrow> (d, f) \<in> set fills \<Longrightarrow>
     d \<in> set ds \<and> cr (os_price d) \<and> f \<le> os_leaves_qty d"
proof (induction ds arbitrary: q fills)
  case (Cons e ds)
  from Cons.prems(1) show ?case
  proof (cases rule: fill_orders_ConsE)
    case (full g)
    with Cons.IH [OF full(4)] Cons.prems(2) show ?thesis by auto
  qed (use Cons.prems(2) in auto)
qed simp

lemma fill_orders_prefix:
  "fill_orders cr q ds = (fills, q', rest) \<Longrightarrow> map fst fills = take (length fills) ds"
proof (induction ds arbitrary: q fills)
  case (Cons e ds)
  from Cons.prems(1) show ?case
  proof (cases rule: fill_orders_ConsE)
    case (full g)
    with Cons.IH [OF full(4)] show ?thesis by simp
  qed auto
qed simp

lemma fill_orders_positive:
  "fill_orders cr q ds = (fills, q', rest) \<Longrightarrow> (\<And>d. d \<in> set ds \<Longrightarrow> os_leaves_qty d \<noteq> 0) \<Longrightarrow>
   (d, f) \<in> set fills \<Longrightarrow> f \<noteq> 0"
proof (induction ds arbitrary: q fills)
  case (Cons e ds)
  from Cons.prems(1) show ?case
  proof (cases rule: fill_orders_ConsE)
    case (full g)
    with Cons.IH [OF full(4)] Cons.prems(2,3) show ?thesis by auto
  qed (use Cons.prems(3) in auto)
qed simp

lemma fill_orders_rest:
  "fill_orders cr q ds = (fills, q', rest) \<Longrightarrow> rest \<noteq> [] \<Longrightarrow>
     \<exists>us d vs. ds = us @ d # vs \<and>
       (rest = d # vs \<or> (q' = 0 \<and> (\<exists>x. x \<noteq> 0 \<and> x < os_leaves_qty d \<and>
          rest = d\<lparr>os_leaves_qty := os_leaves_qty d - x\<rparr> # vs)))"
proof (induction ds arbitrary: q fills)
  case (Cons d ds)
  from Cons.prems(1) show ?case
  proof (cases rule: fill_orders_ConsE)
    case (full f)
    from Cons.IH [OF full(4) Cons.prems(2)] show ?thesis by (metis append_Cons)
  qed blast+
qed simp

lemma fill_orders_resting:
  assumes "fill_orders cr q ds = (fills, q', rest)" "\<And>d. d \<in> set ds \<Longrightarrow> resting_ok sy s (P d) d"
    and P: "\<And>d x. P (d\<lparr>os_leaves_qty := x\<rparr>) = P d" and e: "e \<in> set rest"
  shows "resting_ok sy s (P e) e"
proof -
  from e have "rest \<noteq> []" by auto
  from fill_orders_rest [OF assms(1) this] obtain us d vs where ds: "ds = us @ d # vs"
    and r: "rest = d # vs \<or> (q' = 0 \<and> (\<exists>x. x \<noteq> 0 \<and> x < os_leaves_qty d \<and>
          rest = d\<lparr>os_leaves_qty := os_leaves_qty d - x\<rparr> # vs))" by blast
  have sub: "os_leaves_qty d - x \<noteq> 0 \<and> os_leaves_qty d - x \<le> os_order_qty d"
    if "x < os_leaves_qty d" "os_leaves_qty d \<le> os_order_qty d" for x
    using that by (auto simp: word_less_nat_alt word_le_nat_alt unat_sub)
  from r show ?thesis
  proof (elim disjE exE conjE)
    assume "rest = d # vs"
    then show ?thesis using e assms(2) [of e] by (auto simp: ds)
  next
    fix x assume x: "x < os_leaves_qty d" "rest = d\<lparr>os_leaves_qty := os_leaves_qty d - x\<rparr> # vs"
    from x(2) e have "e = d\<lparr>os_leaves_qty := os_leaves_qty d - x\<rparr> \<or> e \<in> set vs" by auto
    then show ?thesis
      using assms(2) [of d] assms(2) [of e] sub [OF x(1)] P by (auto simp: ds resting_ok_def)
  qed
qed

end
