(* ===== verification/Matching_Correct.thy ===== *)
theory Matching_Correct
  imports Matching
begin

text \<open>
  \<open>match\<close> refines the greedy fill, for any caller whose callbacks honour the contract below:
  publishing a trade leaves the node store alone, and releasing a node that is handed out
  succeeds and frees exactly that node. \<open>log\<close> is the caller's record of published trades;
  \<open>evolves\<close> is any reflexive, transitive relation the caller wants preserved from the state
  before to the state after (its own invariant, its frame).
\<close>

section \<open>The contract of the callbacks\<close>

locale matching_callbacks =
  fixes on_trade :: "'a trade_callback"
    and on_release :: "'a release_callback"
    and log :: "'a node_store_scheme \<Rightarrow> trade list"
    and evolves :: "'a node_store_scheme \<Rightarrow> 'a node_store_scheme \<Rightarrow> bool"
  assumes heap_trade: "heap (on_trade t st) = heap st"
    and log_trade: "tr_trade_id t = 0 \<Longrightarrow> log (on_trade t st) = log st @ [t]"
    and release: "heap st n = Some d \<Longrightarrow>
      \<exists>st'. on_release n st = Inr st' \<and> heap st' = (heap st)(n := None) \<and> log st' = log st \<and> evolves st st'"
    and log_write: "log (st\<lparr>heap := h\<rparr>) = log st"
    and evolves_refl: "evolves st st"
    and evolves_trans: "evolves a b \<Longrightarrow> evolves b c \<Longrightarrow> evolves a c"
    and evolves_trade: "evolves st (on_trade t st)"
    and evolves_write: "heap st n = Some d \<Longrightarrow>
      evolves st (st\<lparr>heap := (heap st)(n \<mapsto> d\<lparr>os_leaves_qty := q\<rparr>)\<rparr>)"

definition trade_of :: "order_state \<Rightarrow> order_state \<times> quantity \<Rightarrow> trade" where
  "trade_of taker e = make_trade taker (fst e) (os_price (fst e)) (snd e)"

lemma make_trade_leaves [simp]: "make_trade (taker\<lparr>os_leaves_qty := q\<rparr>) maker p f = make_trade taker maker p f"
  by (simp add: make_trade_def Let_def)

lemma trade_of_leaves [simp]: "trade_of (taker\<lparr>os_leaves_qty := q\<rparr>) = trade_of taker"
  by (simp add: trade_of_def fun_eq_iff)

lemma make_trade_id [simp]: "tr_trade_id (make_trade taker maker p f) = 0"
  by (simp add: make_trade_def Let_def)

lemma level_orders_simps:
  "lv_orders l = n # ns \<Longrightarrow> heap st n = Some d \<Longrightarrow> level_orders st l = d # map (\<lambda>a. the (heap st a)) ns"
  by (simp add: level_orders_def)

text \<open>What one visit to a level does, as the claim about \<open>consume_level\<close>.\<close>

definition level_result ::
  "('a node_store_scheme \<Rightarrow> trade list) \<Rightarrow> ('a node_store_scheme \<Rightarrow> 'a node_store_scheme \<Rightarrow> bool) \<Rightarrow>
   order_state \<Rightarrow> price_level \<Rightarrow> 'a node_store_scheme \<Rightarrow> (order_state \<times> quantity) list \<Rightarrow> order_state list \<Rightarrow>
   price_level \<Rightarrow> 'a node_store_scheme \<Rightarrow> bool"
where
  "level_result log evolves taker l st fills rest l' st' \<longleftrightarrow>
     (\<exists>gone. lv_orders l = gone @ lv_orders l' \<and> (\<forall>a\<in>set gone. heap st' a = None)) \<and>
     (\<forall>a\<in>set (lv_orders l'). heap st' a \<noteq> None) \<and>
     (\<forall>a. a \<notin> set (lv_orders l) \<longrightarrow> heap st' a = heap st a) \<and>
     level_orders st' l' = rest \<and>
     lv_total_remaining l' = lv_total_remaining l - sum_list (map snd fills) \<and>
     log st' = log st @ map (trade_of taker) fills \<and> evolves st st'"

text \<open>The same for the walk over the side.\<close>

definition side_result ::
  "('a node_store_scheme \<Rightarrow> trade list) \<Rightarrow> ('a node_store_scheme \<Rightarrow> 'a node_store_scheme \<Rightarrow> bool) \<Rightarrow>
   symbol \<Rightarrow> side \<Rightarrow> order_state \<Rightarrow> side_map \<Rightarrow> 'a node_store_scheme \<Rightarrow>
   (order_state \<times> quantity) list \<Rightarrow> order_state list \<Rightarrow> side_map \<Rightarrow> 'a node_store_scheme \<Rightarrow> bool"
where
  "side_result log evolves sy s taker m st fills rest m' st' \<longleftrightarrow>
     side_ok sy s st' m' \<and>
     (\<exists>gone. side_addrs m = gone @ side_addrs m' \<and> (\<forall>a\<in>set gone. heap st' a = None)) \<and>
     (\<forall>a. a \<notin> set (side_addrs m) \<longrightarrow> heap st' a = heap st a) \<and>
     resting_orders st' m' = rest \<and> set (map fst m') \<subseteq> set (map fst m) \<and>
     log st' = log st @ map (trade_of taker) fills \<and> evolves st st'"

definition executed :: "execution_summary \<Rightarrow> (order_state \<times> quantity) list \<Rightarrow> execution_summary" where
  "executed r fills =
     (if fills = [] then r
      else \<lparr>xs_trades = xs_trades r + length fills, xs_last_traded = Some (os_price (fst (last fills)))\<rparr>)"

lemma executed_append: "executed (executed r f1) f2 = executed r (f1 @ f2)"
  by (simp add: executed_def)

context matching_callbacks
begin

lemma evolves_chain:
  assumes "heap st n = Some d"
  shows "evolves st (write_node n (d\<lparr>os_leaves_qty := q\<rparr>) (on_trade t st))"
  using evolves_write [of "on_trade t st" n d q] evolves_trade [of st t] assms evolves_trans
  by (auto simp: heap_trade write_node_def)

lemma log_chain:
  "tr_trade_id t = 0 \<Longrightarrow> log (write_node n d (on_trade t st)) = log st @ [t]"
  by (simp add: write_node_def log_write log_trade)

lemma heap_chain: "heap (write_node n d (on_trade t st)) = (heap st)(n \<mapsto> d)"
  by (simp add: write_node_def heap_trade)

lemma consume_level_stop:
  "lv_orders l = [] \<or> os_leaves_qty taker = 0 \<Longrightarrow>
   consume_level on_trade on_release l p taker st k = Inr (l, taker, st, k)"
  by (subst consume_level.simps) (auto split: list.split)

lemma consume_level_pop:
  assumes "lv_orders l = n # ns" "heap st n = Some d" "os_leaves_qty taker \<noteq> 0"
    "os_leaves_qty d \<le> os_leaves_qty taker"
  shows "consume_level on_trade on_release l p taker st k =
    rbind (on_release n (write_node n (d\<lparr>os_leaves_qty := 0\<rparr>)
             (on_trade (make_trade taker d p (os_leaves_qty d)) st)))
      (\<lambda>st'. consume_level on_trade on_release
               (l\<lparr>lv_total_remaining := lv_total_remaining l - os_leaves_qty d, lv_orders := ns\<rparr>) p
               (taker\<lparr>os_leaves_qty := os_leaves_qty taker - os_leaves_qty d\<rparr>) st' (k + 1))"
  using assms by (subst consume_level.simps) (simp add: Let_def min_absorb2)

lemma consume_level_partial:
  assumes "lv_orders l = n # ns" "heap st n = Some d" "os_leaves_qty taker \<noteq> 0"
    "os_leaves_qty taker < os_leaves_qty d"
  shows "consume_level on_trade on_release l p taker st k =
    Inr (l\<lparr>lv_total_remaining := lv_total_remaining l - os_leaves_qty taker\<rparr>,
         taker\<lparr>os_leaves_qty := 0\<rparr>,
         write_node n (d\<lparr>os_leaves_qty := os_leaves_qty d - os_leaves_qty taker\<rparr>)
           (on_trade (make_trade taker d p (os_leaves_qty taker)) st), k + 1)"
proof -
  have "min (os_leaves_qty taker) (os_leaves_qty d) = os_leaves_qty taker"
    using less_imp_le [OF assms(4)] by (simp add: min_def)
  moreover have "os_leaves_qty d - os_leaves_qty taker \<noteq> 0" using assms(4) by auto
  ultimately show ?thesis
    using assms by (subst consume_level.simps) (simp add: Let_def consume_level_stop)
qed

lemma consume_level_spec:
  assumes "distinct (lv_orders l)"
    and "\<And>a. a \<in> set (lv_orders l) \<Longrightarrow> \<exists>d. heap st a = Some d \<and> os_price d = p"
    and "fill_orders (\<lambda>_. True) (os_leaves_qty taker) (level_orders st l) = (fills, q, rest)"
  shows "\<exists>l' st'. consume_level on_trade on_release l p taker st k =
             Inr (l', taker\<lparr>os_leaves_qty := q\<rparr>, st', k + length fills) \<and>
           level_result log evolves taker l st fills rest l' st'"
  using assms
proof (induction "lv_orders l" arbitrary: l taker st k fills)
  case Nil
  then show ?case
    using evolves_refl by (auto simp: consume_level_stop level_result_def level_orders_def)
next
  case (Cons n ns)
  obtain d where d: "heap st n = Some d" "os_price d = p"
    using Cons.prems(2) [of n] Cons.hyps(2) by (metis list.set_intros(1))
  note ord = Cons.hyps(2) [symmetric]
  have allocated: "\<exists>e. heap st a = Some e" if "a \<in> set (lv_orders l)" for a
    using Cons.prems(2) [OF that] by blast
  have los: "level_orders st l = d # map (\<lambda>a. the (heap st a)) ns"
    using ord d by (simp add: level_orders_simps)
  from Cons.prems(3) [unfolded los] show ?case
  proof (cases rule: fill_orders_ConsE)
    case stop
    then have "os_leaves_qty taker = 0" by simp
    then show ?thesis
      using stop evolves_refl allocated los by (auto simp: consume_level_stop level_result_def)
  next
    case (full fills')
    let ?t = "make_trade taker d p (os_leaves_qty d)"
    let ?st2 = "write_node n (d\<lparr>os_leaves_qty := 0\<rparr>) (on_trade ?t st)"
    let ?l = "l\<lparr>lv_total_remaining := lv_total_remaining l - os_leaves_qty d, lv_orders := ns\<rparr>"
    let ?taker = "taker\<lparr>os_leaves_qty := os_leaves_qty taker - os_leaves_qty d\<rparr>"
    have "heap ?st2 n = Some (d\<lparr>os_leaves_qty := 0\<rparr>)" by (simp add: heap_chain)
    from release [OF this] obtain st3 where st3: "on_release n ?st2 = Inr st3"
      "heap st3 = (heap st)(n := None)" "log st3 = log st @ [?t]" "evolves ?st2 st3"
      by (auto simp: heap_chain log_chain)
    have ev: "evolves st st3" using evolves_chain [OF d(1)] st3(4) evolves_trans by blast
    have nns: "n \<notin> set ns" "distinct ns" using Cons.prems(1) ord by auto
    have lo: "level_orders st3 ?l = map (\<lambda>a. the (heap st a)) ns"
      using nns by (simp add: level_orders_def st3(2))
    have nodes: "\<exists>d. heap st3 a = Some d \<and> os_price d = p" if "a \<in> set (lv_orders ?l)" for a
      using that Cons.prems(2) [of a] nns ord by (auto simp: st3(2))
    have dist: "distinct (lv_orders ?l)" using nns by simp
    have fl: "fill_orders (\<lambda>_. True) (os_leaves_qty ?taker) (level_orders st3 ?l) = (fills', q, rest)"
      using full(4) unfolding lo by simp
    have hyp: "ns = lv_orders ?l" by simp
    from Cons.hyps(1) [OF hyp dist nodes fl, of "k + 1"] obtain l' st' where
      IH: "consume_level on_trade on_release ?l p ?taker st3 (k + 1) =
             Inr (l', ?taker\<lparr>os_leaves_qty := q\<rparr>, st', k + 1 + length fills')"
          "level_result log evolves ?taker ?l st3 fills' rest l' st'" by blast
    from IH(2) obtain gone where gone: "ns = gone @ lv_orders l'" "\<forall>a\<in>set gone. heap st' a = None"
      by (auto simp: level_result_def)
    have "consume_level on_trade on_release l p taker st k =
        Inr (l', taker\<lparr>os_leaves_qty := q\<rparr>, st', k + length fills)"
      using IH(1) full by (simp add: consume_level_pop [OF ord d(1) full(1) full(3)] st3(1))
    moreover have "level_result log evolves taker l st fills rest l' st'"
      using IH(2) gone ord nns ev evolves_trans full(5) d
      by (fastforce simp: level_result_def st3 trade_of_def intro: exI [of _ "n # gone"])
    ultimately show ?thesis by blast
  next
    case part
    have "heap st a = Some e \<Longrightarrow> a \<noteq> n \<Longrightarrow> heap (write_node n x (on_trade t st)) a = Some e" for a e x t
      by (simp add: heap_chain)
    have rest: "level_orders (write_node n (d\<lparr>os_leaves_qty := os_leaves_qty d - os_leaves_qty taker\<rparr>)
        (on_trade t st)) (l\<lparr>lv_total_remaining := z\<rparr>) = rest" for t z
      using ord Cons.prems(1) part(6) by (auto simp: level_orders_def heap_chain)
    show ?thesis
      using part Cons.prems(2) ord evolves_chain [OF d(1)] d rest
      by (fastforce simp: consume_level_partial [OF ord d(1) part(1,3)] level_result_def heap_chain log_chain
          trade_of_def)
  qed
qed

lemma level_ok_result:
  assumes ok: "level_ok sy s st p l"
    and fl: "fill_orders (\<lambda>_. True) q0 (level_orders st l) = (fills, q, rest)"
    and res: "level_result log evolves taker l st fills rest l' st'" and ne: "rest \<noteq> []"
  shows "level_ok sy s st' p l'"
proof -
  have lo: "level_orders st' l' = rest" using res by (simp add: level_result_def)
  have "resting_ok sy s (os_price d) d" if "d \<in> set (level_orders st l)" for d
    using level_ok_prices [OF ok that] by (simp add: resting_ok_def)
  then have rest: "resting_ok sy s (os_price d) d" if "d \<in> set rest" for d
    by (rule fill_orders_resting [OF fl, of sy s os_price]) (auto simp: that)
  have price: "os_price d = p" if "d \<in> set rest" for d
  proof -
    from fill_orders_rest [OF fl ne] that have "\<exists>e\<in>set (level_orders st l). os_price d = os_price e" by auto
    then show ?thesis using level_ok_prices [OF ok] by (auto simp: resting_ok_def)
  qed
  have "\<exists>d. heap st' a = Some d \<and> resting_ok sy s p d" if a: "a \<in> set (lv_orders l')" for a
  proof -
    obtain d where d: "heap st' a = Some d" using res a by (auto simp: level_result_def)
    with a lo have "d \<in> set rest" by (force simp: level_orders_def)
    with rest price d show ?thesis by metis
  qed
  moreover have "lv_total_remaining l' = sum_list (map os_leaves_qty rest)"
    using fill_orders_makers [OF fl] res ok by (simp add: level_result_def level_ok_def)
  ultimately show ?thesis using ne lo by (auto simp: level_ok_def)
qed

lemma match_loop_spec:
  assumes "side_ok sy s st m"
    and "\<And>q pr. cross (taker\<lparr>os_leaves_qty := q\<rparr>) pr = cross taker pr"
    and "fill_orders (cross taker) (os_leaves_qty taker) (resting_orders st m) = (fills, q, rest)"
  shows "\<exists>passed' m' st'.
           match_loop cross on_trade on_release passed m taker st r =
             Inr (passed @ passed', m', taker\<lparr>os_leaves_qty := q\<rparr>, st', executed r fills) \<and>
           (fills = [] \<longrightarrow> passed' = [] \<and> m' = m) \<and>
           side_result log evolves sy s taker m st fills rest m' st'"
  using assms
proof (induction m arbitrary: passed taker st r fills)
  case Nil
  then show ?case using evolves_refl by (simp add: side_result_def executed_def)
next
  case (Cons e m)
  obtain p l where e: "e = (p, l)" by (cases e)
  from Cons.prems(1) have ok: "level_ok sy s st p l" "side_ok sy s st m" "distinct (lv_orders l)"
    "set (lv_orders l) \<inter> set (side_addrs m) = {}" "\<forall>q\<in>set (map fst m). before s p q"
    by (auto simp: e side_ok_Cons)
  have price: "os_price d = p" if "d \<in> set (level_orders st l)" for d
    using level_ok_prices [OF ok(1) that] by (simp add: resting_ok_def)
  have ne: "level_orders st l \<noteq> []" using ok(1) by (simp add: level_ok_def)
  show ?case
  proof (cases "os_leaves_qty taker \<noteq> 0 \<and> cross taker p")
    case False
    obtain d ds where "level_orders st l = d # ds" using ne by (cases "level_orders st l") auto
    with price False Cons.prems(3) have "fills = [] \<and> q = os_leaves_qty taker \<and> rest = resting_orders st (e # m)"
      by (auto simp: e)
    with False evolves_refl Cons.prems(1) show ?thesis
      by (auto simp: e side_result_def executed_def)
  next
    case True
    obtain f1 q1 r1 where f1: "fill_orders (\<lambda>_. True) (os_leaves_qty taker) (level_orders st l) = (f1, q1, r1)"
      by (metis prod_cases3)
    have f1c: "fill_orders (cross taker) (os_leaves_qty taker) (level_orders st l) = (f1, q1, r1)"
      unfolding f1 [symmetric] by (rule fill_orders_cong) (simp add: price True)
    have nodes: "\<exists>d. heap st a = Some d \<and> os_price d = p" if "a \<in> set (lv_orders l)" for a
      using ok(1) that by (fastforce simp: level_ok_def resting_ok_def)
    from consume_level_spec [OF ok(3) nodes f1, of 0] obtain l' st1 where
      cl: "consume_level on_trade on_release l p taker st 0 = Inr (l', taker\<lparr>os_leaves_qty := q1\<rparr>, st1, length f1)"
      and res: "level_result log evolves taker l st f1 r1 l' st1" by auto
    have f1ne: "f1 \<noteq> []"
      using f1 True ne by (cases "level_orders st l") (auto split: prod.splits if_splits)
    have last: "os_price (fst (last f1)) = p"
      using fill_orders_fills [OF f1, of "fst (last f1)" "snd (last f1)"] f1ne price by simp
    have step: "(if length f1 > 0 then r\<lparr>xs_last_traded := Some p, xs_trades := xs_trades r + length f1\<rparr> else r)
        = executed r f1" using f1ne last by (simp add: executed_def)
    have okm: "side_ok sy s st1 m" "resting_orders st1 m = resting_orders st m"
      using side_ok_cong [of m st1 st sy s] resting_orders_cong [of m st1 st] ok(2,4) res
      by (auto simp: level_result_def)
    show ?thesis
    proof (cases "r1 = []")
      case r1: True
      then have l': "lv_orders l' = []" using res by (auto simp: level_result_def)
      obtain f2 where f2: "fill_orders (cross taker) q1 (resting_orders st m) = (f2, q, rest)" "fills = f1 @ f2"
        using Cons.prems(3) r1 by (auto simp: e fill_orders_append f1c split: prod.splits)
      let ?taker = "taker\<lparr>os_leaves_qty := q1\<rparr>"
      have cr: "cross ?taker = cross taker" using Cons.prems(2) by blast
      have inv: "\<And>q pr. cross (?taker\<lparr>os_leaves_qty := q\<rparr>) pr = cross ?taker pr" using Cons.prems(2) by simp
      have fl: "fill_orders (cross ?taker) (os_leaves_qty ?taker) (resting_orders st1 m) = (f2, q, rest)"
        using f2(1) okm(2) cr by simp
      from Cons.IH [OF okm(1) inv fl, of "passed @ [(p, l')]" "executed r f1"] obtain passed' m' st' where
        IH: "match_loop cross on_trade on_release (passed @ [(p, l')]) m ?taker st1 (executed r f1) =
               Inr ((passed @ [(p, l')]) @ passed', m', ?taker\<lparr>os_leaves_qty := q\<rparr>, st', executed r (f1 @ f2))"
        "side_result log evolves sy s ?taker m st1 f2 rest m' st'"
        unfolding executed_append by blast
      have "match_loop cross on_trade on_release passed (e # m) taker st r =
          Inr (passed @ (p, l') # passed', m', taker\<lparr>os_leaves_qty := q\<rparr>, st', executed r fills)"
        using True cl l' step IH(1) f2(2) by (simp add: e)
      moreover from IH(2) obtain gone where gone: "side_addrs m = gone @ side_addrs m'"
        "\<forall>a\<in>set gone. heap st' a = None" by (auto simp: side_result_def)
      moreover from res l' have gone1: "\<forall>a\<in>set (lv_orders l). heap st1 a = None"
        by (auto simp: level_result_def)
      have "\<forall>a\<in>set (lv_orders l). heap st' a = None"
        using gone1 IH(2) ok(4) by (auto simp: side_result_def)
      with gone have freed: "side_addrs (e # m) = (lv_orders l @ gone) @ side_addrs m' \<and>
          (\<forall>a\<in>set (lv_orders l @ gone). heap st' a = None)" by (auto simp: e)
      have evol: "evolves st st'"
        using res IH(2) evolves_trans unfolding level_result_def side_result_def by blast
      have frame: "\<forall>a. a \<notin> set (side_addrs (e # m)) \<longrightarrow> heap st' a = heap st a"
        using res IH(2) by (simp add: side_result_def level_result_def e)
      have log: "log st' = log st @ map (trade_of taker) fills"
        using res IH(2) f2(2) by (simp add: side_result_def level_result_def)
      have "set (map fst m') \<subseteq> set (map fst (e # m))" "side_ok sy s st' m'" "resting_orders st' m' = rest"
        using IH(2) by (auto simp: side_result_def)
      with freed evol frame log have "side_result log evolves sy s taker (e # m) st fills rest m' st'"
        unfolding side_result_def by blast
      ultimately show ?thesis using f1ne f2(2) by blast
    next
      case r1: False
      then have l': "lv_orders l' \<noteq> []" using res by (auto simp: level_result_def)
      have f2: "fills = f1" "q = q1" "rest = r1 @ resting_orders st m"
        using Cons.prems(3) r1 by (auto simp: e fill_orders_append f1c)
      have "match_loop cross on_trade on_release passed (e # m) taker st r =
          Inr (passed @ [], (p, l') # m, taker\<lparr>os_leaves_qty := q\<rparr>, st1, executed r fills)"
        using True cl l' step f2 by (simp add: e)
      moreover have lok: "level_ok sy s st1 p l'" by (rule level_ok_result [OF ok(1) f1 res r1])
      obtain gone where gone: "lv_orders l = gone @ lv_orders l'" "\<forall>a\<in>set gone. heap st1 a = None"
        using res by (auto simp: level_result_def)
      then have "side_ok sy s st1 ((p, l') # m)"
        using lok okm(1) ok by (auto simp: side_ok_Cons)
      then have "side_result log evolves sy s taker (e # m) st fills rest ((p, l') # m) st1"
        using gone res f2 okm(2) by (auto simp: side_result_def level_result_def e)
      ultimately show ?thesis using f1ne f2(1) by blast
    qed
  qed
qed

lemma match_side_spec:
  assumes "side_ok sy s st m"
    and "\<And>q pr. cross (taker\<lparr>os_leaves_qty := q\<rparr>) pr = cross taker pr"
    and "fill_orders (cross taker) (os_leaves_qty taker) (resting_orders st m) = (fills, q, rest)"
  shows "\<exists>m' st'. match_side cross on_trade on_release m taker st =
             Inr (m', taker\<lparr>os_leaves_qty := q\<rparr>, st', executed no_execution fills) \<and>
           side_result log evolves sy s taker m st fills rest m' st'"
proof -
  from match_loop_spec [OF assms, of "[]" no_execution] obtain passed' m' st' where
    "match_loop cross on_trade on_release [] m taker st no_execution =
       Inr (passed', m', taker\<lparr>os_leaves_qty := q\<rparr>, st', executed no_execution fills)"
    "fills = [] \<longrightarrow> passed' = [] \<and> m' = m" "side_result log evolves sy s taker m st fills rest m' st'"
    by auto
  then show ?thesis
    by (cases "fills = []") (auto simp: match_side_def executed_def no_execution_def)
qed

end

lemma crosses_leaves [simp]: "crosses (taker\<lparr>os_leaves_qty := q\<rparr>) p = crosses taker p"
  by (simp add: crosses_def split: side.split)

end
