(* ===== verification/Engine.thy ===== *)
theory Engine
  imports Matching_Correct
begin

text \<open>
  The matching engine (\<open>matching_engine/engine.hpp\<close>, \<open>engine.cpp\<close>, with \<open>types.hpp\<close>,
  \<open>errors.hpp\<close>, \<open>factories.hpp\<close>, \<open>conversions.hpp\<close>).

  The engine's state extends the node store with the books, the identity index, the two
  counters and the sequence of events handed to the callbacks \<open>on_market_data\<close> and
  \<open>on_order_entry\<close>. \<open>boost::pool\<close> is not part of the repository: what its \<open>malloc\<close> returns
  for a request is the argument \<open>slot\<close> of the handlers (\<open>None\<close> for the null pointer), and
  the contract it must honour, that the slot is not handed out already, is the hypothesis
  \<open>slot_fresh\<close> of the theorems. \<open>books_\<close> is an unordered map: the list is its (unspecified)
  iteration order. Log lines are not modelled.
\<close>

section \<open>State\<close>

record order_key =
  ok_client_id :: client_id
  ok_cl_ord_id :: cl_ord_id

datatype engine_error =
    Err_Duplicate_Order client_id cl_ord_id
  | Err_Unknown_Symbol symbol

datatype engine_output =
    On_Market_Data message
  | On_Order_Entry event

record engine_config =
  ec_valid_symbols :: "symbol list"
  ec_expected_resting_orders :: u64
  ec_node_pool_chunk_size :: u64

record engine = node_store +
  books :: "(symbol \<times> order_book) list"
  resting_index :: "order_key \<rightharpoonup> addr"
  next_exec_id :: u64
  next_trade_id :: u64
  emitted :: "engine_output list"

definition key_of :: "order_state \<Rightarrow> order_key" where
  "key_of d = \<lparr>ok_client_id = os_client_id d, ok_cl_ord_id = os_cl_ord_id d\<rparr>"

definition slot_fresh :: "addr option \<Rightarrow> engine \<Rightarrow> bool" where
  "slot_fresh slot e \<longleftrightarrow> (\<forall>a. slot = Some a \<longrightarrow> heap e a = None)"

section \<open>Construction\<close>

text \<open>\<open>try_emplace\<close>: a repeated symbol keeps the book it has.\<close>

fun open_books :: "symbol list \<Rightarrow> (symbol \<times> order_book) list \<Rightarrow> (symbol \<times> order_book) list" where
  "open_books [] bs = bs"
| "open_books (sy # sys) bs =
     open_books sys (if sy \<in> set (map fst bs) then bs else bs @ [(sy, empty_book)])"

text \<open>The pool is warmed by one allocation that is returned at once.\<close>

definition reserve_node_pool :: "addr option \<Rightarrow> u64 \<Rightarrow> fault + unit" where
  "reserve_node_pool slot expected_resting_orders =
     (if expected_resting_orders = 0 then Inr ()
      else case slot of None \<Rightarrow> Inl Bad_Alloc | Some _ \<Rightarrow> Inr ())"

definition engine_init :: "addr option \<Rightarrow> engine_config \<Rightarrow> fault + engine" where
  "engine_init slot configuration =
     rbind (reserve_node_pool slot (ec_expected_resting_orders configuration))
       (\<lambda>_. Inr \<lparr>heap = Map.empty,
                 books = open_books (ec_valid_symbols configuration) [],
                 resting_index = Map.empty,
                 next_exec_id = 1,
                 next_trade_id = 1,
                 emitted = []\<rparr>)"

section \<open>Helpers\<close>

definition to_market_side :: "side \<Rightarrow> md_side" where
  "to_market_side v = (case v of Buy \<Rightarrow> Md_Buy | Sell \<Rightarrow> Md_Sell)"

definition make_order_state :: "new_order_single \<Rightarrow> order_state" where
  "make_order_state incoming =
     \<lparr>os_client_id = nos_client_id incoming,
      os_cl_ord_id = nos_cl_ord_id incoming,
      os_security_id = nos_security_id incoming,
      os_symbol = nos_symbol incoming,
      os_security_exchange = nos_security_exchange incoming,
      os_side = nos_side incoming,
      os_ord_type = nos_ord_type incoming,
      os_time_in_force = nos_time_in_force incoming,
      os_price = nos_price incoming,
      os_order_qty = nos_order_qty incoming,
      os_leaves_qty = nos_order_qty incoming\<rparr>"

definition on_market_data :: "message \<Rightarrow> engine \<Rightarrow> engine" where
  "on_market_data m e = e\<lparr>emitted := emitted e @ [On_Market_Data m]\<rparr>"

definition on_order_entry :: "event \<Rightarrow> engine \<Rightarrow> engine" where
  "on_order_entry m e = e\<lparr>emitted := emitted e @ [On_Order_Entry m]\<rparr>"

definition allocate_node :: "addr option \<Rightarrow> order_state \<Rightarrow> engine \<Rightarrow> fault + (addr \<times> engine)" where
  "allocate_node slot data e =
     (case slot of
        None \<Rightarrow> Inl Bad_Alloc
      | Some node \<Rightarrow> Inr (node, e\<lparr>heap := (heap e)(node \<mapsto> data)\<rparr>))"

definition release_node :: "addr \<Rightarrow> engine \<Rightarrow> fault + engine" where
  "release_node node e =
     (case heap e node of
        None \<Rightarrow> Inl Dangling_Pointer
      | Some _ \<Rightarrow> Inr (e\<lparr>heap := (heap e)(node := None)\<rparr>))"

definition erase_index :: "order_key \<Rightarrow> engine \<Rightarrow> engine" where
  "erase_index k e = e\<lparr>resting_index := (resting_index e)(k := None)\<rparr>"

text \<open>\<open>emplace\<close> never overwrites.\<close>

definition emplace_index :: "order_key \<Rightarrow> addr \<Rightarrow> engine \<Rightarrow> engine" where
  "emplace_index k node e =
     (case resting_index e k of
        None \<Rightarrow> e\<lparr>resting_index := (resting_index e)(k \<mapsto> node)\<rparr>
      | Some _ \<Rightarrow> e)"

text \<open>The handlers hold a reference into \<open>books_\<close>: writing through it replaces that entry.\<close>

definition put_book :: "symbol \<Rightarrow> order_book \<Rightarrow> engine \<Rightarrow> engine" where
  "put_book sy b e = e\<lparr>books := map (\<lambda>(s, b'). if s = sy then (s, b) else (s, b')) (books e)\<rparr>"

definition check_duplicate :: "order_key \<Rightarrow> engine \<Rightarrow> engine_error + unit" where
  "check_duplicate key e =
     (if resting_index e key \<noteq> None
      then Inl (Err_Duplicate_Order (ok_client_id key) (ok_cl_ord_id key)) else Inr ())"

definition find_book :: "symbol \<Rightarrow> engine \<Rightarrow> engine_error + order_book" where
  "find_book symbol e =
     (case map_of (books e) symbol of
        None \<Rightarrow> Inl (Err_Unknown_Symbol symbol)
      | Some b \<Rightarrow> Inr b)"

definition on_trade :: "trade \<Rightarrow> engine \<Rightarrow> engine" where
  "on_trade trade_event e =
     on_market_data (Trade (trade_event\<lparr>tr_trade_id := next_trade_id e\<rparr>))
       (e\<lparr>next_trade_id := next_trade_id e + 1\<rparr>)"

definition on_release :: "addr \<Rightarrow> engine \<Rightarrow> fault + engine" where
  "on_release consumed e =
     (case heap e consumed of
        None \<Rightarrow> Inl Dangling_Pointer
      | Some d \<Rightarrow> release_node consumed (erase_index (key_of d) e))"

text \<open>The messages the emitters build, as functions of what they read from the state.\<close>

definition execution_report_of ::
  "order_state \<Rightarrow> exec_type \<Rightarrow> ord_status \<Rightarrow> orig_cl_ord_id option \<Rightarrow> quantity option \<Rightarrow> price option \<Rightarrow>
   exec_id \<Rightarrow> event"
where
  "execution_report_of order exec_type ord_status orig_cl_ord_id last_qty last_px exec_id =
     Execution_Report
       \<lparr>er_client_id = os_client_id order,
        er_cl_ord_id = os_cl_ord_id order,
        er_orig_cl_ord_id = orig_cl_ord_id,
        er_order_id = os_cl_ord_id order,
        er_exec_id = exec_id,
        er_security_id = os_security_id order,
        er_symbol = os_symbol order,
        er_security_exchange = os_security_exchange order,
        er_side = os_side order,
        er_ord_type = os_ord_type order,
        er_time_in_force = os_time_in_force order,
        er_exec_type = exec_type,
        er_ord_status = ord_status,
        er_order_qty = os_order_qty order,
        er_cum_qty = os_order_qty order - os_leaves_qty order,
        er_leaves_qty = os_leaves_qty order,
        er_last_qty = last_qty,
        er_last_px = last_px,
        er_avg_px = last_px,
        er_transact_time = 0,
        er_reject_reason = None,
        er_text = []\<rparr>"

definition cancel_reject_of :: "cancel_order \<Rightarrow> reject_reason \<Rightarrow> string \<Rightarrow> event" where
  "cancel_reject_of c reason txt =
     Cancel_Reject
       \<lparr>cr_client_id = co_client_id c,
        cr_cl_ord_id = co_cl_ord_id c,
        cr_orig_cl_ord_id = co_orig_cl_ord_id c,
        cr_reject_reason = reason,
        cr_text = txt,
        cr_transact_time = 0\<rparr>"

definition mbo_book_update_of :: "level_snapshot option \<Rightarrow> side \<Rightarrow> security_id \<Rightarrow> message" where
  "mbo_book_update_of snapshot affected_side sec =
     Mbo_Book_Update
       \<lparr>mb_security_id = sec,
        mb_update_action = (if snapshot \<noteq> None then Action_Change else Action_Delete_Order),
        mb_side = to_market_side affected_side,
        mb_resting_order_id = 0,
        mb_price = map_option ls_price snapshot,
        mb_quantity = map_option ls_total_quantity snapshot,
        mb_previous_quantity = None,
        mb_transact_time = 0\<rparr>"

definition execution_summary_of :: "new_order_single \<Rightarrow> price \<Rightarrow> quantity \<Rightarrow> message" where
  "execution_summary_of request last_traded filled_qty =
     Execution_Summary
       \<lparr>es_security_id = nos_security_id request,
        es_aggressor_side = to_market_side (nos_side request),
        es_last_px = last_traded,
        es_fill_qty = filled_qty,
        es_traded_hidden_qty = None,
        es_cancel_qty = None,
        es_aggressor_time = 0,
        es_transact_time = 0\<rparr>"

definition emit_execution_report ::
  "order_state \<Rightarrow> exec_type \<Rightarrow> ord_status \<Rightarrow> orig_cl_ord_id option \<Rightarrow> quantity option \<Rightarrow> price option \<Rightarrow>
   engine \<Rightarrow> engine"
where
  "emit_execution_report order exec_type ord_status orig_cl_ord_id last_qty last_px e =
     on_order_entry
       (execution_report_of order exec_type ord_status orig_cl_ord_id last_qty last_px (next_exec_id e))
       (e\<lparr>next_exec_id := next_exec_id e + 1\<rparr>)"

definition emit_cancel_reject :: "cancel_order \<Rightarrow> reject_reason \<Rightarrow> string \<Rightarrow> engine \<Rightarrow> engine" where
  "emit_cancel_reject c reason txt e = on_order_entry (cancel_reject_of c reason txt) e"

definition emit_mbo_book_update :: "order_book \<Rightarrow> side \<Rightarrow> security_id \<Rightarrow> engine \<Rightarrow> engine" where
  "emit_mbo_book_update book affected_side sec e =
     on_market_data (mbo_book_update_of (best_level affected_side book) affected_side sec) e"

definition emit_execution_summary :: "new_order_single \<Rightarrow> price \<Rightarrow> quantity \<Rightarrow> engine \<Rightarrow> engine" where
  "emit_execution_summary request last_traded filled_qty e =
     on_market_data (execution_summary_of request last_traded filled_qty) e"

section \<open>new_order_single\<close>

definition match_orders ::
  "order_book \<Rightarrow> order_state \<Rightarrow> engine \<Rightarrow>
   fault + (order_book \<times> order_state \<times> engine \<times> execution_summary)"
where
  "match_orders book taker e =
     (case os_side taker of
        Buy \<Rightarrow> rbind (match_side crosses on_trade on_release (asks book) taker e)
                 (\<lambda>(m, taker', e', s). Inr (book\<lparr>asks := m\<rparr>, taker', e', s))
      | Sell \<Rightarrow> rbind (match_side crosses on_trade on_release (bids book) taker e)
                 (\<lambda>(m, taker', e', s). Inr (book\<lparr>bids := m\<rparr>, taker', e', s)))"

text \<open>Resting the residual: allocate, link into the book, register the identity.\<close>

definition rest_residual ::
  "addr option \<Rightarrow> order_key \<Rightarrow> order_state \<Rightarrow> order_book \<Rightarrow> engine \<Rightarrow> fault + (order_book \<times> engine)"
where
  "rest_residual slot incoming_key order book e =
     rbind (allocate_node slot order e) (\<lambda>(node, e1).
     rbind (place e1 node book) (\<lambda>book1.
     Inr (book1, emplace_index incoming_key node (put_book (os_symbol order) book1 e1))))"

text \<open>The events of an aggressor that removed liquidity.\<close>

definition report_execution ::
  "new_order_single \<Rightarrow> order_state \<Rightarrow> execution_summary \<Rightarrow> engine \<Rightarrow> engine"
where
  "report_execution request order summary e =
     (let filled_qty = nos_order_qty request - os_leaves_qty order
      in case xs_last_traded summary of
           None \<Rightarrow> e
         | Some last_traded \<Rightarrow>
             (if xs_trades summary > 0
              then emit_execution_report order Exec_Trade
                     (if os_leaves_qty order = 0 then Status_Filled else Status_Partially_Filled)
                     None (Some filled_qty) (Some last_traded)
                     (emit_execution_summary request last_traded filled_qty e)
              else e))"

definition handle_new_order_single_impl ::
  "addr option \<Rightarrow> new_order_single \<Rightarrow> engine \<Rightarrow> fault + (engine_error option \<times> engine)"
where
  "handle_new_order_single_impl slot request e =
     (let incoming_key = \<lparr>ok_client_id = nos_client_id request, ok_cl_ord_id = nos_cl_ord_id request\<rparr>
      in case check_duplicate incoming_key e of
           Inl err \<Rightarrow> Inr (Some err, e)
         | Inr _ \<Rightarrow>
      (case find_book (nos_symbol request) e of
           Inl err \<Rightarrow> Inr (Some err, e)
         | Inr book \<Rightarrow>
      (let order = make_order_state request;
           e1 = emit_execution_report order Exec_New_Order Status_New_Order None None None e
       in rbind (match_orders book order e1) (\<lambda>(book1, order1, e2, summary).
      (let e3 = put_book (nos_symbol request) book1 e2;
           removed_liquidity = (xs_trades summary > 0);
           is_market = (os_price order1 = 0);
           should_place_order = (os_leaves_qty order1 \<noteq> 0 \<and> \<not> is_market);
           e4 = report_execution request order1 summary e3
       in rbind (if should_place_order then rest_residual slot incoming_key order1 book1 e4
                 else Inr (book1, e4)) (\<lambda>(book2, e5).
      (let e6 = (if removed_liquidity
                 then emit_mbo_book_update book2 (opposite (nos_side request)) (nos_security_id request) e5
                 else e5);
           own_best = (if nos_side request = Buy then best_bid book2 else best_ask book2);
           e7 = (if should_place_order \<and> own_best = Some (nos_price request)
                 then emit_mbo_book_update book2 (nos_side request) (nos_security_id request) e6
                 else e6)
       in Inr (None, e7))))))))"

text \<open>\<open>handle\<close> logs the two rejections; the caller sees no event.\<close>

definition handle_new_order_single :: "addr option \<Rightarrow> new_order_single \<Rightarrow> engine \<Rightarrow> fault + engine" where
  "handle_new_order_single slot request e =
     rbind (handle_new_order_single_impl slot request e) (\<lambda>(_, e'). Inr e')"

section \<open>cancel_order\<close>

text \<open>
  Both \<open>cancel_order\<close> and \<open>replace_order\<close> take a located order out: resolve its book,
  note whether it was at the best price, unlink it, erase its identity, free its node.
\<close>

definition remove_resting ::
  "order_key \<Rightarrow> addr \<Rightarrow> engine \<Rightarrow> fault + (order_state \<times> bool \<times> order_book \<times> engine)"
where
  "remove_resting key node e =
     (case heap e node of
        None \<Rightarrow> Inl Dangling_Pointer
      | Some resting \<Rightarrow>
     (case map_of (books e) (os_symbol resting) of
        None \<Rightarrow> Inl Assert_Failed
      | Some book \<Rightarrow>
     (let affects_mbo_book_update = (best (os_side resting) book = Some (os_price resting))
      in rbind (cancel e node book) (\<lambda>book'.
         rbind (release_node node (erase_index key (put_book (os_symbol resting) book' e))) (\<lambda>e'.
         Inr (resting, affects_mbo_book_update, book', e'))))))"

definition handle_cancel_order :: "cancel_order \<Rightarrow> engine \<Rightarrow> fault + engine" where
  "handle_cancel_order incoming e =
     (let key = \<lparr>ok_client_id = co_client_id incoming, ok_cl_ord_id = co_orig_cl_ord_id incoming\<rparr>
      in case resting_index e key of
           None \<Rightarrow> Inr (emit_cancel_reject incoming Unknown_Order ''unknown order'' e)
         | Some node \<Rightarrow>
             rbind (remove_resting key node e) (\<lambda>(resting, affects_mbo_book_update, book, e1).
             (let e2 = emit_execution_report resting Exec_Canceled Status_Canceled
                         (Some (co_orig_cl_ord_id incoming)) None None e1
              in Inr (if affects_mbo_book_update
                      then emit_mbo_book_update book (os_side resting) (os_security_id resting) e2
                      else e2))))"

section \<open>replace_order\<close>

definition replace_cancel :: "replace_order \<Rightarrow> cancel_order" where
  "replace_cancel incoming =
     \<lparr>co_client_id = ro_client_id incoming,
      co_cl_ord_id = ro_cl_ord_id incoming,
      co_orig_cl_ord_id = ro_orig_cl_ord_id incoming\<rparr>"

definition replacement_order :: "replace_order \<Rightarrow> new_order_single" where
  "replacement_order incoming =
     \<lparr>nos_client_id = ro_client_id incoming,
      nos_cl_ord_id = ro_cl_ord_id incoming,
      nos_security_id = ro_security_id incoming,
      nos_symbol = ro_symbol incoming,
      nos_security_exchange = ro_security_exchange incoming,
      nos_side = ro_side incoming,
      nos_ord_type = ro_ord_type incoming,
      nos_time_in_force = ro_time_in_force incoming,
      nos_order_qty = ro_order_qty incoming,
      nos_price = ro_price incoming\<rparr>"

definition handle_replace_order :: "addr option \<Rightarrow> replace_order \<Rightarrow> engine \<Rightarrow> fault + engine" where
  "handle_replace_order slot incoming e =
     (let old_key = \<lparr>ok_client_id = ro_client_id incoming, ok_cl_ord_id = ro_orig_cl_ord_id incoming\<rparr>;
          new_key = \<lparr>ok_client_id = ro_client_id incoming, ok_cl_ord_id = ro_cl_ord_id incoming\<rparr>
      in case resting_index e old_key of
           None \<Rightarrow> Inr (emit_cancel_reject (replace_cancel incoming) Unknown_Order ''unknown order'' e)
         | Some node \<Rightarrow>
      (if resting_index e new_key \<noteq> None
       then Inr (emit_cancel_reject (replace_cancel incoming) Duplicate_Order ''duplicate cl_ord_id'' e)
       else
         rbind (remove_resting old_key node e) (\<lambda>(resting, affects_mbo_book_update, book, e1).
         (let e2 = (if affects_mbo_book_update
                    then emit_mbo_book_update book (os_side resting) (os_security_id resting) e1
                    else e1)
          in rbind (handle_new_order_single_impl slot (replacement_order incoming) e2) (\<lambda>(err, e3).
             Inr (case err of
                    None \<Rightarrow> e3
                  | Some (Err_Duplicate_Order _ _) \<Rightarrow>
                      emit_cancel_reject (replace_cancel incoming) Duplicate_Order ''duplicate cl_ord_id'' e3
                  | Some (Err_Unknown_Symbol _) \<Rightarrow>
                      emit_cancel_reject (replace_cancel incoming) Unknown_Symbol ''unknown symbol'' e3))))))"

section \<open>flush\<close>

text \<open>The drain of one side: front to back, a level is dropped when its FIFO empties.\<close>

function drain_side :: "side_map \<Rightarrow> engine \<Rightarrow> fault + engine" where
  "drain_side [] e = Inr e"
| "drain_side ((p, level) # m) e =
     (case lv_orders level of
        [] \<Rightarrow> Inl Dangling_Pointer
      | node # nodes \<Rightarrow>
          (case heap e node of
             None \<Rightarrow> Inl Dangling_Pointer
           | Some d \<Rightarrow>
               rbind (release_node node (erase_index (key_of d) e)) (\<lambda>e'.
                 drain_side (if nodes = [] then m else (p, level\<lparr>lv_orders := nodes\<rparr>) # m) e')))"
  by pat_completeness auto
termination
  by (relation "measure (\<lambda>(m, e). length m + length (side_addrs m))") auto

fun flush_books :: "(symbol \<times> order_book) list \<Rightarrow> engine \<Rightarrow> fault + engine" where
  "flush_books [] e = Inr e"
| "flush_books ((sy, book) # rest) e =
     rbind (drain_side (bids book) e) (\<lambda>e1.
     rbind (drain_side (asks book) e1) (\<lambda>e2.
     flush_books rest (put_book sy empty_book e2)))"

definition handle_flush :: "engine \<Rightarrow> fault + engine" where
  "handle_flush e = flush_books (books e) e"

section \<open>send\<close>

fun send :: "addr option \<Rightarrow> request \<Rightarrow> engine \<Rightarrow> fault + engine" where
  "send slot (New_Order_Single r) e = handle_new_order_single slot r e"
| "send slot (Replace_Order r) e = handle_replace_order slot r e"
| "send slot (Cancel_Order r) e = handle_cancel_order r e"
| "send slot Flush e = handle_flush e"

text \<open>
  Runs of the engine: from construction, any sequence of requests, each with a slot that
  honours the pool's contract. A fault ends the run.
\<close>

inductive reachable :: "engine_config \<Rightarrow> engine \<Rightarrow> bool" for cfg where
  start: "engine_init slot cfg = Inr e \<Longrightarrow> reachable cfg e"
| step: "reachable cfg e \<Longrightarrow> slot_fresh slot e \<Longrightarrow> send slot r e = Inr e' \<Longrightarrow> reachable cfg e'"

end
