(* ===== verification/Config.thy ===== *)
theory Config
  imports Json_Config Event_Loop Engine
begin

text \<open>
  The configuration of the server and of the client, as each program reads it from its JSON file:
  \<open>lab/network/types.hpp\<close>, \<open>lab/event_loop.hpp\<close>, \<open>lab/log.hpp\<close>, \<open>order_entry/runtime/session_config.hpp\<close>,
  \<open>matching_engine/runtime/engine_config.hpp\<close>, \<open>market_data/runtime/publisher_config.hpp\<close>,
  \<open>server/src/main.cpp\<close>; the client's part is in \<open>Client_Main\<close>. A \<open>_to_json\<close> function writes the
  members in the order of the code; a \<open>_from_json\<close> function reads them, errors as the exception's text.
\<close>

section \<open>Shared parts\<close>

record endpoint_config =
  ep_address :: string
  ep_port :: u16

definition endpoint_to_json :: "('j, 'z) config_lib_scheme \<Rightarrow> endpoint_config \<Rightarrow> 'j" where
  "endpoint_to_json L c = write_described_object L
     [(''address'', js_string L (ep_address c)), (''port'', js_number L (ucast (ep_port c)))]"

definition endpoint_from_json :: "('j, 'z) config_lib_scheme \<Rightarrow> 'j \<Rightarrow> string + endpoint_config" where
  "endpoint_from_json L = read_described_object L [''address'', ''port''] (\<lambda>j.
     rbind (read_field L (js_get_string L) j ''address'') (\<lambda>address.
     rbind (read_field L (get_u16 L) j ''port'') (\<lambda>port.
     Inr \<lparr>ep_address = address, ep_port = port\<rparr>)))"

fun idle_strategy_to_json :: "('j, 'z) config_lib_scheme \<Rightarrow> idle_strategy \<Rightarrow> 'j" where
  "idle_strategy_to_json L (Timed_Wait d) = js_object L
     (write_member ''duration_microseconds'' (js_integer L d) (write_member ''type'' (js_string L ''timed_wait'') []))"
| "idle_strategy_to_json L Busy_Spin = js_object L (write_member ''type'' (js_string L ''busy_spin'') [])"

definition idle_strategy_from_json :: "('j, 'z) config_lib_scheme \<Rightarrow> 'j \<Rightarrow> string + idle_strategy" where
  "idle_strategy_from_json L j =
     rbind (read_type L j) (\<lambda>type.
       if type = ''busy_spin'' then Inr Busy_Spin
       else if type = ''timed_wait''
       then rbind (read_field L (js_get_integer L) j ''duration_microseconds'') (\<lambda>d. Inr (Timed_Wait d))
       else Inl (''unknown event-loop idle strategy '' @ quoted_name type))"

definition event_loop_config_to_json :: "('j, 'z) config_lib_scheme \<Rightarrow> event_loop_config \<Rightarrow> 'j" where
  "event_loop_config_to_json L c = write_described_object L
     [(''thread_name'', js_string L (elc_thread_name c)),
      (''queue_capacity'', js_number L (elc_queue_capacity c)),
      (''idle_strategy'', idle_strategy_to_json L (elc_idle_strategy c))]"

text \<open>Reads into an existing object: what is absent keeps its value.\<close>

definition event_loop_config_from_json ::
  "('j, 'z) config_lib_scheme \<Rightarrow> event_loop_config \<Rightarrow> 'j \<Rightarrow> string + event_loop_config" where
  "event_loop_config_from_json L config j =
     rbind (read_field L (js_get_string L) j ''thread_name'') (\<lambda>thread_name.
     rbind (read_defaulted_field L (js_get_unsigned L) j ''queue_capacity'' (elc_queue_capacity config)) (\<lambda>queue_capacity.
     rbind (read_defaulted_field L (idle_strategy_from_json L) j ''idle_strategy'' (elc_idle_strategy config)) (\<lambda>idle.
     Inr \<lparr>elc_thread_name = thread_name, elc_queue_capacity = queue_capacity, elc_idle_strategy = idle\<rparr>)))"

datatype logger_config =
    Console_Logger_Config
  | Null_Logger_Config
  | File_Logger_Config string

fun logger_config_to_json :: "('j, 'z) config_lib_scheme \<Rightarrow> logger_config \<Rightarrow> 'j" where
  "logger_config_to_json L Console_Logger_Config = js_object L (write_member ''type'' (js_string L ''console'') [])"
| "logger_config_to_json L Null_Logger_Config = js_object L (write_member ''type'' (js_string L ''null'') [])"
| "logger_config_to_json L (File_Logger_Config path) = js_object L
     (write_member ''type'' (js_string L ''file'') [(''path'', js_string L path)])"

definition logger_config_from_json :: "('j, 'z) config_lib_scheme \<Rightarrow> 'j \<Rightarrow> string + logger_config" where
  "logger_config_from_json L j =
     rbind (read_type L j) (\<lambda>type.
       if type = ''console'' then Inr Console_Logger_Config
       else if type = ''null'' then Inr Null_Logger_Config
       else if type = ''file''
       then rbind (read_field L (js_get_string L) j ''path'') (\<lambda>path. Inr (File_Logger_Config path))
       else Inl (''unknown logger type '' @ quoted_name type))"

section \<open>Order entry\<close>

datatype receiver_config =
    Asio_Udp_Receiver (rc_endpoint: endpoint_config)
  | Ef_Vi_Udp_Receiver (rc_endpoint: endpoint_config)

fun receiver_config_to_json :: "('j, 'z) config_lib_scheme \<Rightarrow> receiver_config \<Rightarrow> 'j" where
  "receiver_config_to_json L (Asio_Udp_Receiver endpoint) = js_object L
     (write_member ''type'' (js_string L ''asio_udp'') [(''endpoint'', endpoint_to_json L endpoint)])"
| "receiver_config_to_json L (Ef_Vi_Udp_Receiver endpoint) = js_object L
     (write_member ''type'' (js_string L ''ef_vi_udp'') [(''endpoint'', endpoint_to_json L endpoint)])"

definition receiver_config_from_json :: "('j, 'z) config_lib_scheme \<Rightarrow> 'j \<Rightarrow> string + receiver_config" where
  "receiver_config_from_json L j =
     rbind (read_type L j) (\<lambda>type.
       if type = ''asio_udp''
       then rbind (read_field L (endpoint_from_json L) j ''endpoint'') (\<lambda>endpoint. Inr (Asio_Udp_Receiver endpoint))
       else if type = ''ef_vi_udp''
       then rbind (read_field L (endpoint_from_json L) j ''endpoint'') (\<lambda>endpoint. Inr (Ef_Vi_Udp_Receiver endpoint))
       else Inl (''unknown order-entry receiver type '' @ quoted_name type))"

datatype decoder_config = Json_Decoder_Config (dc_max_datagram_size: u64)

fun decoder_config_to_json :: "('j, 'z) config_lib_scheme \<Rightarrow> decoder_config \<Rightarrow> 'j" where
  "decoder_config_to_json L (Json_Decoder_Config max_datagram_size) = js_object L
     (write_member ''type'' (js_string L ''json'') [(''max_datagram_size'', js_number L max_datagram_size)])"

definition default_decoder_config :: decoder_config where
  "default_decoder_config = Json_Decoder_Config 65535"

definition decoder_config_from_json :: "('j, 'z) config_lib_scheme \<Rightarrow> 'j \<Rightarrow> string + decoder_config" where
  "decoder_config_from_json L j =
     rbind (read_type L j) (\<lambda>type.
       if type = ''json''
       then rbind (read_defaulted_field L (js_get_unsigned L) j ''max_datagram_size'' (dc_max_datagram_size default_decoder_config))
              (\<lambda>n. Inr (Json_Decoder_Config n))
       else Inl (''unknown order-entry decoder type '' @ quoted_name type))"

record session_config =
  sc_receiver :: receiver_config
  sc_decoder :: decoder_config

definition session_config_to_json :: "('j, 'z) config_lib_scheme \<Rightarrow> session_config \<Rightarrow> 'j" where
  "session_config_to_json L c = write_described_object L
     [(''receiver'', receiver_config_to_json L (sc_receiver c)), (''decoder'', decoder_config_to_json L (sc_decoder c))]"

definition session_config_from_json ::
  "('j, 'z) config_lib_scheme \<Rightarrow> session_config \<Rightarrow> 'j \<Rightarrow> string + session_config" where
  "session_config_from_json L config j =
     rbind (read_field L (receiver_config_from_json L) j ''receiver'') (\<lambda>receiver.
     rbind (read_defaulted_field L (decoder_config_from_json L) j ''decoder'' (sc_decoder config)) (\<lambda>decoder.
     Inr \<lparr>sc_receiver = receiver, sc_decoder = decoder\<rparr>))"

section \<open>Matching engine\<close>

record runtime_engine_config =
  rec_valid_symbols :: "symbol list"
  rec_expected_resting_orders :: u64
  rec_node_pool_chunk_size :: u64

definition default_runtime_engine_config :: runtime_engine_config where
  "default_runtime_engine_config =
     \<lparr>rec_valid_symbols = [], rec_expected_resting_orders = 1024, rec_node_pool_chunk_size = 32\<rparr>"

definition engine_config_to_json :: "('j, 'z) config_lib_scheme \<Rightarrow> runtime_engine_config \<Rightarrow> 'j" where
  "engine_config_to_json L c = write_described_object L
     [(''valid_symbols'', js_array L (map (js_string L) (rec_valid_symbols c))),
      (''expected_resting_orders'', js_number L (rec_expected_resting_orders c)),
      (''node_pool_chunk_size'', js_number L (rec_node_pool_chunk_size c))]"

definition engine_config_from_json ::
  "('j, 'z) config_lib_scheme \<Rightarrow> runtime_engine_config \<Rightarrow> 'j \<Rightarrow> string + runtime_engine_config" where
  "engine_config_from_json L config =
     read_described_object L [''valid_symbols'', ''expected_resting_orders'', ''node_pool_chunk_size''] (\<lambda>j.
     rbind (read_field L (vector_from_json L (get_fixed_string L symbol_size)) j ''valid_symbols'') (\<lambda>valid_symbols.
     rbind (read_defaulted_field L (js_get_unsigned L) j ''expected_resting_orders'' (rec_expected_resting_orders config)) (\<lambda>expected.
     rbind (read_defaulted_field L (js_get_unsigned L) j ''node_pool_chunk_size'' (rec_node_pool_chunk_size config)) (\<lambda>chunk.
     Inr \<lparr>rec_valid_symbols = valid_symbols, rec_expected_resting_orders = expected, rec_node_pool_chunk_size = chunk\<rparr>))))"

section \<open>Market data\<close>

datatype encoder_config = Json_Encoder_Config
datatype sink_config = Spdlog_Sink_Config

fun encoder_config_to_json :: "('j, 'z) config_lib_scheme \<Rightarrow> encoder_config \<Rightarrow> 'j" where
  "encoder_config_to_json L Json_Encoder_Config = js_object L (write_member ''type'' (js_string L ''json'') [])"

definition encoder_config_from_json :: "('j, 'z) config_lib_scheme \<Rightarrow> 'j \<Rightarrow> string + encoder_config" where
  "encoder_config_from_json L j =
     rbind (read_type L j) (\<lambda>type.
       if type = ''json'' then Inr Json_Encoder_Config
       else Inl (''unknown market-data encoder type '' @ quoted_name type))"

fun sink_config_to_json :: "('j, 'z) config_lib_scheme \<Rightarrow> sink_config \<Rightarrow> 'j" where
  "sink_config_to_json L Spdlog_Sink_Config = js_object L (write_member ''type'' (js_string L ''spdlog'') [])"

definition sink_config_from_json :: "('j, 'z) config_lib_scheme \<Rightarrow> 'j \<Rightarrow> string + sink_config" where
  "sink_config_from_json L j =
     rbind (read_type L j) (\<lambda>type.
       if type = ''spdlog'' then Inr Spdlog_Sink_Config
       else Inl (''unknown market-data sink type '' @ quoted_name type))"

record publisher_config =
  pc_encoder :: encoder_config
  pc_sink :: sink_config

definition publisher_config_to_json :: "('j, 'z) config_lib_scheme \<Rightarrow> publisher_config \<Rightarrow> 'j" where
  "publisher_config_to_json L c = write_described_object L
     [(''encoder'', encoder_config_to_json L (pc_encoder c)), (''sink'', sink_config_to_json L (pc_sink c))]"

definition publisher_config_from_json ::
  "('j, 'z) config_lib_scheme \<Rightarrow> publisher_config \<Rightarrow> 'j \<Rightarrow> string + publisher_config" where
  "publisher_config_from_json L config j =
     rbind (read_defaulted_field L (encoder_config_from_json L) j ''encoder'' (pc_encoder config)) (\<lambda>encoder.
     rbind (read_defaulted_field L (sink_config_from_json L) j ''sink'' (pc_sink config)) (\<lambda>sink.
     Inr \<lparr>pc_encoder = encoder, pc_sink = sink\<rparr>))"

section \<open>The server\<close>

record thread_config =
  tc_input :: event_loop_config
  tc_processing :: event_loop_config
  tc_output :: event_loop_config

definition named_loop_config :: "string \<Rightarrow> event_loop_config" where
  "named_loop_config thread_name =
     default_loop_config\<lparr>elc_thread_name := thread_name, elc_idle_strategy := Busy_Spin\<rparr>"

definition default_thread_config :: thread_config where
  "default_thread_config =
     \<lparr>tc_input = named_loop_config ''lab-input'', tc_processing = named_loop_config ''lab-engine'',
      tc_output = named_loop_config ''lab-output''\<rparr>"

definition thread_config_to_json :: "('j, 'z) config_lib_scheme \<Rightarrow> thread_config \<Rightarrow> 'j" where
  "thread_config_to_json L c = write_described_object L
     [(''input'', event_loop_config_to_json L (tc_input c)),
      (''processing'', event_loop_config_to_json L (tc_processing c)),
      (''output'', event_loop_config_to_json L (tc_output c))]"

definition thread_config_from_json ::
  "('j, 'z) config_lib_scheme \<Rightarrow> thread_config \<Rightarrow> 'j \<Rightarrow> string + thread_config" where
  "thread_config_from_json L config =
     read_described_object L [''input'', ''processing'', ''output''] (\<lambda>j.
     rbind (read_field L (event_loop_config_from_json L (tc_input config)) j ''input'') (\<lambda>input.
     rbind (read_field L (event_loop_config_from_json L (tc_processing config)) j ''processing'') (\<lambda>processing.
     rbind (read_field L (event_loop_config_from_json L (tc_output config)) j ''output'') (\<lambda>output.
     Inr \<lparr>tc_input = input, tc_processing = processing, tc_output = output\<rparr>))))"

record session_pair_config =
  spc_initiator_session_id :: string
  spc_acceptor_session_id :: string
  spc_in_memory_delivery :: bool

definition session_pair_config_to_json :: "('j, 'z) config_lib_scheme \<Rightarrow> session_pair_config \<Rightarrow> 'j" where
  "session_pair_config_to_json L c = write_described_object L
     [(''initiator_session_id'', js_string L (spc_initiator_session_id c)),
      (''acceptor_session_id'', js_string L (spc_acceptor_session_id c)),
      (''in_memory_delivery'', js_bool L (spc_in_memory_delivery c))]"

definition session_pair_config_from_json :: "('j, 'z) config_lib_scheme \<Rightarrow> 'j \<Rightarrow> string + session_pair_config" where
  "session_pair_config_from_json L =
     read_described_object L [''initiator_session_id'', ''acceptor_session_id'', ''in_memory_delivery''] (\<lambda>j.
     rbind (read_field L (js_get_string L) j ''initiator_session_id'') (\<lambda>initiator.
     rbind (read_field L (js_get_string L) j ''acceptor_session_id'') (\<lambda>acceptor.
     rbind (read_field L (js_get_bool L) j ''in_memory_delivery'') (\<lambda>delivery.
     Inr \<lparr>spc_initiator_session_id = initiator, spc_acceptor_session_id = acceptor, spc_in_memory_delivery = delivery\<rparr>))))"

record b3_codec_config =
  bcc_venue :: string
  bcc_security_exchange :: string

definition b3_codec_config_to_json :: "('j, 'z) config_lib_scheme \<Rightarrow> b3_codec_config \<Rightarrow> 'j" where
  "b3_codec_config_to_json L c = write_described_object L
     [(''venue'', js_string L (bcc_venue c)), (''security_exchange'', js_string L (bcc_security_exchange c))]"

definition b3_codec_config_from_json :: "('j, 'z) config_lib_scheme \<Rightarrow> 'j \<Rightarrow> string + b3_codec_config" where
  "b3_codec_config_from_json L = read_described_object L [''venue'', ''security_exchange''] (\<lambda>j.
     rbind (read_field L (js_get_string L) j ''venue'') (\<lambda>venue.
     rbind (read_field L (js_get_string L) j ''security_exchange'') (\<lambda>exchange.
     Inr \<lparr>bcc_venue = venue, bcc_security_exchange = exchange\<rparr>)))"

record fix_config =
  fc_enabled :: bool
  fc_session :: "session_pair_config option"
  fc_b3 :: "b3_codec_config option"

definition default_fix_config :: fix_config where
  "default_fix_config = \<lparr>fc_enabled = False, fc_session = None, fc_b3 = None\<rparr>"

text \<open>The members of an object with optional members: only those that have a value.\<close>

definition fix_config_to_json :: "('j, 'z) config_lib_scheme \<Rightarrow> fix_config \<Rightarrow> 'j" where
  "fix_config_to_json L c = js_object L
     (write_optional_member ''b3'' (map_option (b3_codec_config_to_json L) (fc_b3 c))
     (write_optional_member ''session'' (map_option (session_pair_config_to_json L) (fc_session c))
     (write_member ''enabled'' (js_bool L (fc_enabled c)) [])))"

definition fix_config_from_json :: "('j, 'z) config_lib_scheme \<Rightarrow> fix_config \<Rightarrow> 'j \<Rightarrow> string + fix_config" where
  "fix_config_from_json L config = read_described_object L [''enabled'', ''session'', ''b3''] (\<lambda>j.
     rbind (read_defaulted_field L (js_get_bool L) j ''enabled'' (fc_enabled config)) (\<lambda>enabled.
     rbind (read_optional_field L (session_pair_config_from_json L) j ''session'' (fc_session config)) (\<lambda>session.
     rbind (read_optional_field L (b3_codec_config_from_json L) j ''b3'' (fc_b3 config)) (\<lambda>b3.
     Inr \<lparr>fc_enabled = enabled, fc_session = session, fc_b3 = b3\<rparr>))))"

record app_config =
  ac_order_entry :: session_config
  ac_matching_engine :: runtime_engine_config
  ac_market_data :: publisher_config
  ac_logger :: logger_config
  ac_threads :: thread_config
  ac_fix :: "fix_config option"

definition app_config_to_json :: "('j, 'z) config_lib_scheme \<Rightarrow> app_config \<Rightarrow> 'j" where
  "app_config_to_json L c = js_object L
     (write_optional_member ''fix'' (map_option (fix_config_to_json L) (ac_fix c))
       (fold (\<lambda>(k, v). write_member k v)
         [(''order_entry'', session_config_to_json L (ac_order_entry c)),
          (''matching_engine'', engine_config_to_json L (ac_matching_engine c)),
          (''market_data'', publisher_config_to_json L (ac_market_data c)),
          (''logger'', logger_config_to_json L (ac_logger c)),
          (''threads'', thread_config_to_json L (ac_threads c))] []))"

text \<open>\<open>get<app_config>\<close>: reads into a default-constructed object.\<close>

definition default_session_config :: "receiver_config \<Rightarrow> session_config" where
  "default_session_config receiver = \<lparr>sc_receiver = receiver, sc_decoder = default_decoder_config\<rparr>"

definition default_publisher_config :: publisher_config where
  "default_publisher_config = \<lparr>pc_encoder = Json_Encoder_Config, pc_sink = Spdlog_Sink_Config\<rparr>"

definition default_receiver :: receiver_config where
  "default_receiver = Asio_Udp_Receiver \<lparr>ep_address = [], ep_port = 0\<rparr>"

definition app_config_from_json :: "('j, 'z) config_lib_scheme \<Rightarrow> 'j \<Rightarrow> string + app_config" where
  "app_config_from_json L =
     read_described_object L [''order_entry'', ''matching_engine'', ''market_data'', ''logger'', ''threads'', ''fix''] (\<lambda>j.
     rbind (read_field L (session_config_from_json L (default_session_config default_receiver)) j ''order_entry'') (\<lambda>order_entry.
     rbind (read_field L (engine_config_from_json L default_runtime_engine_config) j ''matching_engine'') (\<lambda>matching_engine.
     rbind (read_field L (publisher_config_from_json L default_publisher_config) j ''market_data'') (\<lambda>market_data.
     rbind (read_field L (logger_config_from_json L) j ''logger'') (\<lambda>logger.
     rbind (read_field L (thread_config_from_json L default_thread_config) j ''threads'') (\<lambda>threads.
     rbind (read_optional_field L (fix_config_from_json L default_fix_config) j ''fix'' None) (\<lambda>fix_part.
     Inr \<lparr>ac_order_entry = order_entry, ac_matching_engine = matching_engine, ac_market_data = market_data,
          ac_logger = logger, ac_threads = threads, ac_fix = fix_part\<rparr>)))))))"

record server_config =
  svc_order_entry :: session_config
  svc_matching_engine :: runtime_engine_config
  svc_market_data :: publisher_config
  svc_logger :: logger_config
  svc_input_thread :: event_loop_config
  svc_processing_thread :: event_loop_config
  svc_output_thread :: event_loop_config

definition make_runtime_config :: "app_config \<Rightarrow> server_config" where
  "make_runtime_config config =
     \<lparr>svc_order_entry = ac_order_entry config,
      svc_matching_engine = ac_matching_engine config,
      svc_market_data = ac_market_data config,
      svc_logger = ac_logger config,
      svc_input_thread = tc_input (ac_threads config),
      svc_processing_thread = tc_processing (ac_threads config),
      svc_output_thread = tc_output (ac_threads config)\<rparr>"

section \<open>Round trips\<close>

named_theorems config_round_trip \<open>reading back what was written\<close>

lemma endpoint_round_trip [config_round_trip]:
  "config_laws L \<Longrightarrow> endpoint_from_json L (endpoint_to_json L c) = Inr c"
  by (simp add: endpoint_from_json_def endpoint_to_json_def config_read config_values config_round_trip)

lemma idle_strategy_round_trip [config_round_trip]:
  "config_laws L \<Longrightarrow> idle_strategy_from_json L (idle_strategy_to_json L c) = Inr c"
  by (cases c) (simp_all add: idle_strategy_from_json_def config_read config_values config_round_trip)

lemma event_loop_config_round_trip [config_round_trip]:
  "config_laws L \<Longrightarrow> event_loop_config_from_json L d (event_loop_config_to_json L c) = Inr c"
  by (simp add: event_loop_config_from_json_def event_loop_config_to_json_def config_read config_values config_round_trip)

lemma logger_config_round_trip [config_round_trip]:
  "config_laws L \<Longrightarrow> logger_config_from_json L (logger_config_to_json L c) = Inr c"
  by (cases c) (simp_all add: logger_config_from_json_def config_read config_values config_round_trip)

lemma receiver_config_round_trip [config_round_trip]:
  "config_laws L \<Longrightarrow> receiver_config_from_json L (receiver_config_to_json L c) = Inr c"
  by (cases c) (simp_all add: receiver_config_from_json_def config_read config_values config_round_trip)

lemma decoder_config_round_trip [config_round_trip]:
  "config_laws L \<Longrightarrow> decoder_config_from_json L (decoder_config_to_json L c) = Inr c"
  by (cases c) (simp_all add: decoder_config_from_json_def config_read config_values config_round_trip)

lemma session_config_round_trip [config_round_trip]:
  "config_laws L \<Longrightarrow> session_config_from_json L d (session_config_to_json L c) = Inr c"
  by (simp add: session_config_from_json_def session_config_to_json_def config_read config_values config_round_trip)

lemma encoder_config_round_trip [config_round_trip]:
  "config_laws L \<Longrightarrow> encoder_config_from_json L (encoder_config_to_json L c) = Inr c"
  by (cases c) (simp_all add: encoder_config_from_json_def config_read config_values config_round_trip)

lemma sink_config_round_trip [config_round_trip]:
  "config_laws L \<Longrightarrow> sink_config_from_json L (sink_config_to_json L c) = Inr c"
  by (cases c) (simp_all add: sink_config_from_json_def config_read config_values config_round_trip)

lemma publisher_config_round_trip [config_round_trip]:
  "config_laws L \<Longrightarrow> publisher_config_from_json L d (publisher_config_to_json L c) = Inr c"
  by (simp add: publisher_config_from_json_def publisher_config_to_json_def config_read config_values config_round_trip)

lemma thread_config_round_trip [config_round_trip]:
  "config_laws L \<Longrightarrow> thread_config_from_json L d (thread_config_to_json L c) = Inr c"
  by (simp add: thread_config_from_json_def thread_config_to_json_def config_read config_values config_round_trip)

lemma session_pair_config_round_trip [config_round_trip]:
  "config_laws L \<Longrightarrow> session_pair_config_from_json L (session_pair_config_to_json L c) = Inr c"
  by (simp add: session_pair_config_from_json_def session_pair_config_to_json_def config_read config_values config_round_trip)

lemma b3_codec_config_round_trip [config_round_trip]:
  "config_laws L \<Longrightarrow> b3_codec_config_from_json L (b3_codec_config_to_json L c) = Inr c"
  by (simp add: b3_codec_config_from_json_def b3_codec_config_to_json_def config_read config_values config_round_trip)

definition engine_config_ok :: "runtime_engine_config \<Rightarrow> bool" where
  "engine_config_ok c \<longleftrightarrow> list_all symbol_ok (rec_valid_symbols c)"

lemma engine_config_round_trip [config_round_trip]:
  assumes "config_laws L" "engine_config_ok c"
  shows "engine_config_from_json L d (engine_config_to_json L c) = Inr c"
proof -
  have "vector_from_json L (get_fixed_string L symbol_size) (js_array L (map (js_string L) (rec_valid_symbols c))) =
      Inr (rec_valid_symbols c)"
    using assms
    by (intro vector_round_trip)
      (auto simp: engine_config_ok_def list_all_iff symbol_ok_def symbol_size_def
        intro: get_fixed_string_string [OF config_lawsD(1)])
  with assms(1) show ?thesis
    by (simp add: engine_config_from_json_def engine_config_to_json_def config_read config_values)
qed

lemma fix_config_round_trip [config_round_trip]:
  assumes "config_laws L"
  shows "fix_config_from_json L default_fix_config (fix_config_to_json L c) = Inr c"
proof -
  have s: "optional_from_json L (session_pair_config_from_json L) (session_pair_config_to_json L s) = Inr (Some s)" for s
    using session_pair_config_round_trip [OF assms, of s] assms
    by (simp add: session_pair_config_to_json_def write_described_eq optional_object)
  have b: "optional_from_json L (b3_codec_config_from_json L) (b3_codec_config_to_json L b) = Inr (Some b)" for b
    using b3_codec_config_round_trip [OF assms, of b] assms
    by (simp add: b3_codec_config_to_json_def write_described_eq optional_object)
  show ?thesis
    using assms
    by (cases "fc_session c"; cases "fc_b3 c")
      (simp_all add: fix_config_from_json_def fix_config_to_json_def write_optional_member_def config_read config_values s b
        default_fix_config_def)
qed

lemma app_config_round_trip:
  assumes "config_laws L" "engine_config_ok (ac_matching_engine c)"
  shows "app_config_from_json L (app_config_to_json L c) = Inr c"
proof -
  have f: "optional_from_json L (fix_config_from_json L default_fix_config) (fix_config_to_json L f) = Inr (Some f)" for f
    using fix_config_round_trip [OF assms(1), of f] assms(1)
    by (simp add: fix_config_to_json_def optional_object)
  show ?thesis
    using assms
    by (cases "ac_fix c")
      (simp_all add: app_config_from_json_def app_config_to_json_def write_optional_member_def config_read config_round_trip f)
qed

text \<open>
  C35: A server configuration that is written to JSON reads back as it was, with every backend
  choice, thread setting and optional FIX part, for any JSON library with the documented
  behaviour, as long as the symbols fit their fixed strings.
\<close>
theorem server_config_roundtrip:
  assumes "config_laws L" "engine_config_ok (ac_matching_engine c)"
  shows "app_config_from_json L (app_config_to_json L c) = Inr c"
  by (rule app_config_round_trip [OF assms])

definition sample_app_config :: app_config where
  "sample_app_config =
     \<lparr>ac_order_entry = default_session_config (Asio_Udp_Receiver \<lparr>ep_address = ''0.0.0.0'', ep_port = 1234\<rparr>),
      ac_matching_engine = default_runtime_engine_config\<lparr>rec_valid_symbols := [''IBM'', ''VAL'']\<rparr>,
      ac_market_data = default_publisher_config,
      ac_logger = File_Logger_Config ''server.log'',
      ac_threads = default_thread_config\<lparr>tc_output := named_loop_config ''out''\<lparr>elc_idle_strategy := Timed_Wait 50\<rparr>\<rparr>,
      ac_fix = Some \<lparr>fc_enabled = True, fc_session = None, fc_b3 = Some \<lparr>bcc_venue = ''B3'', bcc_security_exchange = ''BVMF''\<rparr>\<rparr>\<rparr>"

lemma sample_app_config_ok: "engine_config_ok (ac_matching_engine sample_app_config)"
  by (simp add: engine_config_ok_def sample_app_config_def symbol_ok_def symbol_size_def)

lemma server_config_roundtrip_witness:
  "app_config_from_json sample_config_lib (app_config_to_json sample_config_lib sample_app_config) = Inr sample_app_config"
  by (rule server_config_roundtrip [OF sample_config_laws sample_app_config_ok])

section \<open>Strictness\<close>

lemma read_described_strict:
  assumes "read_described_object L members f j = Inr x" "json_laws L" "js_find L j k = Some v"
  shows "k \<in> set members"
  using assms reject_unknown_Inr by (fastforce simp: read_described_object_def rbind_eq_Inr_iff)

lemma read_field_found:
  assumes "read_field L f j k = Inr x" "json_laws L"
  obtains v where "js_find L j k = Some v" "f v = Inr x"
proof (cases "js_find L j k")
  case None
  from json_lawsD(4) [OF assms(2) this] obtain what where "js_at L j k = Inl what" by blast
  with assms(1) show ?thesis by (simp add: read_field_def)
next
  case (Some v)
  with json_lawsD(3) [OF assms(2)] assms(1) have "f v = Inr x" by (simp add: read_field_def)
  with Some that show ?thesis by blast
qed

lemma read_elements_all:
  "read_elements f vs = Inr xs \<Longrightarrow> (\<And>v x. f v = Inr x \<Longrightarrow> P x) \<Longrightarrow> list_all P xs"
  by (induction vs arbitrary: xs) (auto simp: rbind_eq_Inr_iff)

lemma engine_config_from_json_ok:
  assumes "engine_config_from_json L d j = Inr c"
  shows "engine_config_ok c"
proof -
  from assms obtain v where "vector_from_json L (get_fixed_string L symbol_size) v = Inr (rec_valid_symbols c)"
    by (auto simp: engine_config_from_json_def read_described_object_def rbind_eq_Inr_iff read_field_def)
  moreover have "symbol_ok x" if "get_fixed_string L symbol_size w = Inr x" for w x
    using get_fixed_string_Inr [OF _ that] by (simp add: symbol_ok_def symbol_size_def)
  ultimately show ?thesis
    unfolding engine_config_ok_def vector_from_json_def rbind_eq_Inr_iff by (blast intro: read_elements_all)
qed

text \<open>A choice is known: its type is one of those the program has; an optional one may be absent.\<close>

definition known_choice :: "('j, 'z) json_lib_scheme \<Rightarrow> string list \<Rightarrow> 'j \<Rightarrow> bool" where
  "known_choice L types v \<longleftrightarrow> (case read_type L v of Inr t \<Rightarrow> t \<in> set types | Inl e \<Rightarrow> False)"

definition optional_choice :: "('j, 'z) json_lib_scheme \<Rightarrow> string list \<Rightarrow> 'j \<Rightarrow> string \<Rightarrow> bool" where
  "optional_choice L types j key \<longleftrightarrow> (case js_find L j key of Some v \<Rightarrow> known_choice L types v | None \<Rightarrow> True)"

lemma known_choices:
  "logger_config_from_json L v = Inr lg \<Longrightarrow> known_choice L [''console'', ''null'', ''file''] v"
  "receiver_config_from_json L v = Inr rc \<Longrightarrow> known_choice L [''asio_udp'', ''ef_vi_udp''] v"
  "decoder_config_from_json L v = Inr dc \<Longrightarrow> known_choice L [''json''] v"
  "encoder_config_from_json L v = Inr ec \<Longrightarrow> known_choice L [''json''] v"
  "sink_config_from_json L v = Inr kc \<Longrightarrow> known_choice L [''spdlog''] v"
  "idle_strategy_from_json L v = Inr idle \<Longrightarrow> known_choice L [''busy_spin'', ''timed_wait''] v"
  by (auto simp: known_choice_def logger_config_from_json_def receiver_config_from_json_def decoder_config_from_json_def
      encoder_config_from_json_def sink_config_from_json_def idle_strategy_from_json_def rbind_eq_Inr_iff split: if_splits)

lemma read_optional_choice:
  "read_defaulted_field L f j key d = Inr x \<Longrightarrow> (\<And>v x. f v = Inr x \<Longrightarrow> known_choice L types v) \<Longrightarrow> optional_choice L types j key"
  by (auto simp: read_defaulted_field_def optional_choice_def split: option.splits)

lemma session_choices:
  assumes "session_config_from_json L d s = Inr c" "json_laws L"
  shows "(\<exists>r. js_find L s ''receiver'' = Some r \<and> known_choice L [''asio_udp'', ''ef_vi_udp''] r) \<and>
    optional_choice L [''json''] s ''decoder''"
proof -
  from assms(1) obtain rc dc where r: "read_field L (receiver_config_from_json L) s ''receiver'' = Inr rc"
    and d: "read_defaulted_field L (decoder_config_from_json L) s ''decoder'' (sc_decoder d) = Inr dc"
    by (auto simp: session_config_from_json_def rbind_eq_Inr_iff)
  from read_field_found [OF r assms(2)] obtain v where
    v: "js_find L s ''receiver'' = Some v" "receiver_config_from_json L v = Inr rc" .
  have "optional_choice L [''json''] s ''decoder''"
    by (rule read_optional_choice [OF d]) (rule known_choices)
  with v(1) known_choices(2) [OF v(2)] show ?thesis by simp
qed

lemma publisher_choices:
  assumes "publisher_config_from_json L d md = Inr c"
  shows "optional_choice L [''json''] md ''encoder'' \<and> optional_choice L [''spdlog''] md ''sink''"
proof -
  from assms obtain ec kc where e: "read_defaulted_field L (encoder_config_from_json L) md ''encoder'' (pc_encoder d) = Inr ec"
    and k: "read_defaulted_field L (sink_config_from_json L) md ''sink'' (pc_sink d) = Inr kc"
    by (auto simp: publisher_config_from_json_def rbind_eq_Inr_iff)
  show ?thesis
    by (rule conjI; rule read_optional_choice [OF e] read_optional_choice [OF k]) (rule known_choices, assumption)+
qed

lemma loop_choice:
  assumes "event_loop_config_from_json L d e = Inr c"
  shows "optional_choice L [''busy_spin'', ''timed_wait''] e ''idle_strategy''"
proof -
  from assms obtain idle where
    i: "read_defaulted_field L (idle_strategy_from_json L) e ''idle_strategy'' (elc_idle_strategy d) = Inr idle"
    by (auto simp: event_loop_config_from_json_def rbind_eq_Inr_iff)
  show ?thesis by (rule read_optional_choice [OF i]) (rule known_choices)
qed

lemma thread_choices:
  assumes "thread_config_from_json L d th = Inr c" "json_laws L"
  shows "list_all (\<lambda>k. \<exists>e. js_find L th k = Some e \<and> optional_choice L [''busy_spin'', ''timed_wait''] e ''idle_strategy'')
    [''input'', ''processing'', ''output'']"
proof -
  have one: "\<exists>e. js_find L th k = Some e \<and> optional_choice L [''busy_spin'', ''timed_wait''] e ''idle_strategy''"
    if "read_field L (event_loop_config_from_json L dk) th k = Inr x" for k dk x
    using read_field_found [OF that assms(2)] loop_choice by metis
  from assms(1) obtain i p x where
    "read_field L (event_loop_config_from_json L (tc_input d)) th ''input'' = Inr i"
    "read_field L (event_loop_config_from_json L (tc_processing d)) th ''processing'' = Inr p"
    "read_field L (event_loop_config_from_json L (tc_output d)) th ''output'' = Inr x"
    by (auto simp: thread_config_from_json_def read_described_object_def rbind_eq_Inr_iff)
  with one show ?thesis by simp
qed

text \<open>
  C36: A server configuration is accepted only when it is an object with no section the program
  does not know, every mandatory section is there, the symbols fit, and every choice names something the
  program has: the receiver and the logger always, the decoder, the encoder, the sink and the idle strategy
  of each of the three threads where they are given. A misspelt section or choice is refused, not ignored.
\<close>
theorem accepted_config_is_complete:
  assumes "json_laws L" "app_config_from_json L j = Inr c"
  shows "(js_find L j k = None \<or>
       k \<in> {''order_entry'', ''matching_engine'', ''market_data'', ''logger'', ''threads'', ''fix''}) \<and>
    engine_config_ok (ac_matching_engine c) \<and> js_find L j ''matching_engine'' \<noteq> None \<and>
    (\<exists>oe r md lg th. js_find L j ''order_entry'' = Some oe \<and>
       js_find L oe ''receiver'' = Some r \<and> known_choice L [''asio_udp'', ''ef_vi_udp''] r \<and> optional_choice L [''json''] oe ''decoder'' \<and>
       js_find L j ''market_data'' = Some md \<and>
       optional_choice L [''json''] md ''encoder'' \<and> optional_choice L [''spdlog''] md ''sink'' \<and>
       js_find L j ''logger'' = Some lg \<and> known_choice L [''console'', ''null'', ''file''] lg \<and>
       js_find L j ''threads'' = Some th \<and>
       list_all (\<lambda>k. \<exists>e. js_find L th k = Some e \<and> optional_choice L [''busy_spin'', ''timed_wait''] e ''idle_strategy'')
         [''input'', ''processing'', ''output''])"
proof -
  note read = assms(2) [unfolded app_config_from_json_def]
  from read obtain oe me md lg th where
    fields: "read_field L (session_config_from_json L (default_session_config default_receiver)) j ''order_entry'' = Inr oe"
      "read_field L (engine_config_from_json L default_runtime_engine_config) j ''matching_engine'' = Inr me"
      "read_field L (publisher_config_from_json L default_publisher_config) j ''market_data'' = Inr md"
      "read_field L (logger_config_from_json L) j ''logger'' = Inr lg"
      "read_field L (thread_config_from_json L default_thread_config) j ''threads'' = Inr th"
    and c: "ac_matching_engine c = me"
    unfolding read_described_object_def rbind_eq_Inr_iff by clarsimp
  note found = read_field_found [OF _ assms(1)]
  from found [OF fields(1)] obtain s where s: "js_find L j ''order_entry'' = Some s"
    "session_config_from_json L (default_session_config default_receiver) s = Inr oe" .
  from found [OF fields(2)] obtain e where e: "js_find L j ''matching_engine'' = Some e"
    "engine_config_from_json L default_runtime_engine_config e = Inr me" .
  from found [OF fields(3)] obtain m where m: "js_find L j ''market_data'' = Some m"
    "publisher_config_from_json L default_publisher_config m = Inr md" .
  from found [OF fields(4)] obtain l where l: "js_find L j ''logger'' = Some l" "logger_config_from_json L l = Inr lg" .
  from found [OF fields(5)] obtain t where t: "js_find L j ''threads'' = Some t"
    "thread_config_from_json L default_thread_config t = Inr th" .
  note choices = session_choices [OF s(2) assms(1)] publisher_choices [OF m(2)] known_choices(1) [OF l(2)]
    thread_choices [OF t(2) assms(1)]
  have "js_find L j k = None \<or> k \<in> {''order_entry'', ''matching_engine'', ''market_data'', ''logger'', ''threads'', ''fix''}"
    using read_described_strict [OF read assms(1), of k] by (cases "js_find L j k") auto
  moreover have "engine_config_ok (ac_matching_engine c)" using engine_config_from_json_ok [OF e(2)] c by simp
  ultimately show ?thesis using s(1) e(1) m(1) l(1) t(1) choices by blast
qed

lemma sample_app_config_read:
  "app_config_from_json sample_config_lib (app_config_to_json sample_config_lib sample_app_config) = Inr sample_app_config"
  by (rule app_config_round_trip [OF sample_config_laws sample_app_config_ok])

lemma accepted_config_is_complete_witness:
  "js_find sample_config_lib (app_config_to_json sample_config_lib sample_app_config) ''fixx'' = None"
  using accepted_config_is_complete [OF config_lawsD(1) [OF sample_config_laws] sample_app_config_read, of "''fixx''"]
  by simp

text \<open>
  The FIX part of the configuration file is read and checked, but nothing of it reaches the
  server: two files that differ only there start the same server.
\<close>
lemma fix_part_is_not_used:
  "make_runtime_config (c\<lparr>ac_fix := f\<rparr>) = make_runtime_config c \<and>
   svc_order_entry (make_runtime_config c) = ac_order_entry c \<and>
   svc_input_thread (make_runtime_config c) = tc_input (ac_threads c)"
  by (simp add: make_runtime_config_def)

end
