(* ===== verification/Order_Entry_Json.thy ===== *)
theory Order_Entry_Json
  imports Json
begin

text \<open>
  The inbound side of order entry: the JSON decoder (\<open>order_entry/src/json_decoder.cpp\<close>) and the
  session that turns packets into requests or rejections (\<open>order_entry/src/session.cpp\<close>). A step
  that may throw \<open>std::exception\<close> returns its text as \<open>Inl\<close>.
\<close>

section \<open>Reading members\<close>

definition json_get_required ::
  "('j, 'z) json_lib_scheme \<Rightarrow> ('j \<Rightarrow> string + 'a) \<Rightarrow> 'j \<Rightarrow> string \<Rightarrow> string + 'a" where
  "json_get_required L get payload field_name = rbind (js_at L payload field_name) get"

definition json_get_optional ::
  "('j, 'z) json_lib_scheme \<Rightarrow> ('j \<Rightarrow> string + 'a) \<Rightarrow> 'j \<Rightarrow> string \<Rightarrow> 'a \<Rightarrow> string + 'a" where
  "json_get_optional L get payload field_name fallback =
     (case js_find L payload field_name of Some v \<Rightarrow> get v | None \<Rightarrow> Inr fallback)"

definition json_contains :: "('j, 'z) json_lib_scheme \<Rightarrow> 'j \<Rightarrow> string \<Rightarrow> bool" where
  "json_contains L payload field_name \<longleftrightarrow> js_find L payload field_name \<noteq> None"

section \<open>Defaults\<close>

definition default_security_exchange :: security_exchange where
  "default_security_exchange = ''BVMF''"

definition default_security_id :: "symbol \<Rightarrow> security_id" where
  "default_security_id s = 0"

definition ord_type_from_price :: "price \<Rightarrow> ord_type" where
  "ord_type_from_price p = (if p = 0 then Market else Limit)"

definition time_in_force_from_price :: "price \<Rightarrow> time_in_force" where
  "time_in_force_from_price p = (if p = 0 then Ioc else Day)"

section \<open>Decoding\<close>

definition decode_side :: "string \<Rightarrow> string + side" where
  "decode_side field =
     (if field = ''buy'' then Inr Buy
      else if field = ''sell'' then Inr Sell
      else Inl (''invalid side '' @ [CHR 0x27] @ field @ [CHR 0x27]))"

definition decode_ord_type :: "string \<Rightarrow> string + ord_type" where
  "decode_ord_type field =
     (if field = ''market'' then Inr Market
      else if field = ''limit'' then Inr Limit
      else Inl (''invalid ord_type '' @ [CHR 0x27] @ field @ [CHR 0x27]))"

definition decode_time_in_force :: "string \<Rightarrow> string + time_in_force" where
  "decode_time_in_force field =
     (if field = ''day'' then Inr Day
      else if field = ''ioc'' then Inr Ioc
      else Inl (''invalid time_in_force '' @ [CHR 0x27] @ field @ [CHR 0x27]))"

definition decode_new_order :: "('j, 'z) json_lib_scheme \<Rightarrow> 'j \<Rightarrow> string + new_order_single" where
  "decode_new_order L payload =
     rbind (json_get_required L (get_fixed_string L symbol_size) payload ''symbol'') (\<lambda>symbol'.
     rbind (json_get_required L (js_get_unsigned L) payload ''price'') (\<lambda>price'.
     rbind (json_get_required L (js_get_unsigned L) payload ''client_id'') (\<lambda>client_id'.
     rbind (json_get_required L (js_get_unsigned L) payload ''cl_ord_id'') (\<lambda>cl_ord_id'.
     rbind (json_get_optional L (js_get_unsigned L) payload ''security_id'' (default_security_id symbol')) (\<lambda>security_id'.
     rbind (json_get_optional L (get_fixed_string L security_exchange_size) payload ''security_exchange''
              default_security_exchange) (\<lambda>security_exchange'.
     rbind (rbind (json_get_required L (js_get_string L) payload ''side'') decode_side) (\<lambda>side'.
     rbind (if json_contains L payload ''ord_type''
            then rbind (json_get_required L (js_get_string L) payload ''ord_type'') decode_ord_type
            else Inr (ord_type_from_price price')) (\<lambda>ord_type'.
     rbind (if json_contains L payload ''time_in_force''
            then rbind (json_get_required L (js_get_string L) payload ''time_in_force'') decode_time_in_force
            else Inr (time_in_force_from_price price')) (\<lambda>time_in_force'.
     rbind (json_get_required L (js_get_unsigned L) payload ''order_qty'') (\<lambda>order_qty'.
     Inr \<lparr>nos_client_id = client_id', nos_cl_ord_id = cl_ord_id', nos_security_id = security_id',
          nos_symbol = symbol', nos_security_exchange = security_exchange', nos_side = side',
          nos_ord_type = ord_type', nos_time_in_force = time_in_force', nos_order_qty = order_qty',
          nos_price = price'\<rparr>))))))))))"

definition decode_replace_order :: "('j, 'z) json_lib_scheme \<Rightarrow> 'j \<Rightarrow> string + replace_order" where
  "decode_replace_order L payload =
     rbind (json_get_required L (get_fixed_string L symbol_size) payload ''symbol'') (\<lambda>symbol'.
     rbind (json_get_required L (js_get_unsigned L) payload ''price'') (\<lambda>price'.
     rbind (json_get_required L (js_get_unsigned L) payload ''client_id'') (\<lambda>client_id'.
     rbind (json_get_required L (js_get_unsigned L) payload ''cl_ord_id'') (\<lambda>cl_ord_id'.
     rbind (json_get_required L (js_get_unsigned L) payload ''orig_cl_ord_id'') (\<lambda>orig_cl_ord_id'.
     rbind (json_get_optional L (js_get_unsigned L) payload ''security_id'' (default_security_id symbol')) (\<lambda>security_id'.
     rbind (json_get_optional L (get_fixed_string L security_exchange_size) payload ''security_exchange''
              default_security_exchange) (\<lambda>security_exchange'.
     rbind (rbind (json_get_required L (js_get_string L) payload ''side'') decode_side) (\<lambda>side'.
     rbind (if json_contains L payload ''ord_type''
            then rbind (json_get_required L (js_get_string L) payload ''ord_type'') decode_ord_type
            else Inr (ord_type_from_price price')) (\<lambda>ord_type'.
     rbind (if json_contains L payload ''time_in_force''
            then rbind (json_get_required L (js_get_string L) payload ''time_in_force'') decode_time_in_force
            else Inr (time_in_force_from_price price')) (\<lambda>time_in_force'.
     rbind (json_get_required L (js_get_unsigned L) payload ''order_qty'') (\<lambda>order_qty'.
     Inr \<lparr>ro_client_id = client_id', ro_cl_ord_id = cl_ord_id', ro_orig_cl_ord_id = orig_cl_ord_id',
          ro_security_id = security_id', ro_symbol = symbol', ro_security_exchange = security_exchange',
          ro_side = side', ro_ord_type = ord_type', ro_time_in_force = time_in_force',
          ro_order_qty = order_qty', ro_price = price'\<rparr>)))))))))))"

definition decode_cancel_order :: "('j, 'z) json_lib_scheme \<Rightarrow> 'j \<Rightarrow> string + cancel_order" where
  "decode_cancel_order L payload =
     rbind (json_get_required L (js_get_unsigned L) payload ''client_id'') (\<lambda>client_id'.
     rbind (json_get_required L (js_get_unsigned L) payload ''cl_ord_id'') (\<lambda>cl_ord_id'.
     rbind (json_get_required L (js_get_unsigned L) payload ''orig_cl_ord_id'') (\<lambda>orig_cl_ord_id'.
     Inr \<lparr>co_client_id = client_id', co_cl_ord_id = cl_ord_id', co_orig_cl_ord_id = orig_cl_ord_id'\<rparr>)))"

text \<open>\<open>json_decoder::decode\<close>: the body of the try block, and the handler around it.\<close>

definition decode_document :: "('j, 'z) json_lib_scheme \<Rightarrow> string \<Rightarrow> string + request result" where
  "decode_document L payload =
     rbind (js_parse L payload) (\<lambda>document.
     rbind (json_get_required L (js_get_string L) document ''message_type'') (\<lambda>message_type.
     if message_type = ''new_order_single''
     then rbind (decode_new_order L document) (\<lambda>r. Inr (Inr (New_Order_Single r)))
     else if message_type = ''replace_order''
     then rbind (decode_replace_order L document) (\<lambda>r. Inr (Inr (Replace_Order r)))
     else if message_type = ''cancel_order''
     then rbind (decode_cancel_order L document) (\<lambda>r. Inr (Inr (Cancel_Order r)))
     else if message_type = ''flush'' then Inr (Inr Flush)
     else Inr (Inl (Parser_Error (''unknown message_type '' @ [CHR 0x27] @ message_type @ [CHR 0x27])))))"

definition json_decode :: "('j, 'z) json_lib_scheme \<Rightarrow> nat \<Rightarrow> string \<Rightarrow> request result" where
  "json_decode L max_datagram_size payload =
     (if length payload > max_datagram_size
      then Inl (Parser_Error ''datagram exceeds configured maximum size'')
      else (case decode_document L payload of
              Inr r \<Rightarrow> r
            | Inl what \<Rightarrow> Inl (Parser_Error (''json decode failed: '' @ what))))"

section \<open>The session\<close>

text \<open>What the injected decoder may do: return a result, or throw.\<close>

datatype decoder_outcome =
    Returned "request result"
  | Threw_Exception string
  | Threw_Unknown

datatype session_output =
    On_Request request
  | On_Rejected rejection

definition make_rejection :: "string \<Rightarrow> string \<Rightarrow> rejection" where
  "make_rejection what raw_payload = \<lparr>rj_raw_payload = raw_payload, rj_reason = what\<rparr>"

text \<open>The handlers in their order: the structured errors give their own text, any other error the full one.\<close>

fun handle_decoder_error :: "error \<Rightarrow> string \<Rightarrow> rejection" where
  "handle_decoder_error (Invalid_Field n v) packet = make_rejection (payload_what (Invalid_Field n v)) packet"
| "handle_decoder_error (Missing_Field n) packet = make_rejection (payload_what (Missing_Field n)) packet"
| "handle_decoder_error (Parser_Error r) packet = make_rejection (payload_what (Parser_Error r)) packet"
| "handle_decoder_error e packet = make_rejection (error_what e) packet"

definition packet_outcome :: "(string \<Rightarrow> decoder_outcome) \<Rightarrow> string \<Rightarrow> rejection + request" where
  "packet_outcome decode packet =
     (case decode packet of
        Returned (Inr r) \<Rightarrow> Inr r
      | Returned (Inl e) \<Rightarrow> Inl (handle_decoder_error e packet)
      | Threw_Exception what \<Rightarrow> Inl (make_rejection what packet)
      | Threw_Unknown \<Rightarrow> Inl (make_rejection ''unknown decoder failure'' packet))"

definition packet_send :: "(string \<Rightarrow> decoder_outcome) \<Rightarrow> string \<Rightarrow> session_output list" where
  "packet_send decode packet =
     (if trim packet ascii_whitespace = [] then []
      else (case packet_outcome decode packet of
              Inr r \<Rightarrow> [On_Request r]
            | Inl rej \<Rightarrow> [On_Rejected rej]))"

definition json_session :: "('j, 'z) json_lib_scheme \<Rightarrow> nat \<Rightarrow> string \<Rightarrow> session_output list" where
  "json_session L max_datagram_size = packet_send (\<lambda>p. Returned (json_decode L max_datagram_size p))"

end
