(* ===== verification/Order_Client.thy ===== *)
theory Order_Client
  imports Order_Entry_Json Json_Sample
begin

text \<open>
  The order client: its JSON encoder (\<open>order_client/src/json_encoder.cpp\<close>), the UDP sender
  (\<open>order_client/src/udp_sender.cpp\<close>) and the client that joins them (\<open>order_client/src/client.cpp\<close>).
\<close>

section \<open>Encoding\<close>

fun encode_side :: "side \<Rightarrow> string" where
  "encode_side Buy = ''buy''"
| "encode_side Sell = ''sell''"

fun encode_ord_type :: "ord_type \<Rightarrow> string" where
  "encode_ord_type Market = ''market''"
| "encode_ord_type Limit = ''limit''"

fun encode_time_in_force :: "time_in_force \<Rightarrow> string" where
  "encode_time_in_force Day = ''day''"
| "encode_time_in_force Ioc = ''ioc''"

definition new_order_members :: "new_order_single \<Rightarrow> (string \<times> json_field) list" where
  "new_order_members r =
     [(''message_type'', J_String ''new_order_single''),
      (''client_id'', J_Number (nos_client_id r)),
      (''cl_ord_id'', J_Number (nos_cl_ord_id r)),
      (''security_id'', J_Number (nos_security_id r)),
      (''symbol'', J_String (nos_symbol r)),
      (''security_exchange'', J_String (nos_security_exchange r)),
      (''side'', J_String (encode_side (nos_side r))),
      (''ord_type'', J_String (encode_ord_type (nos_ord_type r))),
      (''time_in_force'', J_String (encode_time_in_force (nos_time_in_force r))),
      (''order_qty'', J_Number (nos_order_qty r)),
      (''price'', J_Number (nos_price r))]"

definition replace_members :: "replace_order \<Rightarrow> (string \<times> json_field) list" where
  "replace_members r =
     [(''message_type'', J_String ''replace_order''),
      (''client_id'', J_Number (ro_client_id r)),
      (''cl_ord_id'', J_Number (ro_cl_ord_id r)),
      (''orig_cl_ord_id'', J_Number (ro_orig_cl_ord_id r)),
      (''security_id'', J_Number (ro_security_id r)),
      (''symbol'', J_String (ro_symbol r)),
      (''security_exchange'', J_String (ro_security_exchange r)),
      (''side'', J_String (encode_side (ro_side r))),
      (''ord_type'', J_String (encode_ord_type (ro_ord_type r))),
      (''time_in_force'', J_String (encode_time_in_force (ro_time_in_force r))),
      (''order_qty'', J_Number (ro_order_qty r)),
      (''price'', J_Number (ro_price r))]"

definition cancel_members :: "cancel_order \<Rightarrow> (string \<times> json_field) list" where
  "cancel_members r =
     [(''message_type'', J_String ''cancel_order''),
      (''client_id'', J_Number (co_client_id r)),
      (''cl_ord_id'', J_Number (co_cl_ord_id r)),
      (''orig_cl_ord_id'', J_Number (co_orig_cl_ord_id r))]"

definition flush_members :: "(string \<times> json_field) list" where
  "flush_members = [(''message_type'', J_String ''flush'')]"

fun request_members :: "request \<Rightarrow> (string \<times> json_field) list" where
  "request_members (New_Order_Single r) = new_order_members r"
| "request_members (Replace_Order r) = replace_members r"
| "request_members (Cancel_Order r) = cancel_members r"
| "request_members Flush = flush_members"

definition client_encode :: "('j, 'z) json_lib_scheme \<Rightarrow> request \<Rightarrow> string" where
  "client_encode L r = js_dump L (flat_object L (request_members r))"

section \<open>The UDP sender\<close>

text \<open>
  The network is a parameter: \<open>make_address\<close>, and what opening the socket and sending a datagram
  report at each call. \<open>us_sent\<close> records the datagrams handed to the network.
\<close>

record 'a udp_sender =
  us_address :: string
  us_port :: u16
  us_max_datagram_size :: nat
  us_endpoint :: "'a \<times> u16"
  us_connected :: bool
  us_sent :: "(('a \<times> u16) \<times> string) list"

record 'a network_answers =
  na_open_error :: "'a \<times> u16 \<Rightarrow> string option"
  na_send_error :: "'a \<times> u16 \<Rightarrow> string \<Rightarrow> string option"

definition udp_sender_init :: "string \<Rightarrow> u16 \<Rightarrow> nat \<Rightarrow> 'a \<times> u16 \<Rightarrow> 'a udp_sender" where
  "udp_sender_init address port max_datagram_size unset =
     \<lparr>us_address = address, us_port = port, us_max_datagram_size = max_datagram_size,
      us_endpoint = unset, us_connected = False, us_sent = []\<rparr>"

definition parse_address :: "(string \<Rightarrow> string + 'a) \<Rightarrow> string \<Rightarrow> 'a result" where
  "parse_address make_address txt =
     (case make_address txt of
        Inl message \<Rightarrow> make_leaf_error (Lab_Code Code_Configuration_Error) message
      | Inr address \<Rightarrow> Inr address)"

definition udp_connect ::
  "(string \<Rightarrow> string + 'a) \<Rightarrow> 'a network_answers \<Rightarrow> 'a udp_sender \<Rightarrow> unit result \<times> 'a udp_sender" where
  "udp_connect make_address net st =
     (if us_connected st then (Inr (), st)
      else (case parse_address make_address (us_address st) of
              Inl e \<Rightarrow> (Inl e, st)
            | Inr address \<Rightarrow>
                let st = st\<lparr>us_endpoint := (address, us_port st)\<rparr>
                in (case na_open_error net (us_endpoint st) of
                      Some message \<Rightarrow> (make_leaf_error (Lab_Code Code_Generic_Error) message, st)
                    | None \<Rightarrow> (Inr (), st\<lparr>us_connected := True\<rparr>))))"

definition udp_send ::
  "(string \<Rightarrow> string + 'a) \<Rightarrow> 'a network_answers \<Rightarrow> string \<Rightarrow> 'a udp_sender \<Rightarrow> unit result \<times> 'a udp_sender" where
  "udp_send make_address net payload st =
     (if length payload > us_max_datagram_size st
      then (invalid_argument ''datagram exceeds configured maximum size'', st)
      else (case udp_connect make_address net st of
              (Inl e, st) \<Rightarrow> (Inl e, st)
            | (Inr _, st) \<Rightarrow>
                (case na_send_error net (us_endpoint st) payload of
                   Some message \<Rightarrow> (make_leaf_error (Lab_Code Code_Generic_Error) message, st)
                 | None \<Rightarrow> (Inr (), st\<lparr>us_sent := us_sent st @ [(us_endpoint st, payload)]\<rparr>))))"

section \<open>The client\<close>

definition client_connect ::
  "(string \<Rightarrow> string + 'a) \<Rightarrow> 'a network_answers \<Rightarrow> 'a udp_sender \<Rightarrow> unit result \<times> 'a udp_sender" where
  "client_connect make_address net st = udp_connect make_address net st"

definition client_send ::
  "('j, 'z) json_lib_scheme \<Rightarrow> (string \<Rightarrow> string + 'a) \<Rightarrow> 'a network_answers \<Rightarrow> request \<Rightarrow> 'a udp_sender \<Rightarrow>
   unit result \<times> 'a udp_sender" where
  "client_send L make_address net r st = udp_send make_address net (client_encode L r) st"

section \<open>What the session makes of what the client encodes\<close>

fun request_json_ok :: "request \<Rightarrow> bool" where
  "request_json_ok (New_Order_Single r) =
     (symbol_ok (nos_symbol r) \<and> exchange_ok (nos_security_exchange r) \<and>
      ascii (nos_symbol r) \<and> ascii (nos_security_exchange r))"
| "request_json_ok (Replace_Order r) =
     (symbol_ok (ro_symbol r) \<and> exchange_ok (ro_security_exchange r) \<and>
      ascii (ro_symbol r) \<and> ascii (ro_security_exchange r))"
| "request_json_ok (Cancel_Order r) = True"
| "request_json_ok Flush = True"

lemmas member_defs = new_order_members_def replace_members_def cancel_members_def flush_members_def

lemma decode_encode_values [simp]:
  "decode_side (encode_side v1) = Inr v1"
  "decode_ord_type (encode_ord_type v2) = Inr v2"
  "decode_time_in_force (encode_time_in_force v3) = Inr v3"
  by (cases v1; cases v2; cases v3; simp add: decode_side_def decode_ord_type_def decode_time_in_force_def)+

lemma encode_values_ascii [simp]:
  "ascii (encode_side v1)" "ascii (encode_ord_type v2)" "ascii (encode_time_in_force v3)"
  by (cases v1; cases v2; cases v3; simp add: ascii_def)+

lemma request_members_ok: "request_json_ok r \<Longrightarrow> flat_ok (request_members r)"
proof (cases r)
  case (New_Order_Single x1)
  assume "request_json_ok r"
  with New_Order_Single show ?thesis by (simp add: flat_ok_def new_order_members_def) (simp add: ascii_def)
next
  case (Replace_Order x2)
  assume "request_json_ok r"
  with Replace_Order show ?thesis by (simp add: flat_ok_def replace_members_def) (simp add: ascii_def)
next
  case (Cancel_Order x3)
  then show ?thesis by (simp add: flat_ok_def cancel_members_def ascii_def)
next
  case Flush
  then show ?thesis by (simp add: flat_ok_def flush_members_def ascii_def)
qed

text \<open>Reading a member of a flat object.\<close>

lemma required_member:
  assumes "json_laws L" "distinct (map fst kvs)" "map_of kvs k = Some v"
  shows "json_get_required L get (flat_object L kvs) k = get (field_value L v)"
proof -
  have "js_at L (flat_object L kvs) k = Inr (field_value L v)"
    by (rule json_lawsD(3) [OF assms(1)]) (simp add: json_lawsD(2) assms)
  then show ?thesis by (simp add: json_get_required_def)
qed

lemma optional_member:
  "json_laws L \<Longrightarrow> distinct (map fst kvs) \<Longrightarrow>
   json_get_optional L get (flat_object L kvs) k d =
     (case map_of kvs k of Some v \<Rightarrow> get (field_value L v) | None \<Rightarrow> Inr d)"
  by (simp add: json_get_optional_def json_lawsD(2) split: option.split)

lemma contains_member:
  "json_laws L \<Longrightarrow> distinct (map fst kvs) \<Longrightarrow> json_contains L (flat_object L kvs) k \<longleftrightarrow> k \<in> fst ` set kvs"
  by (simp add: json_contains_def json_lawsD(2) map_of_eq_None_iff)

lemmas flat_access = required_member optional_member contains_member json_lawsD(5) json_lawsD(7)
  get_fixed_string_string symbol_ok_def exchange_ok_def symbol_size_def security_exchange_size_def

lemma decode_new_order_members:
  "json_laws L \<Longrightarrow> symbol_ok (nos_symbol r) \<Longrightarrow> exchange_ok (nos_security_exchange r) \<Longrightarrow>
   decode_new_order L (flat_object L (new_order_members r)) = Inr r"
  by (simp add: decode_new_order_def flat_access new_order_members_def)

lemma decode_replace_members:
  "json_laws L \<Longrightarrow> symbol_ok (ro_symbol r) \<Longrightarrow> exchange_ok (ro_security_exchange r) \<Longrightarrow>
   decode_replace_order L (flat_object L (replace_members r)) = Inr r"
  by (simp add: decode_replace_order_def flat_access replace_members_def)

lemma decode_cancel_members:
  "json_laws L \<Longrightarrow> decode_cancel_order L (flat_object L (cancel_members r)) = Inr r"
  by (simp add: decode_cancel_order_def flat_access cancel_members_def)

lemma message_type_member:
  "json_laws L \<Longrightarrow>
   json_get_required L (js_get_string L) (flat_object L (request_members r)) ''message_type'' =
     Inr (case r of New_Order_Single _ \<Rightarrow> ''new_order_single'' | Replace_Order _ \<Rightarrow> ''replace_order''
          | Cancel_Order _ \<Rightarrow> ''cancel_order'' | Flush \<Rightarrow> ''flush'')"
  by (cases r) (simp_all add: flat_access member_defs)

lemma decode_document_encode:
  assumes "json_laws L" "request_json_ok r"
  shows "decode_document L (client_encode L r) = Inr (Inr r)"
proof -
  have "js_parse L (client_encode L r) = Inr (flat_object L (request_members r))"
    unfolding client_encode_def by (rule json_lawsD(1) [OF assms(1) request_members_ok [OF assms(2)]])
  with assms message_type_member [of L r] show ?thesis
    by (cases r) (simp_all add: decode_document_def decode_new_order_members decode_replace_members decode_cancel_members)
qed

text \<open>
  C14: A request the client encodes is the request the server's decoder returns, whatever JSON
  library implements the documented behaviour, as long as its texts are ASCII and fit their fixed
  strings; a datagram longer than the decoder's limit is refused as such.
\<close>
theorem json_request_roundtrip:
  assumes "json_laws L" "request_json_ok r"
  shows "json_decode L max_datagram_size (client_encode L r) =
     (if length (client_encode L r) \<le> max_datagram_size then Inr r
      else Inl (Parser_Error ''datagram exceeds configured maximum size''))"
  by (simp add: json_decode_def decode_document_encode [OF assms])

definition sample_json_order :: new_order_single where
  "sample_json_order = \<lparr>nos_client_id = 7, nos_cl_ord_id = 1, nos_security_id = 9, nos_symbol = ''PETR4'',
     nos_security_exchange = ''BVMF'', nos_side = Sell, nos_ord_type = Limit, nos_time_in_force = Day,
     nos_order_qty = 50, nos_price = 30\<rparr>"

lemma sample_json_order_ok: "request_json_ok (New_Order_Single sample_json_order)"
  by (simp add: sample_json_order_def symbol_ok_def exchange_ok_def symbol_size_def security_exchange_size_def ascii_def)

lemma sample_json_length: "length (client_encode sample_json (New_Order_Single sample_json_order)) \<le> 400"
  by code_simp

lemma json_request_roundtrip_witness:
  "json_decode sample_json 400 (client_encode sample_json (New_Order_Single sample_json_order)) =
     Inr (New_Order_Single sample_json_order)"
  using json_request_roundtrip [OF sample_json_laws sample_json_order_ok, of 400] sample_json_length by simp

section \<open>What the sender puts on the network\<close>

text \<open>A run of sends, each with the network's answers at that time; which of them succeeded.\<close>

fun udp_run ::
  "(string \<Rightarrow> string + 'a) \<Rightarrow> ('a network_answers \<times> string) list \<Rightarrow> 'a udp_sender \<Rightarrow> bool list \<times> 'a udp_sender" where
  "udp_run make_address [] st = ([], st)"
| "udp_run make_address ((net, payload) # calls) st =
     (let (r, st) = udp_send make_address net payload st;
          (oks, st) = udp_run make_address calls st
      in (is_ok r # oks, st))"

definition sender_ok :: "(string \<Rightarrow> string + 'a) \<Rightarrow> 'a udp_sender \<Rightarrow> bool" where
  "sender_ok make_address st \<longleftrightarrow>
     \<not> us_connected st \<or> (\<exists>a. make_address (us_address st) = Inr a \<and> us_endpoint st = (a, us_port st))"

lemma udp_connect_ok:
  assumes "udp_connect mk net st = (r, st')" "sender_ok mk st"
  shows "sender_ok mk st' \<and> us_address st' = us_address st \<and> us_port st' = us_port st \<and>
    us_max_datagram_size st' = us_max_datagram_size st \<and> us_sent st' = us_sent st \<and>
    (is_ok r \<longrightarrow> us_connected st' \<and> us_endpoint st' = (projr (mk (us_address st)), us_port st))"
  using assms by (auto simp: udp_connect_def parse_address_def sender_ok_def make_leaf_error_def Let_def
      split: if_splits sum.splits option.splits)

lemma udp_send_ok:
  assumes "udp_send mk net payload st = (r, st')" "sender_ok mk st"
  shows "sender_ok mk st' \<and> us_address st' = us_address st \<and> us_port st' = us_port st \<and>
    us_max_datagram_size st' = us_max_datagram_size st \<and>
    us_sent st' = us_sent st @ (if is_ok r then [((projr (mk (us_address st)), us_port st), payload)] else []) \<and>
    (is_ok r \<longrightarrow> length payload \<le> us_max_datagram_size st)"
proof (cases "length payload > us_max_datagram_size st")
  case True
  with assms show ?thesis by (auto simp: udp_send_def make_leaf_error_def)
next
  case False
  obtain rc st1 where c: "udp_connect mk net st = (rc, st1)" by (cases "udp_connect mk net st")
  from udp_connect_ok [OF c assms(2)] False assms(1) c show ?thesis
    by (cases rc) (auto simp: udp_send_def make_leaf_error_def sender_ok_def split: option.splits)
qed

lemma udp_run_ok:
  assumes "sender_ok mk st"
  shows "us_sent (snd (udp_run mk calls st)) =
     us_sent st @ map (\<lambda>(ok, p). ((projr (mk (us_address st)), us_port st), p))
                    (filter fst (zip (fst (udp_run mk calls st)) (map snd calls))) \<and>
     list_all (\<lambda>(ok, p). ok \<longrightarrow> length p \<le> us_max_datagram_size st) (zip (fst (udp_run mk calls st)) (map snd calls))"
  using assms
proof (induction calls arbitrary: st)
  case (Cons call calls)
  obtain net p where call: "call = (net, p)" by (cases call)
  obtain r st1 where s: "udp_send mk net p st = (r, st1)" by (cases "udp_send mk net p st")
  from udp_send_ok [OF s Cons.prems] Cons.IH [of st1] show ?case
    by (cases r) (simp_all add: call s case_prod_beta)
qed simp

text \<open>
  C33: Whatever the network answers, a sender puts on it exactly the payloads of the sends that
  reported success, in the order of the calls, each to the configured endpoint and none longer
  than the limit; a failed send puts nothing on the network and a later one may succeed.
\<close>
theorem datagrams_of_successful_sends:
  "us_sent (snd (udp_run make_address calls (udp_sender_init address port limit unset))) =
     map (\<lambda>(ok, p). ((projr (make_address address), port), p))
       (filter fst (zip (fst (udp_run make_address calls (udp_sender_init address port limit unset))) (map snd calls))) \<and>
   list_all (\<lambda>(to, p). length p \<le> limit) (us_sent (snd (udp_run make_address calls (udp_sender_init address port limit unset))))"
proof -
  let ?st = "udp_sender_init address port limit unset"
  have "sender_ok make_address ?st" by (simp add: sender_ok_def udp_sender_init_def)
  note run = udp_run_ok [OF this, of calls]
  have init: "us_sent ?st = []" "us_address ?st = address" "us_port ?st = port" "us_max_datagram_size ?st = limit"
    by (simp_all add: udp_sender_init_def)
  from run show ?thesis unfolding init by (auto simp: list_all_iff)
qed

text \<open>
  Once a sender has connected, connecting again succeeds without touching the network or the
  sender, and a connection that failed leaves the sender as it was but for the endpoint it tried.
\<close>
lemma connect_is_idempotent:
  assumes "udp_connect make_address net st = (r, st')"
  shows "(is_ok r \<longrightarrow> udp_connect make_address net' st' = (Inr (), st')) \<and>
     (\<not> is_ok r \<longrightarrow> \<not> us_connected st' \<and> st'\<lparr>us_endpoint := us_endpoint st\<rparr> = st)"
  using assms by (auto simp: udp_connect_def parse_address_def make_leaf_error_def Let_def
      split: if_splits sum.splits option.splits)


end
