(* ===== verification/Order_Entry_Session.thy ===== *)
theory Order_Entry_Session
  imports Order_Client
begin

text \<open>
  What the JSON decoder accepts, the defaults it fills in, and the session's one outcome per
  packet; the path from the client's send to the session's request.
\<close>

section \<open>What the decoder accepts\<close>

fun request_bounded :: "request \<Rightarrow> bool" where
  "request_bounded (New_Order_Single r) = (symbol_ok (nos_symbol r) \<and> exchange_ok (nos_security_exchange r))"
| "request_bounded (Replace_Order r) = (symbol_ok (ro_symbol r) \<and> exchange_ok (ro_security_exchange r))"
| "request_bounded (Cancel_Order r) = True"
| "request_bounded Flush = True"

lemma required_symbol:
  "json_get_required L (get_fixed_string L symbol_size) payload k = Inr s \<Longrightarrow> symbol_ok s"
  by (auto simp: json_get_required_def rbind_eq_Inr_iff symbol_ok_def symbol_size_def intro: get_fixed_string_Inr)

lemma optional_exchange:
  "json_get_optional L (get_fixed_string L security_exchange_size) payload k default_security_exchange = Inr x \<Longrightarrow>
   exchange_ok x"
  by (auto simp: json_get_optional_def exchange_ok_def security_exchange_size_def default_security_exchange_def
      split: option.splits intro: get_fixed_string_Inr)

lemma decode_new_order_bounded:
  assumes "decode_new_order L payload = Inr r"
  shows "symbol_ok (nos_symbol r) \<and> exchange_ok (nos_security_exchange r)"
proof -
  from assms have fields: "json_get_required L (get_fixed_string L symbol_size) payload ''symbol'' = Inr (nos_symbol r)"
    "json_get_optional L (get_fixed_string L security_exchange_size) payload ''security_exchange''
       default_security_exchange = Inr (nos_security_exchange r)"
    unfolding decode_new_order_def rbind_eq_Inr_iff by clarsimp+
  from required_symbol [OF fields(1)] optional_exchange [OF fields(2)] show ?thesis by simp
qed

lemma decode_replace_bounded:
  assumes "decode_replace_order L payload = Inr r"
  shows "symbol_ok (ro_symbol r) \<and> exchange_ok (ro_security_exchange r)"
proof -
  from assms have fields: "json_get_required L (get_fixed_string L symbol_size) payload ''symbol'' = Inr (ro_symbol r)"
    "json_get_optional L (get_fixed_string L security_exchange_size) payload ''security_exchange''
       default_security_exchange = Inr (ro_security_exchange r)"
    unfolding decode_replace_order_def rbind_eq_Inr_iff by clarsimp+
  from required_symbol [OF fields(1)] optional_exchange [OF fields(2)] show ?thesis by simp
qed

lemma json_decode_bounded:
  assumes "json_decode L n payload = Inr r"
  shows "length payload \<le> n \<and> request_bounded r"
proof -
  from assms have "length payload \<le> n" and doc: "decode_document L payload = Inr (Inr r)"
    by (auto simp: json_decode_def split: if_splits sum.splits)
  moreover from doc have "request_bounded r"
    unfolding decode_document_def rbind_eq_Inr_iff
    by (auto simp: rbind_eq_Inr_iff split: if_splits dest!: decode_new_order_bounded decode_replace_bounded)
  ultimately show ?thesis by blast
qed

lemma decode_document_error: "decode_document L payload = Inr (Inl e) \<Longrightarrow> \<exists>reason. e = Parser_Error reason"
  unfolding decode_document_def rbind_eq_Inr_iff
  by (clarsimp simp: rbind_eq_Inr_iff split: if_split_asm)

lemma json_decode_error: "json_decode L n payload = Inl e \<Longrightarrow> \<exists>reason. e = Parser_Error reason"
  using decode_document_error [of L payload e]
  by (cases "decode_document L payload") (auto simp: json_decode_def split: if_split_asm)

text \<open>
  C34: Whatever a JSON library makes of a datagram, a request the decoder returns came from a
  datagram within the limit and has a symbol and an exchange that fit; any failure is a parser
  error, so the rejection a client sees gives its reason after that prefix.
\<close>
theorem decoded_requests_bounded:
  "(\<exists>r. json_decode L n payload = Inr r \<and> length payload \<le> n \<and> request_bounded r) \<or>
   (\<exists>reason. json_decode L n payload = Inl (Parser_Error reason) \<and>
      handle_decoder_error (Parser_Error reason) payload =
        \<lparr>rj_raw_payload = payload, rj_reason = ''parser error: '' @ reason\<rparr>)"
proof (cases "json_decode L n payload")
  case (Inl e)
  with json_decode_error [OF Inl] show ?thesis by (auto simp: make_rejection_def)
next
  case (Inr r)
  with json_decode_bounded [OF Inr] show ?thesis by auto
qed

text \<open>The members a client may leave out.\<close>

definition short_members :: "client_id \<Rightarrow> cl_ord_id \<Rightarrow> symbol \<Rightarrow> side \<Rightarrow> quantity \<Rightarrow> price \<Rightarrow> (string \<times> json_field) list" where
  "short_members c i s d q p =
     [(''message_type'', J_String ''new_order_single''), (''client_id'', J_Number c), (''cl_ord_id'', J_Number i),
      (''symbol'', J_String s), (''side'', J_String (encode_side d)), (''order_qty'', J_Number q), (''price'', J_Number p)]"

text \<open>
  A new order that leaves out what has a default is a market order, immediate or cancel, when
  its price is zero and a day limit order otherwise, with security id zero on exchange BVMF.
\<close>
lemma short_order_defaults:
  assumes "json_laws L" "symbol_ok s"
  shows "decode_new_order L (flat_object L (short_members c i s d q p)) =
     Inr \<lparr>nos_client_id = c, nos_cl_ord_id = i, nos_security_id = 0, nos_symbol = s,
          nos_security_exchange = ''BVMF'', nos_side = d,
          nos_ord_type = (if p = 0 then Market else Limit),
          nos_time_in_force = (if p = 0 then Ioc else Day), nos_order_qty = q, nos_price = p\<rparr>"
  using assms by (simp add: decode_new_order_def flat_access short_members_def default_security_exchange_def
      default_security_id_def ord_type_from_price_def time_in_force_from_price_def)


section \<open>The session\<close>

lemma trim_empty_iff: "trim packet ascii_whitespace = [] \<longleftrightarrow> blank packet"
proof (cases "dropWhile (\<lambda>c. c \<in> set ascii_whitespace) packet = []")
  case True
  then have "\<forall>x\<in>set packet. x \<in> set ascii_whitespace" by simp
  then show ?thesis unfolding trim_def ltrim_eq True rtrim_eq blank_def list_all_iff by simp
next
  case False
  then have "hd (dropWhile (\<lambda>c. c \<in> set ascii_whitespace) packet) \<notin> set ascii_whitespace" by (rule hd_dropWhile)
  moreover have "hd (dropWhile (\<lambda>c. c \<in> set ascii_whitespace) packet) \<in> set (dropWhile (\<lambda>c. c \<in> set ascii_whitespace) packet)"
    using False by (rule hd_in_set)
  moreover have "set (dropWhile (\<lambda>c. c \<in> set ascii_whitespace) packet) \<subseteq> set packet"
    using set_dropWhileD by fastforce
  ultimately show ?thesis unfolding trim_def ltrim_eq rtrim_eq blank_def list_all_iff by auto
qed

text \<open>
  Every packet that is not blank produces exactly one output: the request the decoder
  returned, or a rejection that carries the packet; a blank packet produces nothing, and the
  decoder is not asked. This holds for any decoder, also one that throws.
\<close>
lemma one_outcome_per_packet:
  "packet_send decode packet =
     (if blank packet then []
      else (case decode packet of
              Returned (Inr r) \<Rightarrow> [On_Request r]
            | Returned (Inl e) \<Rightarrow> [On_Rejected (handle_decoder_error e packet)]
            | Threw_Exception what \<Rightarrow> [On_Rejected \<lparr>rj_raw_payload = packet, rj_reason = what\<rparr>]
            | Threw_Unknown \<Rightarrow> [On_Rejected \<lparr>rj_raw_payload = packet, rj_reason = ''unknown decoder failure''\<rparr>])) \<and>
   rj_raw_payload (handle_decoder_error e packet) = packet"
proof
  show "packet_send decode packet =
     (if blank packet then []
      else (case decode packet of
              Returned (Inr r) \<Rightarrow> [On_Request r]
            | Returned (Inl e) \<Rightarrow> [On_Rejected (handle_decoder_error e packet)]
            | Threw_Exception what \<Rightarrow> [On_Rejected \<lparr>rj_raw_payload = packet, rj_reason = what\<rparr>]
            | Threw_Unknown \<Rightarrow> [On_Rejected \<lparr>rj_raw_payload = packet, rj_reason = ''unknown decoder failure''\<rparr>]))"
    by (auto simp: packet_send_def trim_empty_iff packet_outcome_def make_rejection_def split: decoder_outcome.split sum.split)
  show "rj_raw_payload (handle_decoder_error e packet) = packet" by (cases e) (simp_all add: make_rejection_def)
qed

section \<open>From the client to the session\<close>

text \<open>
  When the client's send succeeds, the datagram it put on the network is one the server's
  session turns into exactly the request that was sent, if the server's limit is no smaller.
\<close>
lemma client_reaches_session:
  assumes "json_laws L" "request_json_ok r" "sender_ok make_address st"
    and "client_send L make_address net r st = (Inr (), st')" "us_max_datagram_size st \<le> n"
  shows "\<exists>to payload. us_sent st' = us_sent st @ [(to, payload)] \<and> json_session L n payload = [On_Request r]"
proof -
  let ?p = "client_encode L r"
  from udp_send_ok [OF assms(4) [unfolded client_send_def] assms(3)] obtain to where
    sent: "us_sent st' = us_sent st @ [(to, ?p)]" and len: "length ?p \<le> n" using assms(5) by auto
  have doc: "decode_document L ?p = Inr (Inr r)" by (rule decode_document_encode [OF assms(1,2)])
  have "\<not> blank ?p"
  proof
    assume "blank ?p"
    with json_lawsD(9) [OF assms(1)] obtain what where "js_parse L ?p = Inl what" by blast
    with doc show False by (simp add: decode_document_def)
  qed
  with doc len have "json_session L n ?p = [On_Request r]"
    by (simp add: json_session_def packet_send_def trim_empty_iff packet_outcome_def json_decode_def)
  with sent show ?thesis by blast
qed


end
