(* ===== verification/Mmd.thy ===== *)
theory Mmd
  imports Market_Data
begin

text \<open>
  The market-data routing vocabulary (\<open>mmd/messages.hpp\<close>, \<open>mmd/src/conversions.cpp\<close>), its FIX messages
  (\<open>mmdfix\<close>) and the capturing sink (\<open>mmd_transport\<close>).
\<close>

section \<open>Messages\<close>

record mmd_security_definition =
  mmd_sd_security_id :: md_security_id
  mmd_sd_symbol :: string
  mmd_sd_security_exchange :: string
  mmd_sd_security_group :: string
  mmd_sd_security_type :: string
  mmd_sd_security_subtype :: "string option"
  mmd_sd_min_price_increment :: md_price
  mmd_sd_round_lot :: md_quantity
  mmd_sd_currency :: string

record mmd_security_status =
  mmd_ss_security_id :: md_security_id
  mmd_ss_security_exchange :: string
  mmd_ss_trading_session_id :: string
  mmd_ss_security_trading_status :: security_trading_status
  mmd_ss_security_trading_event :: security_trading_event
  mmd_ss_transact_time :: md_timestamp

record mmd_execution_summary =
  mmd_es_security_id :: md_security_id
  mmd_es_aggressor_side :: md_side
  mmd_es_last_px :: md_price
  mmd_es_fill_qty :: md_quantity
  mmd_es_traded_hidden_qty :: "md_quantity option"
  mmd_es_cancel_qty :: "md_quantity option"
  mmd_es_aggressor_time :: md_timestamp
  mmd_es_transact_time :: md_timestamp

record mmd_trade =
  mmd_tr_security_id :: md_security_id
  mmd_tr_trade_id :: trade_id
  mmd_tr_price :: md_price
  mmd_tr_quantity :: md_quantity
  mmd_tr_buyer :: "md_order_id option"
  mmd_tr_seller :: "md_order_id option"
  mmd_tr_trade_condition :: trade_condition
  mmd_tr_trade_sub_type :: "trade_sub_type option"
  mmd_tr_trade_date :: trade_date
  mmd_tr_transact_time :: md_timestamp

record mmd_mbo_book_update =
  mmd_mb_security_id :: md_security_id
  mmd_mb_update_action :: update_action
  mmd_mb_side :: md_side
  mmd_mb_resting_order_id :: md_order_id
  mmd_mb_price :: "md_price option"
  mmd_mb_quantity :: "md_quantity option"
  mmd_mb_previous_quantity :: "md_quantity option"
  mmd_mb_transact_time :: md_timestamp

datatype mmd_message =
    Mmd_Security_Definition mmd_security_definition
  | Mmd_Security_Status mmd_security_status
  | Mmd_Execution_Summary mmd_execution_summary
  | Mmd_Trade mmd_trade
  | Mmd_Mbo_Book_Update mmd_mbo_book_update

section \<open>Conversions\<close>

definition to_mmd_security_definition :: "security_definition \<Rightarrow> mmd_security_definition" where
  "to_mmd_security_definition m =
    \<lparr>mmd_sd_security_id = sd_security_id m,
     mmd_sd_symbol = sd_symbol m,
     mmd_sd_security_exchange = sd_security_exchange m,
     mmd_sd_security_group = sd_security_group m,
     mmd_sd_security_type = sd_security_type m,
     mmd_sd_security_subtype = sd_security_subtype m,
     mmd_sd_min_price_increment = sd_min_price_increment m,
     mmd_sd_round_lot = sd_round_lot m,
     mmd_sd_currency = sd_currency m\<rparr>"

definition to_mmd_security_status :: "security_status \<Rightarrow> mmd_security_status" where
  "to_mmd_security_status m =
    \<lparr>mmd_ss_security_id = ss_security_id m,
     mmd_ss_security_exchange = ss_security_exchange m,
     mmd_ss_trading_session_id = ss_trading_session_id m,
     mmd_ss_security_trading_status = ss_security_trading_status m,
     mmd_ss_security_trading_event = ss_security_trading_event m,
     mmd_ss_transact_time = ss_transact_time m\<rparr>"

definition to_mmd_execution_summary :: "md_execution_summary \<Rightarrow> mmd_execution_summary" where
  "to_mmd_execution_summary m =
    \<lparr>mmd_es_security_id = es_security_id m,
     mmd_es_aggressor_side = es_aggressor_side m,
     mmd_es_last_px = es_last_px m,
     mmd_es_fill_qty = es_fill_qty m,
     mmd_es_traded_hidden_qty = es_traded_hidden_qty m,
     mmd_es_cancel_qty = es_cancel_qty m,
     mmd_es_aggressor_time = es_aggressor_time m,
     mmd_es_transact_time = es_transact_time m\<rparr>"

definition to_mmd_trade :: "trade \<Rightarrow> mmd_trade" where
  "to_mmd_trade m =
    \<lparr>mmd_tr_security_id = tr_security_id m,
     mmd_tr_trade_id = tr_trade_id m,
     mmd_tr_price = tr_price m,
     mmd_tr_quantity = tr_quantity m,
     mmd_tr_buyer = tr_buyer m,
     mmd_tr_seller = tr_seller m,
     mmd_tr_trade_condition = tr_trade_condition m,
     mmd_tr_trade_sub_type = tr_trade_sub_type m,
     mmd_tr_trade_date = tr_trade_date m,
     mmd_tr_transact_time = tr_transact_time m\<rparr>"

definition to_mmd_mbo_book_update :: "mbo_book_update \<Rightarrow> mmd_mbo_book_update" where
  "to_mmd_mbo_book_update m =
    \<lparr>mmd_mb_security_id = mb_security_id m,
     mmd_mb_update_action = mb_update_action m,
     mmd_mb_side = mb_side m,
     mmd_mb_resting_order_id = mb_resting_order_id m,
     mmd_mb_price = mb_price m,
     mmd_mb_quantity = mb_quantity m,
     mmd_mb_previous_quantity = mb_previous_quantity m,
     mmd_mb_transact_time = mb_transact_time m\<rparr>"

fun to_mmd :: "message \<Rightarrow> mmd_message" where
  "to_mmd (Security_Definition m) = Mmd_Security_Definition (to_mmd_security_definition m)"
| "to_mmd (Security_Status m) = Mmd_Security_Status (to_mmd_security_status m)"
| "to_mmd (Execution_Summary m) = Mmd_Execution_Summary (to_mmd_execution_summary m)"
| "to_mmd (Trade m) = Mmd_Trade (to_mmd_trade m)"
| "to_mmd (Mbo_Book_Update m) = Mmd_Mbo_Book_Update (to_mmd_mbo_book_update m)"

definition to_market_data_security_definition :: "mmd_security_definition \<Rightarrow> security_definition" where
  "to_market_data_security_definition m =
    \<lparr>sd_security_id = mmd_sd_security_id m,
     sd_symbol = mmd_sd_symbol m,
     sd_security_exchange = mmd_sd_security_exchange m,
     sd_security_group = mmd_sd_security_group m,
     sd_security_type = mmd_sd_security_type m,
     sd_security_subtype = mmd_sd_security_subtype m,
     sd_min_price_increment = mmd_sd_min_price_increment m,
     sd_round_lot = mmd_sd_round_lot m,
     sd_currency = mmd_sd_currency m\<rparr>"

definition to_market_data_security_status :: "mmd_security_status \<Rightarrow> security_status" where
  "to_market_data_security_status m =
    \<lparr>ss_security_id = mmd_ss_security_id m,
     ss_security_exchange = mmd_ss_security_exchange m,
     ss_trading_session_id = mmd_ss_trading_session_id m,
     ss_security_trading_status = mmd_ss_security_trading_status m,
     ss_security_trading_event = mmd_ss_security_trading_event m,
     ss_transact_time = mmd_ss_transact_time m\<rparr>"

definition to_market_data_execution_summary :: "mmd_execution_summary \<Rightarrow> md_execution_summary" where
  "to_market_data_execution_summary m =
    \<lparr>es_security_id = mmd_es_security_id m,
     es_aggressor_side = mmd_es_aggressor_side m,
     es_last_px = mmd_es_last_px m,
     es_fill_qty = mmd_es_fill_qty m,
     es_traded_hidden_qty = mmd_es_traded_hidden_qty m,
     es_cancel_qty = mmd_es_cancel_qty m,
     es_aggressor_time = mmd_es_aggressor_time m,
     es_transact_time = mmd_es_transact_time m\<rparr>"

definition to_market_data_trade :: "mmd_trade \<Rightarrow> trade" where
  "to_market_data_trade m =
    \<lparr>tr_security_id = mmd_tr_security_id m,
     tr_trade_id = mmd_tr_trade_id m,
     tr_price = mmd_tr_price m,
     tr_quantity = mmd_tr_quantity m,
     tr_buyer = mmd_tr_buyer m,
     tr_seller = mmd_tr_seller m,
     tr_trade_condition = mmd_tr_trade_condition m,
     tr_trade_sub_type = mmd_tr_trade_sub_type m,
     tr_trade_date = mmd_tr_trade_date m,
     tr_transact_time = mmd_tr_transact_time m\<rparr>"

definition to_market_data_mbo_book_update :: "mmd_mbo_book_update \<Rightarrow> mbo_book_update" where
  "to_market_data_mbo_book_update m =
    \<lparr>mb_security_id = mmd_mb_security_id m,
     mb_update_action = mmd_mb_update_action m,
     mb_side = mmd_mb_side m,
     mb_resting_order_id = mmd_mb_resting_order_id m,
     mb_price = mmd_mb_price m,
     mb_quantity = mmd_mb_quantity m,
     mb_previous_quantity = mmd_mb_previous_quantity m,
     mb_transact_time = mmd_mb_transact_time m\<rparr>"

fun to_market_data :: "mmd_message \<Rightarrow> message" where
  "to_market_data (Mmd_Security_Definition m) = Security_Definition (to_market_data_security_definition m)"
| "to_market_data (Mmd_Security_Status m) = Security_Status (to_market_data_security_status m)"
| "to_market_data (Mmd_Execution_Summary m) = Execution_Summary (to_market_data_execution_summary m)"
| "to_market_data (Mmd_Trade m) = Trade (to_market_data_trade m)"
| "to_market_data (Mmd_Mbo_Book_Update m) = Mbo_Book_Update (to_market_data_mbo_book_update m)"

lemmas mmd_conversion_defs =
  to_mmd_security_definition_def to_market_data_security_definition_def
  to_mmd_security_status_def to_market_data_security_status_def
  to_mmd_execution_summary_def to_market_data_execution_summary_def
  to_mmd_trade_def to_market_data_trade_def
  to_mmd_mbo_book_update_def to_market_data_mbo_book_update_def

lemma market_data_of_mmd [simp]: "to_market_data (to_mmd m) = m"
  by (cases m) (simp_all add: mmd_conversion_defs)

lemma mmd_of_market_data [simp]: "to_mmd (to_market_data m) = m"
  by (cases m) (simp_all add: mmd_conversion_defs)

section \<open>FIX market data\<close>

record market_data_incremental_refresh =
  ir_security_id :: md_security_id
  ir_side :: md_side
  ir_update_action :: update_action
  ir_price :: "md_price option"
  ir_quantity :: "md_quantity option"
  ir_transact_time :: md_timestamp

record trade_capture_report =
  tc_security_id :: md_security_id
  tc_trade_id :: trade_id
  tc_price :: md_price
  tc_quantity :: md_quantity
  tc_trade_date :: trade_date
  tc_transact_time :: md_timestamp

datatype fix_md_message =
    Market_Data_Incremental_Refresh market_data_incremental_refresh
  | Trade_Capture_Report trade_capture_report

definition to_fix_refresh :: "mmd_mbo_book_update \<Rightarrow> market_data_incremental_refresh" where
  "to_fix_refresh e =
    \<lparr>ir_security_id = mmd_mb_security_id e, ir_side = mmd_mb_side e, ir_update_action = mmd_mb_update_action e,
     ir_price = mmd_mb_price e, ir_quantity = mmd_mb_quantity e, ir_transact_time = mmd_mb_transact_time e\<rparr>"

definition to_fix_trade :: "mmd_trade \<Rightarrow> trade_capture_report" where
  "to_fix_trade e =
    \<lparr>tc_security_id = mmd_tr_security_id e, tc_trade_id = mmd_tr_trade_id e, tc_price = mmd_tr_price e,
     tc_quantity = mmd_tr_quantity e, tc_trade_date = mmd_tr_trade_date e,
     tc_transact_time = mmd_tr_transact_time e\<rparr>"

section \<open>capture_sink\<close>

record capture_sink =
  sink_records :: "string list"

definition empty_sink :: capture_sink where
  "empty_sink = \<lparr>sink_records = []\<rparr>"

definition sink_publish :: "string \<Rightarrow> capture_sink \<Rightarrow> capture_sink" where
  "sink_publish encoded_record st = st\<lparr>sink_records := sink_records st @ [encoded_record]\<rparr>"

definition records :: "capture_sink \<Rightarrow> string list" where
  "records st = sink_records st"

lemma records_foldl:
  "records (foldl (\<lambda>st r. sink_publish r st) st rs) = records st @ rs"
  by (induction rs arbitrary: st) (simp_all add: sink_publish_def records_def)

end
