(* ===== verification/Md_Json.thy ===== *)
theory Md_Json
  imports Mmd Json_Sample
begin

text \<open>
  The two JSON encoders of market data: \<open>market_data/src/json_encoder.cpp\<close> for the engine's messages
  and \<open>mmd_json/src/json_encoder.cpp\<close> for the routing messages. An empty optional is written as null.
\<close>

fun opt_number :: "u64 option \<Rightarrow> json_field" where
  "opt_number None = J_Null"
| "opt_number (Some n) = J_Number n"

fun opt_string :: "string option \<Rightarrow> json_field" where
  "opt_string None = J_Null"
| "opt_string (Some s) = J_String s"

section \<open>market_data\<close>

fun md_encode_side :: "md_side \<Rightarrow> string" where
  "md_encode_side Md_Buy = ''buy''"
| "md_encode_side Md_Sell = ''sell''"

fun md_encode_update_action :: "update_action \<Rightarrow> string" where
  "md_encode_update_action Action_New_Order = ''new_order''"
| "md_encode_update_action Action_Change = ''change''"
| "md_encode_update_action Action_Delete_Order = ''delete_order''"

fun md_encode_security_trading_status :: "security_trading_status \<Rightarrow> string" where
  "md_encode_security_trading_status Trading_Open = ''open''"
| "md_encode_security_trading_status Trading_Closed = ''closed''"
| "md_encode_security_trading_status Trading_Halted = ''halted''"

fun md_encode_security_trading_event :: "security_trading_event \<Rightarrow> string" where
  "md_encode_security_trading_event Event_None = ''none''"
| "md_encode_security_trading_event Event_Trading_Resume = ''trading_resume''"
| "md_encode_security_trading_event Event_Trading_Halt = ''trading_halt''"

fun md_encode_trade_condition :: "trade_condition \<Rightarrow> string" where
  "md_encode_trade_condition Condition_Regular = ''regular''"

fun md_encode_trade_sub_type :: "trade_sub_type \<Rightarrow> string" where
  "md_encode_trade_sub_type Sub_Type_Regular = ''regular''"

definition md_security_definition_members :: "security_definition \<Rightarrow> (string \<times> json_field) list" where
  "md_security_definition_members m =
     [(''message_type'', J_String ''security_definition''),
      (''security_id'', J_Number (sd_security_id m)),
      (''symbol'', J_String (sd_symbol m)),
      (''security_exchange'', J_String (sd_security_exchange m)),
      (''security_group'', J_String (sd_security_group m)),
      (''security_type'', J_String (sd_security_type m)),
      (''security_subtype'', opt_string (sd_security_subtype m)),
      (''min_price_increment'', J_Number (sd_min_price_increment m)),
      (''round_lot'', J_Number (sd_round_lot m)),
      (''currency'', J_String (sd_currency m))]"

definition md_security_status_members :: "security_status \<Rightarrow> (string \<times> json_field) list" where
  "md_security_status_members m =
     [(''message_type'', J_String ''security_status''),
      (''security_id'', J_Number (ss_security_id m)),
      (''security_exchange'', J_String (ss_security_exchange m)),
      (''trading_session_id'', J_String (ss_trading_session_id m)),
      (''security_trading_status'', J_String (md_encode_security_trading_status (ss_security_trading_status m))),
      (''security_trading_event'', J_String (md_encode_security_trading_event (ss_security_trading_event m))),
      (''transact_time'', J_Number (ss_transact_time m))]"

definition md_execution_summary_members :: "md_execution_summary \<Rightarrow> (string \<times> json_field) list" where
  "md_execution_summary_members m =
     [(''message_type'', J_String ''execution_summary''),
      (''security_id'', J_Number (es_security_id m)),
      (''aggressor_side'', J_String (md_encode_side (es_aggressor_side m))),
      (''last_px'', J_Number (es_last_px m)),
      (''fill_qty'', J_Number (es_fill_qty m)),
      (''traded_hidden_qty'', opt_number (es_traded_hidden_qty m)),
      (''cancel_qty'', opt_number (es_cancel_qty m)),
      (''aggressor_time'', J_Number (es_aggressor_time m)),
      (''transact_time'', J_Number (es_transact_time m))]"

definition md_trade_members :: "trade \<Rightarrow> (string \<times> json_field) list" where
  "md_trade_members m =
     [(''message_type'', J_String ''trade''),
      (''security_id'', J_Number (tr_security_id m)),
      (''trade_id'', J_Number (tr_trade_id m)),
      (''price'', J_Number (tr_price m)),
      (''quantity'', J_Number (tr_quantity m)),
      (''buyer'', opt_number (tr_buyer m)),
      (''seller'', opt_number (tr_seller m)),
      (''trade_condition'', J_String (md_encode_trade_condition (tr_trade_condition m))),
      (''trade_sub_type'', opt_string (map_option md_encode_trade_sub_type (tr_trade_sub_type m))),
      (''trade_date'', J_String (tr_trade_date m)),
      (''transact_time'', J_Number (tr_transact_time m))]"

definition md_mbo_book_update_members :: "mbo_book_update \<Rightarrow> (string \<times> json_field) list" where
  "md_mbo_book_update_members m =
     [(''message_type'', J_String ''mbo_book_update''),
      (''security_id'', J_Number (mb_security_id m)),
      (''update_action'', J_String (md_encode_update_action (mb_update_action m))),
      (''side'', J_String (md_encode_side (mb_side m))),
      (''resting_order_id'', J_Number (mb_resting_order_id m)),
      (''price'', opt_number (mb_price m)),
      (''quantity'', opt_number (mb_quantity m)),
      (''previous_quantity'', opt_number (mb_previous_quantity m)),
      (''transact_time'', J_Number (mb_transact_time m))]"

fun md_members :: "message \<Rightarrow> (string \<times> json_field) list" where
  "md_members (Security_Definition m) = md_security_definition_members m"
| "md_members (Security_Status m) = md_security_status_members m"
| "md_members (Execution_Summary m) = md_execution_summary_members m"
| "md_members (Trade m) = md_trade_members m"
| "md_members (Mbo_Book_Update m) = md_mbo_book_update_members m"

definition md_encode :: "('j, 'z) json_lib_scheme \<Rightarrow> message \<Rightarrow> string" where
  "md_encode L m = js_dump L (flat_object L (md_members m))"

section \<open>mmd_json\<close>

fun mmd_encode_side :: "md_side \<Rightarrow> string" where
  "mmd_encode_side Md_Buy = ''buy''"
| "mmd_encode_side Md_Sell = ''sell''"

fun mmd_encode_update_action :: "update_action \<Rightarrow> string" where
  "mmd_encode_update_action Action_New_Order = ''new_order''"
| "mmd_encode_update_action Action_Change = ''change''"
| "mmd_encode_update_action Action_Delete_Order = ''delete_order''"

fun mmd_encode_security_trading_status :: "security_trading_status \<Rightarrow> string" where
  "mmd_encode_security_trading_status Trading_Open = ''open''"
| "mmd_encode_security_trading_status Trading_Closed = ''closed''"
| "mmd_encode_security_trading_status Trading_Halted = ''halted''"

fun mmd_encode_security_trading_event :: "security_trading_event \<Rightarrow> string" where
  "mmd_encode_security_trading_event Event_None = ''none''"
| "mmd_encode_security_trading_event Event_Trading_Resume = ''trading_resume''"
| "mmd_encode_security_trading_event Event_Trading_Halt = ''trading_halt''"

fun mmd_encode_trade_condition :: "trade_condition \<Rightarrow> string" where
  "mmd_encode_trade_condition Condition_Regular = ''regular''"

fun mmd_encode_trade_sub_type :: "trade_sub_type \<Rightarrow> string" where
  "mmd_encode_trade_sub_type Sub_Type_Regular = ''regular''"

definition mmd_security_definition_members :: "mmd_security_definition \<Rightarrow> (string \<times> json_field) list" where
  "mmd_security_definition_members m =
     [(''message_type'', J_String ''security_definition''),
      (''security_id'', J_Number (mmd_sd_security_id m)),
      (''symbol'', J_String (mmd_sd_symbol m)),
      (''security_exchange'', J_String (mmd_sd_security_exchange m)),
      (''security_group'', J_String (mmd_sd_security_group m)),
      (''security_type'', J_String (mmd_sd_security_type m)),
      (''security_subtype'', opt_string (mmd_sd_security_subtype m)),
      (''min_price_increment'', J_Number (mmd_sd_min_price_increment m)),
      (''round_lot'', J_Number (mmd_sd_round_lot m)),
      (''currency'', J_String (mmd_sd_currency m))]"

definition mmd_security_status_members :: "mmd_security_status \<Rightarrow> (string \<times> json_field) list" where
  "mmd_security_status_members m =
     [(''message_type'', J_String ''security_status''),
      (''security_id'', J_Number (mmd_ss_security_id m)),
      (''security_exchange'', J_String (mmd_ss_security_exchange m)),
      (''trading_session_id'', J_String (mmd_ss_trading_session_id m)),
      (''security_trading_status'', J_String (mmd_encode_security_trading_status (mmd_ss_security_trading_status m))),
      (''security_trading_event'', J_String (mmd_encode_security_trading_event (mmd_ss_security_trading_event m))),
      (''transact_time'', J_Number (mmd_ss_transact_time m))]"

definition mmd_execution_summary_members :: "mmd_execution_summary \<Rightarrow> (string \<times> json_field) list" where
  "mmd_execution_summary_members m =
     [(''message_type'', J_String ''execution_summary''),
      (''security_id'', J_Number (mmd_es_security_id m)),
      (''aggressor_side'', J_String (mmd_encode_side (mmd_es_aggressor_side m))),
      (''last_px'', J_Number (mmd_es_last_px m)),
      (''fill_qty'', J_Number (mmd_es_fill_qty m)),
      (''traded_hidden_qty'', opt_number (mmd_es_traded_hidden_qty m)),
      (''cancel_qty'', opt_number (mmd_es_cancel_qty m)),
      (''aggressor_time'', J_Number (mmd_es_aggressor_time m)),
      (''transact_time'', J_Number (mmd_es_transact_time m))]"

definition mmd_trade_members :: "mmd_trade \<Rightarrow> (string \<times> json_field) list" where
  "mmd_trade_members m =
     [(''message_type'', J_String ''trade''),
      (''security_id'', J_Number (mmd_tr_security_id m)),
      (''trade_id'', J_Number (mmd_tr_trade_id m)),
      (''price'', J_Number (mmd_tr_price m)),
      (''quantity'', J_Number (mmd_tr_quantity m)),
      (''buyer'', opt_number (mmd_tr_buyer m)),
      (''seller'', opt_number (mmd_tr_seller m)),
      (''trade_condition'', J_String (mmd_encode_trade_condition (mmd_tr_trade_condition m))),
      (''trade_sub_type'', opt_string (map_option mmd_encode_trade_sub_type (mmd_tr_trade_sub_type m))),
      (''trade_date'', J_String (mmd_tr_trade_date m)),
      (''transact_time'', J_Number (mmd_tr_transact_time m))]"

definition mmd_mbo_book_update_members :: "mmd_mbo_book_update \<Rightarrow> (string \<times> json_field) list" where
  "mmd_mbo_book_update_members m =
     [(''message_type'', J_String ''mbo_book_update''),
      (''security_id'', J_Number (mmd_mb_security_id m)),
      (''update_action'', J_String (mmd_encode_update_action (mmd_mb_update_action m))),
      (''side'', J_String (mmd_encode_side (mmd_mb_side m))),
      (''resting_order_id'', J_Number (mmd_mb_resting_order_id m)),
      (''price'', opt_number (mmd_mb_price m)),
      (''quantity'', opt_number (mmd_mb_quantity m)),
      (''previous_quantity'', opt_number (mmd_mb_previous_quantity m)),
      (''transact_time'', J_Number (mmd_mb_transact_time m))]"

fun mmd_members :: "mmd_message \<Rightarrow> (string \<times> json_field) list" where
  "mmd_members (Mmd_Security_Definition m) = mmd_security_definition_members m"
| "mmd_members (Mmd_Security_Status m) = mmd_security_status_members m"
| "mmd_members (Mmd_Execution_Summary m) = mmd_execution_summary_members m"
| "mmd_members (Mmd_Trade m) = mmd_trade_members m"
| "mmd_members (Mmd_Mbo_Book_Update m) = mmd_mbo_book_update_members m"

definition mmd_encode :: "('j, 'z) json_lib_scheme \<Rightarrow> mmd_message \<Rightarrow> string" where
  "mmd_encode L m = js_dump L (flat_object L (mmd_members m))"

section \<open>The two encoders agree\<close>

lemma mmd_encode_enums [simp]:
  "mmd_encode_side = md_encode_side"
  "mmd_encode_update_action = md_encode_update_action"
  "mmd_encode_security_trading_status = md_encode_security_trading_status"
  "mmd_encode_security_trading_event = md_encode_security_trading_event"
  "mmd_encode_trade_condition = md_encode_trade_condition"
  "mmd_encode_trade_sub_type = md_encode_trade_sub_type"
  by (rule ext, case_tac x; simp)+

lemmas md_members_defs =
  md_security_definition_members_def mmd_security_definition_members_def
  md_security_status_members_def mmd_security_status_members_def
  md_execution_summary_members_def mmd_execution_summary_members_def
  md_trade_members_def mmd_trade_members_def
  md_mbo_book_update_members_def mmd_mbo_book_update_members_def

lemma mmd_members_eq: "mmd_members (to_mmd m) = md_members m"
  by (cases m) (simp_all add: md_members_defs mmd_conversion_defs)

text \<open>
  C39: The JSON a routing message is published as is the JSON of the engine's message it was
  converted from, character by character, and conversely.
\<close>
theorem mmd_json_is_market_data_json:
  "mmd_encode L (to_mmd m) = md_encode L m \<and> md_encode L (to_market_data m') = mmd_encode L m'"
  using mmd_members_eq [of m] mmd_members_eq [of "to_market_data m'"] by (simp add: mmd_encode_def md_encode_def)

section \<open>Nothing is lost\<close>

text \<open>The texts of a message, all of which must be ASCII for the library to write them as they are.\<close>

fun message_ascii :: "message \<Rightarrow> bool" where
  "message_ascii (Security_Definition m) = (ascii (sd_symbol m) \<and> ascii (sd_security_exchange m) \<and> ascii (sd_security_group m) \<and> ascii (sd_security_type m) \<and> pred_option ascii (sd_security_subtype m) \<and> ascii (sd_currency m))"
| "message_ascii (Security_Status m) = (ascii (ss_security_exchange m) \<and> ascii (ss_trading_session_id m))"
| "message_ascii (Execution_Summary m) = (True)"
| "message_ascii (Trade m) = (ascii (tr_trade_date m))"
| "message_ascii (Mbo_Book_Update m) = (True)"

lemma md_encode_inject [simp]:
  "md_encode_side v1 = md_encode_side v1' \<longleftrightarrow> v1 = v1'"
  "md_encode_update_action v2 = md_encode_update_action v2' \<longleftrightarrow> v2 = v2'"
  "md_encode_security_trading_status v3 = md_encode_security_trading_status v3' \<longleftrightarrow> v3 = v3'"
  "md_encode_security_trading_event v4 = md_encode_security_trading_event v4' \<longleftrightarrow> v4 = v4'"
  "md_encode_trade_condition v5 = md_encode_trade_condition v5' \<longleftrightarrow> v5 = v5'"
  "md_encode_trade_sub_type v6 = md_encode_trade_sub_type v6' \<longleftrightarrow> v6 = v6'"
proof -
  show "md_encode_side v1 = md_encode_side v1' \<longleftrightarrow> v1 = v1'" by (cases v1; cases v1'; simp)
  show "md_encode_update_action v2 = md_encode_update_action v2' \<longleftrightarrow> v2 = v2'" by (cases v2; cases v2'; simp)
  show "md_encode_security_trading_status v3 = md_encode_security_trading_status v3' \<longleftrightarrow> v3 = v3'" by (cases v3; cases v3'; simp)
  show "md_encode_security_trading_event v4 = md_encode_security_trading_event v4' \<longleftrightarrow> v4 = v4'" by (cases v4; cases v4'; simp)
  show "md_encode_trade_condition v5 = md_encode_trade_condition v5' \<longleftrightarrow> v5 = v5'" by (cases v5; cases v5'; simp)
  show "md_encode_trade_sub_type v6 = md_encode_trade_sub_type v6' \<longleftrightarrow> v6 = v6'" by (cases v6; cases v6'; simp)
qed

lemma md_encode_ascii [simp]:
  "ascii (md_encode_side v1)"
  "ascii (md_encode_update_action v2)"
  "ascii (md_encode_security_trading_status v3)"
  "ascii (md_encode_security_trading_event v4)"
  "ascii (md_encode_trade_condition v5)"
  "ascii (md_encode_trade_sub_type v6)"
proof -
  show "ascii (md_encode_side v1)" by (cases v1; simp add: ascii_def)
  show "ascii (md_encode_update_action v2)" by (cases v2; simp add: ascii_def)
  show "ascii (md_encode_security_trading_status v3)" by (cases v3; simp add: ascii_def)
  show "ascii (md_encode_security_trading_event v4)" by (cases v4; simp add: ascii_def)
  show "ascii (md_encode_trade_condition v5)" by (cases v5; simp add: ascii_def)
  show "ascii (md_encode_trade_sub_type v6)" by (cases v6; simp add: ascii_def)
qed

lemma opt_field_ascii [simp]:
  "field_ascii (opt_number w)" "field_ascii (opt_string s) = pred_option ascii s"
  by (cases w; simp) (cases s; simp)

lemma pred_option_ascii_map [simp]: "pred_option ascii (map_option md_encode_trade_sub_type w)"
  by (cases w) simp_all

lemma ascii_keys: "list_all (\<lambda>(k, v). ascii k \<and> field_ascii v) kvs \<longleftrightarrow> list_all (ascii \<circ> fst) kvs \<and> list_all (field_ascii \<circ> snd) kvs"
  by (auto simp: list_all_iff)

lemma md_members_ok: "message_ascii m \<Longrightarrow> flat_ok (md_members m)"
  unfolding flat_ok_def ascii_keys
  by (cases m) (simp_all add: md_members_defs, simp_all add: ascii_def)

lemma field_value_eq:
  assumes "json_laws L"
  shows "js_string L s = js_string L t \<longleftrightarrow> s = t" "js_number L n = js_number L k \<longleftrightarrow> n = k"
    "field_value L (opt_number a) = field_value L (opt_number b) \<longleftrightarrow> a = b"
    "field_value L (opt_string c) = field_value L (opt_string d) \<longleftrightarrow> c = d"
proof -
  show s: "js_string L s = js_string L t \<longleftrightarrow> s = t" for s t
    using json_lawsD(5) [OF assms] by (metis sum.inject(2))
  show n: "js_number L n = js_number L k \<longleftrightarrow> n = k" for n k
    using json_lawsD(7) [OF assms] by (metis sum.inject(2))
  note null = null_is_no_value [OF assms] null_is_no_value [OF assms, symmetric]
  show "field_value L (opt_number a) = field_value L (opt_number b) \<longleftrightarrow> a = b"
    using null by (cases a; cases b) (auto simp: n)
  show "field_value L (opt_string c) = field_value L (opt_string d) \<longleftrightarrow> c = d"
    using null by (cases c; cases d) (auto simp: s)
qed

lemma same_members:
  fixes L :: "('a, 'z) json_lib_scheme"
  assumes "json_laws L" "flat_ok kvs" "flat_ok kvs'" "js_dump L (flat_object L kvs) = js_dump L (flat_object L kvs')"
  shows "map_option (field_value L) (map_of kvs k) = map_option (field_value L) (map_of kvs' k)"
proof -
  have "Inr (flat_object L kvs) = (Inr (flat_object L kvs') :: string + 'a)"
    using json_lawsD(1) [OF assms(1,2), unfolded assms(4)] json_lawsD(1) [OF assms(1,3)] by (rule trans [OF sym])
  then have same: "flat_object L kvs = flat_object L kvs'" by simp
  have "distinct (map fst kvs)" "distinct (map fst kvs')" using assms(2,3) by (simp_all add: flat_ok_def)
  from json_lawsD(2) [OF assms(1) this(1), of k, unfolded same] json_lawsD(2) [OF assms(1) this(2), of k]
  show ?thesis by (rule trans [OF sym])
qed

lemma map_option_inject [simp]: "map_option md_encode_trade_sub_type a = map_option md_encode_trade_sub_type b \<longleftrightarrow> a = b"
  by (cases a; cases b) simp_all

lemma md_security_definition_lossless:
  assumes "json_laws L" and k: "\<And>k. map_option (field_value L) (map_of (md_security_definition_members m) k) =
    map_option (field_value L) (map_of (md_security_definition_members m') k)"
  shows "m = m'"
  using k [of "''security_id''"] k [of "''symbol''"] k [of "''security_exchange''"] k [of "''security_group''"] k [of "''security_type''"] k [of "''security_subtype''"] k [of "''min_price_increment''"] k [of "''round_lot''"] k [of "''currency''"]
  by (cases m; cases m') (simp add: md_security_definition_members_def field_value_eq [OF assms(1)])

lemma md_security_status_lossless:
  assumes "json_laws L" and k: "\<And>k. map_option (field_value L) (map_of (md_security_status_members m) k) =
    map_option (field_value L) (map_of (md_security_status_members m') k)"
  shows "m = m'"
  using k [of "''security_id''"] k [of "''security_exchange''"] k [of "''trading_session_id''"] k [of "''security_trading_status''"] k [of "''security_trading_event''"] k [of "''transact_time''"]
  by (cases m; cases m') (simp add: md_security_status_members_def field_value_eq [OF assms(1)])

lemma md_execution_summary_lossless:
  assumes "json_laws L" and k: "\<And>k. map_option (field_value L) (map_of (md_execution_summary_members m) k) =
    map_option (field_value L) (map_of (md_execution_summary_members m') k)"
  shows "m = m'"
  using k [of "''security_id''"] k [of "''aggressor_side''"] k [of "''last_px''"] k [of "''fill_qty''"] k [of "''traded_hidden_qty''"] k [of "''cancel_qty''"] k [of "''aggressor_time''"] k [of "''transact_time''"]
  by (cases m; cases m') (simp add: md_execution_summary_members_def field_value_eq [OF assms(1)])

lemma md_trade_lossless:
  assumes "json_laws L" and k: "\<And>k. map_option (field_value L) (map_of (md_trade_members m) k) =
    map_option (field_value L) (map_of (md_trade_members m') k)"
  shows "m = m'"
  using k [of "''security_id''"] k [of "''trade_id''"] k [of "''price''"] k [of "''quantity''"] k [of "''buyer''"] k [of "''seller''"] k [of "''trade_condition''"] k [of "''trade_sub_type''"] k [of "''trade_date''"] k [of "''transact_time''"]
  by (cases m; cases m') (simp add: md_trade_members_def field_value_eq [OF assms(1)])

lemma md_mbo_book_update_lossless:
  assumes "json_laws L" and k: "\<And>k. map_option (field_value L) (map_of (md_mbo_book_update_members m) k) =
    map_option (field_value L) (map_of (md_mbo_book_update_members m') k)"
  shows "m = m'"
  using k [of "''security_id''"] k [of "''update_action''"] k [of "''side''"] k [of "''resting_order_id''"] k [of "''price''"] k [of "''quantity''"] k [of "''previous_quantity''"] k [of "''transact_time''"]
  by (cases m; cases m') (simp add: md_mbo_book_update_members_def field_value_eq [OF assms(1)])

fun md_kind :: "message \<Rightarrow> string" where
  "md_kind (Security_Definition m) = ''security_definition''"
| "md_kind (Security_Status m) = ''security_status''"
| "md_kind (Execution_Summary m) = ''execution_summary''"
| "md_kind (Trade m) = ''trade''"
| "md_kind (Mbo_Book_Update m) = ''mbo_book_update''"

lemma message_type_of_members:
  "map_of (md_members m) ''message_type'' = Some (J_String (md_kind m))"
  by (cases m) (simp_all add: md_members_defs)

lemma md_members_lossless:
  assumes "json_laws L"
    and k: "\<And>k. map_option (field_value L) (map_of (md_members m) k) = map_option (field_value L) (map_of (md_members m') k)"
  shows "m = m'"
proof -
  have t: "md_kind m = md_kind m'"
    using k [of "''message_type''"] unfolding message_type_of_members by (simp add: field_value_eq [OF assms(1)])
  show ?thesis
  proof (cases m)
    case (Security_Definition x)
    with t obtain y where y: "m' = Security_Definition y" by (cases m') (simp_all)
    have "x = y" using k unfolding Security_Definition y by (intro md_security_definition_lossless [OF assms(1)]) simp
    then show ?thesis by (simp add: Security_Definition y)
  next
    case (Security_Status x)
    with t obtain y where y: "m' = Security_Status y" by (cases m') (simp_all)
    have "x = y" using k unfolding Security_Status y by (intro md_security_status_lossless [OF assms(1)]) simp
    then show ?thesis by (simp add: Security_Status y)
  next
    case (Execution_Summary x)
    with t obtain y where y: "m' = Execution_Summary y" by (cases m') (simp_all)
    have "x = y" using k unfolding Execution_Summary y by (intro md_execution_summary_lossless [OF assms(1)]) simp
    then show ?thesis by (simp add: Execution_Summary y)
  next
    case (Trade x)
    with t obtain y where y: "m' = Trade y" by (cases m') (simp_all)
    have "x = y" using k unfolding Trade y by (intro md_trade_lossless [OF assms(1)]) simp
    then show ?thesis by (simp add: Trade y)
  next
    case (Mbo_Book_Update x)
    with t obtain y where y: "m' = Mbo_Book_Update y" by (cases m') (simp_all)
    have "x = y" using k unfolding Mbo_Book_Update y by (intro md_mbo_book_update_lossless [OF assms(1)]) simp
    then show ?thesis by (simp add: Mbo_Book_Update y)
  qed
qed

text \<open>
  C32: No information is lost in the JSON of market data: two messages with the same JSON are the
  same message, for any JSON library with the documented behaviour and messages in ASCII; an
  empty optional is never confused with a value.
\<close>
theorem market_data_json_lossless:
  assumes "json_laws L" "message_ascii m" "message_ascii m'"
  shows "md_encode L m = md_encode L m' \<longleftrightarrow> m = m'"
  using same_members [OF assms(1) md_members_ok [OF assms(2)] md_members_ok [OF assms(3)]]
    md_members_lossless [OF assms(1), of m m'] by (auto simp: md_encode_def)

definition sample_update :: "md_quantity option \<Rightarrow> message" where
  "sample_update q = Mbo_Book_Update \<lparr>mb_security_id = 1, mb_update_action = Action_Change, mb_side = Md_Buy,
     mb_resting_order_id = 5, mb_price = Some 10, mb_quantity = q, mb_previous_quantity = None, mb_transact_time = 3\<rparr>"

lemma market_data_json_lossless_witness:
  "md_encode sample_json (sample_update None) \<noteq> md_encode sample_json (sample_update (Some 0))"
proof -
  have "message_ascii (sample_update None)" "message_ascii (sample_update (Some 0))" by (simp_all add: sample_update_def)
  from market_data_json_lossless [OF sample_json_laws this] show ?thesis by (simp add: sample_update_def)
qed

end
