(* ===== verification/Engine_Spec.thy ===== *)
theory Engine_Spec
  imports Engine
begin

text \<open>
  What the engine promises, without nodes, levels, indices or pools: per symbol and side, the
  list of live orders in price-time priority; requests as functions on those lists; the
  events each request produces. Theory \<open>Engine_Correct\<close> proves that the engine of the code
  implements it.
\<close>

section \<open>State\<close>

type_synonym spec_book = "side \<Rightarrow> order_state list"

record spec_engine =
  sp_books :: "(symbol \<times> spec_book) list"
  sp_exec_id :: u64
  sp_trade_id :: u64
  sp_emitted :: "engine_output list"

definition spec_empty_book :: spec_book where
  "spec_empty_book = (\<lambda>_. [])"

definition spec_put :: "symbol \<Rightarrow> side \<Rightarrow> order_state list \<Rightarrow> spec_engine \<Rightarrow> spec_engine" where
  "spec_put sy s ds sp =
     sp\<lparr>sp_books := map (\<lambda>(sy', b). if sy' = sy then (sy', b(s := ds)) else (sy', b)) (sp_books sp)\<rparr>"

definition spec_live :: "spec_engine \<Rightarrow> order_state list" where
  "spec_live sp = concat (map (\<lambda>e. snd e Buy @ snd e Sell) (sp_books sp))"

definition spec_lookup :: "order_key \<Rightarrow> spec_engine \<Rightarrow> order_state option" where
  "spec_lookup k sp = find (\<lambda>d. key_of d = k) (spec_live sp)"

text \<open>The best level of a side: the price of its first order and the quantity resting at that price.\<close>

definition spec_level :: "order_state list \<Rightarrow> level_snapshot option" where
  "spec_level ds =
     (case ds of
        [] \<Rightarrow> None
      | d # _ \<Rightarrow> Some \<lparr>ls_price = os_price d,
                       ls_total_quantity =
                         sum_list (map os_leaves_qty (takeWhile (\<lambda>x. os_price x = os_price d) ds))\<rparr>)"

definition spec_best :: "order_state list \<Rightarrow> price option" where
  "spec_best ds = map_option ls_price (spec_level ds)"

section \<open>Events\<close>

definition spec_emit :: "engine_output list \<Rightarrow> spec_engine \<Rightarrow> spec_engine" where
  "spec_emit os sp = sp\<lparr>sp_emitted := sp_emitted sp @ os\<rparr>"

definition spec_report ::
  "order_state \<Rightarrow> exec_type \<Rightarrow> ord_status \<Rightarrow> orig_cl_ord_id option \<Rightarrow> quantity option \<Rightarrow> price option \<Rightarrow>
   spec_engine \<Rightarrow> spec_engine"
where
  "spec_report d et os orig lq lp sp =
     spec_emit [On_Order_Entry (execution_report_of d et os orig lq lp (sp_exec_id sp))]
       (sp\<lparr>sp_exec_id := sp_exec_id sp + 1\<rparr>)"

text \<open>Trades carry consecutive identifiers.\<close>

fun number_trades :: "trade_id \<Rightarrow> trade list \<Rightarrow> trade list" where
  "number_trades i [] = []"
| "number_trades i (t # ts) = t\<lparr>tr_trade_id := i\<rparr> # number_trades (i + 1) ts"

definition spec_trades :: "trade list \<Rightarrow> spec_engine \<Rightarrow> spec_engine" where
  "spec_trades ts sp =
     spec_emit (map (\<lambda>t. On_Market_Data (Trade t)) (number_trades (sp_trade_id sp) ts))
       (sp\<lparr>sp_trade_id := sp_trade_id sp + of_nat (length ts)\<rparr>)"

definition spec_book_update :: "symbol \<Rightarrow> side \<Rightarrow> security_id \<Rightarrow> spec_engine \<Rightarrow> spec_engine" where
  "spec_book_update sy s sec sp =
     spec_emit [On_Market_Data (mbo_book_update_of
                  (case map_of (sp_books sp) sy of None \<Rightarrow> None | Some b \<Rightarrow> spec_level (b s)) s sec)] sp"

section \<open>Requests\<close>

definition spec_execution ::
  "new_order_single \<Rightarrow> order_state \<Rightarrow> (order_state \<times> quantity) list \<Rightarrow> spec_engine \<Rightarrow> spec_engine"
where
  "spec_execution r d fills sp =
     (if fills = [] then sp
      else (let filled = nos_order_qty r - os_leaves_qty d;
                px = os_price (fst (last fills))
            in spec_report d Exec_Trade
                 (if os_leaves_qty d = 0 then Status_Filled else Status_Partially_Filled)
                 None (Some filled) (Some px)
                 (spec_emit [On_Market_Data (execution_summary_of r px filled)] sp)))"

definition spec_new_order :: "new_order_single \<Rightarrow> spec_engine \<Rightarrow> engine_error option \<times> spec_engine" where
  "spec_new_order r sp =
     (if spec_lookup \<lparr>ok_client_id = nos_client_id r, ok_cl_ord_id = nos_cl_ord_id r\<rparr> sp \<noteq> None
      then (Some (Err_Duplicate_Order (nos_client_id r) (nos_cl_ord_id r)), sp)
      else case map_of (sp_books sp) (nos_symbol r) of
             None \<Rightarrow> (Some (Err_Unknown_Symbol (nos_symbol r)), sp)
           | Some b \<Rightarrow>
      (let d = make_order_state r;
           s = nos_side r;
           (fills, q, rest) = fill_orders (crosses d) (nos_order_qty r) (b (opposite s));
           d' = d\<lparr>os_leaves_qty := q\<rparr>;
           rests = (q \<noteq> 0 \<and> nos_price r \<noteq> 0);
           sp1 = spec_report d Exec_New_Order Status_New_Order None None None sp;
           sp2 = spec_put (nos_symbol r) (opposite s) rest (spec_trades (map (trade_of d) fills) sp1);
           sp3 = spec_execution r d' fills sp2;
           sp4 = (if rests then spec_put (nos_symbol r) s (insert_order s d' (b s)) sp3 else sp3);
           sp5 = (if fills \<noteq> [] then spec_book_update (nos_symbol r) (opposite s) (nos_security_id r) sp4
                  else sp4);
           sp6 = (if rests \<and> spec_best (insert_order s d' (b s)) = Some (nos_price r)
                  then spec_book_update (nos_symbol r) s (nos_security_id r) sp5 else sp5)
       in (None, sp6)))"

text \<open>Taking a live order out: the rest of its side keeps its order.\<close>

definition spec_remove :: "order_state \<Rightarrow> spec_engine \<Rightarrow> bool \<times> spec_engine" where
  "spec_remove d sp =
     (case map_of (sp_books sp) (os_symbol d) of
        None \<Rightarrow> (False, sp)
      | Some b \<Rightarrow>
          (spec_best (b (os_side d)) = Some (os_price d),
           spec_put (os_symbol d) (os_side d) (filter (\<lambda>x. key_of x \<noteq> key_of d) (b (os_side d))) sp))"

definition spec_reject :: "cancel_order \<Rightarrow> reject_reason \<Rightarrow> string \<Rightarrow> spec_engine \<Rightarrow> spec_engine" where
  "spec_reject c reason txt = spec_emit [On_Order_Entry (cancel_reject_of c reason txt)]"

definition spec_cancel :: "cancel_order \<Rightarrow> spec_engine \<Rightarrow> spec_engine" where
  "spec_cancel c sp =
     (case spec_lookup \<lparr>ok_client_id = co_client_id c, ok_cl_ord_id = co_orig_cl_ord_id c\<rparr> sp of
        None \<Rightarrow> spec_reject c Unknown_Order ''unknown order'' sp
      | Some d \<Rightarrow>
          (let (at_best, sp1) = spec_remove d sp;
               sp2 = spec_report d Exec_Canceled Status_Canceled (Some (co_orig_cl_ord_id c)) None None sp1
           in if at_best then spec_book_update (os_symbol d) (os_side d) (os_security_id d) sp2 else sp2))"

definition spec_replace :: "replace_order \<Rightarrow> spec_engine \<Rightarrow> spec_engine" where
  "spec_replace r sp =
     (case spec_lookup \<lparr>ok_client_id = ro_client_id r, ok_cl_ord_id = ro_orig_cl_ord_id r\<rparr> sp of
        None \<Rightarrow> spec_reject (replace_cancel r) Unknown_Order ''unknown order'' sp
      | Some d \<Rightarrow>
          (if spec_lookup \<lparr>ok_client_id = ro_client_id r, ok_cl_ord_id = ro_cl_ord_id r\<rparr> sp \<noteq> None
           then spec_reject (replace_cancel r) Duplicate_Order ''duplicate cl_ord_id'' sp
           else
             (let (at_best, sp1) = spec_remove d sp;
                  sp2 = (if at_best then spec_book_update (os_symbol d) (os_side d) (os_security_id d) sp1
                         else sp1)
              in case spec_new_order (replacement_order r) sp2 of
                   (None, sp3) \<Rightarrow> sp3
                 | (Some (Err_Duplicate_Order _ _), sp3) \<Rightarrow>
                     spec_reject (replace_cancel r) Duplicate_Order ''duplicate cl_ord_id'' sp3
                 | (Some (Err_Unknown_Symbol _), sp3) \<Rightarrow>
                     spec_reject (replace_cancel r) Unknown_Symbol ''unknown symbol'' sp3)))"

definition spec_flush :: "spec_engine \<Rightarrow> spec_engine" where
  "spec_flush sp = sp\<lparr>sp_books := map (\<lambda>(sy, _). (sy, spec_empty_book)) (sp_books sp)\<rparr>"

fun spec_send :: "request \<Rightarrow> spec_engine \<Rightarrow> spec_engine" where
  "spec_send (New_Order_Single r) sp = snd (spec_new_order r sp)"
| "spec_send (Replace_Order r) sp = spec_replace r sp"
| "spec_send (Cancel_Order c) sp = spec_cancel c sp"
| "spec_send Flush sp = spec_flush sp"

text \<open>Does the request rest an order, so that the engine must allocate a node?\<close>

definition spec_rests_order :: "new_order_single \<Rightarrow> spec_engine \<Rightarrow> bool" where
  "spec_rests_order r sp \<longleftrightarrow>
     fst (spec_new_order r sp) = None \<and> nos_price r \<noteq> 0 \<and>
     (case map_of (sp_books sp) (nos_symbol r) of
        None \<Rightarrow> False
      | Some b \<Rightarrow> fst (snd (fill_orders (crosses (make_order_state r)) (nos_order_qty r)
                                (b (opposite (nos_side r))))) \<noteq> 0)"

section \<open>Abstraction\<close>

definition abs_book :: "'a node_store_scheme \<Rightarrow> order_book \<Rightarrow> spec_book" where
  "abs_book st b = (\<lambda>s. resting_orders st (side_of s b))"

definition abs_engine :: "engine \<Rightarrow> spec_engine" where
  "abs_engine e =
     \<lparr>sp_books = map (\<lambda>(sy, b). (sy, abs_book e b)) (books e),
      sp_exec_id = next_exec_id e,
      sp_trade_id = next_trade_id e,
      sp_emitted = emitted e\<rparr>"

end
