(* ===== verification/Engine_Invariant.thy ===== *)
theory Engine_Invariant
  imports Engine_Spec
begin

text \<open>
  The state invariant of the engine: every book is well formed and not crossed, the nodes
  handed out by the pool are exactly the nodes linked into the books, and the identity index
  points, for every live order, at its node. With it come the general lemma for an update of
  one side of one book, and the proof that the engine's callbacks honour the contract of the
  matching algorithm.
\<close>

section \<open>The invariant\<close>

definition uncrossed :: "order_book \<Rightarrow> bool" where
  "uncrossed b \<longleftrightarrow> (\<forall>p\<in>set (map fst (bids b)). \<forall>q\<in>set (map fst (asks b)). p < q)"

definition book_ok :: "symbol \<Rightarrow> 'a node_store_scheme \<Rightarrow> order_book \<Rightarrow> bool" where
  "book_ok sy st b \<longleftrightarrow> (\<forall>s. side_ok sy s st (side_of s b)) \<and> uncrossed b"

definition linked :: "(symbol \<times> order_book) list \<Rightarrow> addr set" where
  "linked bs = {a. \<exists>sy b s. (sy, b) \<in> set bs \<and> a \<in> set (side_addrs (side_of s b))}"

definition index_ok :: "engine \<Rightarrow> bool" where
  "index_ok e \<longleftrightarrow>
     (\<forall>k a. resting_index e k = Some a \<longleftrightarrow> (\<exists>d. heap e a = Some d \<and> key_of d = k))"

definition engine_ok :: "engine \<Rightarrow> bool" where
  "engine_ok e \<longleftrightarrow>
     distinct (map fst (books e)) \<and>
     (\<forall>(sy, b)\<in>set (books e). book_ok sy e b) \<and>
     dom (heap e) = linked (books e) \<and>
     index_ok e"

lemma index_okD: "index_ok e \<Longrightarrow> heap e a = Some d \<Longrightarrow> resting_index e (key_of d) = Some a"
  by (auto simp: index_ok_def)

lemma index_ok_lookup:
  "index_ok e \<Longrightarrow> resting_index e k = Some a \<Longrightarrow> \<exists>d. heap e a = Some d \<and> key_of d = k"
  by (auto simp: index_ok_def)

lemma index_ok_unique:
  "index_ok e \<Longrightarrow> heap e a = Some d \<Longrightarrow> heap e a' = Some d' \<Longrightarrow> key_of d = key_of d' \<Longrightarrow> a = a'"
  by (metis index_okD option.inject)

lemma index_ok_cong:
  "heap e' = heap e \<Longrightarrow> resting_index e' = resting_index e \<Longrightarrow> index_ok e' = index_ok e"
  by (simp add: index_ok_def)

text \<open>Dropping an identity together with its node, and adding both, keep the index right.\<close>

lemma index_ok_drop:
  assumes "index_ok e" "heap e n = Some d" "heap e' = (heap e)(n := None)"
    "resting_index e' = (resting_index e)(key_of d := None)"
  shows "index_ok e'"
  unfolding index_ok_def
proof (intro allI iffI)
  fix k a assume "resting_index e' k = Some a"
  then have "k \<noteq> key_of d" "resting_index e k = Some a" using assms(4) by (auto split: if_splits)
  with index_ok_lookup [OF assms(1)] assms(2,3) show "\<exists>d. heap e' a = Some d \<and> key_of d = k" by fastforce
next
  fix k a assume "\<exists>d. heap e' a = Some d \<and> key_of d = k"
  then obtain x where x: "heap e' a = Some x" "key_of x = k" by blast
  then have "a \<noteq> n" "heap e a = Some x" using assms(3) by (auto split: if_splits)
  moreover have "key_of x \<noteq> key_of d"
    using index_ok_unique [OF assms(1)] assms(2) calculation by blast
  ultimately show "resting_index e' k = Some a"
    using index_okD [OF assms(1)] x(2) assms(4) by auto
qed

lemma index_ok_add:
  assumes "index_ok e" "heap e n = None" "resting_index e (key_of d) = None"
    "heap e' = (heap e)(n \<mapsto> d)" "resting_index e' = (resting_index e)(key_of d \<mapsto> n)"
  shows "index_ok e'"
  unfolding index_ok_def
proof (intro allI iffI)
  fix k a assume "resting_index e' k = Some a"
  then show "\<exists>d. heap e' a = Some d \<and> key_of d = k"
    using assms(2,4,5) index_ok_lookup [OF assms(1), of k a] by (auto split: if_splits)
next
  fix k a assume "\<exists>d. heap e' a = Some d \<and> key_of d = k"
  then obtain x where x: "heap e' a = Some x" "key_of x = k" by blast
  show "resting_index e' k = Some a"
  proof (cases "a = n")
    case True
    then show ?thesis using x assms(4,5) by simp
  next
    case False
    then have "resting_index e k = Some a" using x assms(4) index_okD [OF assms(1)] by auto
    then show ?thesis using assms(3,5) by auto
  qed
qed

lemma index_ok_write:
  assumes "index_ok e" "heap e n = Some d" "key_of d' = key_of d"
  shows "index_ok (e\<lparr>heap := (heap e)(n \<mapsto> d')\<rparr>)"
  using assms by (auto simp: index_ok_def)

section \<open>Books by symbol\<close>

lemma map_of_put:
  "map_of (map (\<lambda>(s, b'). if s = sy then (s, b) else (s, b')) bs) sy' =
     (if sy' = sy then map_option (\<lambda>_. b) (map_of bs sy) else map_of bs sy')"
  by (induction bs) auto

lemma fst_put [simp]: "map fst (map (\<lambda>(s, b'). if s = sy then (s, b) else (s, b')) bs) = map fst bs"
  by (induction bs) auto

lemma mem_put:
  "(sy', b') \<in> set (map (\<lambda>(s, b'). if s = sy then (s, b) else (s, b')) bs) \<longleftrightarrow>
     (sy' = sy \<and> b' = b \<and> sy \<in> fst ` set bs) \<or> (sy' \<noteq> sy \<and> (sy', b') \<in> set bs)"
  by (induction bs) (auto split: if_splits)

lemma books_put_book: "books (put_book sy b e) = map (\<lambda>(s, b'). if s = sy then (s, b) else (s, b')) (books e)"
  by (simp add: put_book_def)

lemma put_book_fields [simp]:
  "heap (put_book sy b e) = heap e" "resting_index (put_book sy b e) = resting_index e"
  "next_exec_id (put_book sy b e) = next_exec_id e" "next_trade_id (put_book sy b e) = next_trade_id e"
  "emitted (put_book sy b e) = emitted e"
  by (simp_all add: put_book_def)

lemma map_of_books: "engine_ok e \<Longrightarrow> map_of (books e) sy = Some b \<longleftrightarrow> (sy, b) \<in> set (books e)"
  unfolding engine_ok_def by (meson map_of_SomeD map_of_is_SomeI)

lemma engine_ok_side:
  "engine_ok e \<Longrightarrow> (sy, b) \<in> set (books e) \<Longrightarrow> side_ok sy s e (side_of s b)"
  by (fastforce simp: engine_ok_def book_ok_def)

lemma engine_ok_uncrossed: "engine_ok e \<Longrightarrow> (sy, b) \<in> set (books e) \<Longrightarrow> uncrossed b"
  by (fastforce simp: engine_ok_def book_ok_def)

lemma engine_ok_index: "engine_ok e \<Longrightarrow> index_ok e"
  by (simp add: engine_ok_def)

text \<open>A live node lies on exactly one side of one book: the one its order names.\<close>

lemma engine_ok_node:
  assumes "engine_ok e" "heap e a = Some d"
  shows "\<exists>b. (os_symbol d, b) \<in> set (books e) \<and> a \<in> set (side_addrs (side_of (os_side d) b))"
proof -
  from assms have "a \<in> linked (books e)" by (auto simp: engine_ok_def)
  then obtain sy b s where b: "(sy, b) \<in> set (books e)" "a \<in> set (side_addrs (side_of s b))"
    by (auto simp: linked_def)
  from side_ok_node [OF engine_ok_side [OF assms(1) b(1)] b(2)] assms(2) have "os_symbol d = sy" "os_side d = s"
    by (auto simp: resting_ok_def)
  with b show ?thesis by blast
qed

lemma engine_ok_addr:
  assumes "engine_ok e" "(sy, b) \<in> set (books e)" "a \<in> set (side_addrs (side_of s b))"
  shows "\<exists>d. heap e a = Some d \<and> os_symbol d = sy \<and> os_side d = s"
  using side_ok_node [OF engine_ok_side [OF assms(1,2)] assms(3)] by (auto simp: resting_ok_def)

section \<open>Updating one side\<close>

lemma engine_ok_update:
  assumes ok: "engine_ok e" and b: "(sy, b) \<in> set (books e)"
    and books': "books e' = books (put_book sy (with_side s m' b) e)"
    and so: "side_ok sy s e' m'" and unc: "uncrossed (with_side s m' b)"
    and frame: "\<And>a. a \<notin> set (side_addrs (side_of s b)) \<Longrightarrow> a \<notin> set (side_addrs m') \<Longrightarrow> heap e' a = heap e a"
    and fresh: "\<And>a. a \<in> set (side_addrs m') \<Longrightarrow> a \<notin> set (side_addrs (side_of s b)) \<Longrightarrow> heap e a = None"
    and freed: "\<And>a. a \<in> set (side_addrs (side_of s b)) \<Longrightarrow> a \<notin> set (side_addrs m') \<Longrightarrow> heap e' a = None"
    and idx: "index_ok e'"
  shows "engine_ok e' \<and>
         sp_books (abs_engine e') = sp_books (spec_put sy s (resting_orders e' m') (abs_engine e))"
proof -
  have dist: "distinct (map fst (books e))" using ok by (simp add: engine_ok_def)
  have unique: "b' = b" if "(sy, b') \<in> set (books e)" for b'
    using that b dist by (metis map_of_is_SomeI option.inject)
  have same: "heap e' a = heap e a"
    if "(sy', b') \<in> set (books e)" "a \<in> set (side_addrs (side_of s' b'))" "sy' \<noteq> sy \<or> s' \<noteq> s" for a sy' b' s'
  proof -
    from engine_ok_addr [OF ok that(1,2)]
    obtain d where d: "heap e a = Some d" "os_symbol d = sy'" "os_side d = s'" by blast
    have "a \<notin> set (side_addrs (side_of s b))"
      using engine_ok_addr [OF ok b, of a s] d that(3) by auto
    then show ?thesis using frame fresh d(1) by fastforce
  qed
  have other: "side_ok sy' s' e' (side_of s' b') \<and> resting_orders e' (side_of s' b') = resting_orders e (side_of s' b')"
    if "(sy', b') \<in> set (books e)" "sy' \<noteq> sy \<or> s' \<noteq> s" for sy' b' s'
    using side_ok_cong [of "side_of s' b'" e' e sy' s'] resting_orders_cong [of "side_of s' b'" e' e]
      same [OF that(1) _ that(2)] engine_ok_side [OF ok that(1)] by blast
  have mem: "(sy', b') \<in> set (books e') \<longleftrightarrow>
      (sy' = sy \<and> b' = with_side s m' b) \<or> (sy' \<noteq> sy \<and> (sy', b') \<in> set (books e))" for sy' b'
    unfolding books' books_put_book mem_put using b by (auto simp: rev_image_eqI)
  have "book_ok sy' e' b'" if "(sy', b') \<in> set (books e')" for sy' b'
    using that so unc other b engine_ok_uncrossed [OF ok]
    by (auto simp: mem book_ok_def side_of_with_side)
  moreover have "dom (heap e') = linked (books e')"
  proof (intro set_eqI iffI)
    fix a assume "a \<in> dom (heap e')"
    then obtain d where d: "heap e' a = Some d" by blast
    show "a \<in> linked (books e')"
    proof (cases "a \<in> set (side_addrs m')")
      case True
      then show ?thesis using mem by (force simp: linked_def side_of_with_side)
    next
      case False
      with freed d have out: "a \<notin> set (side_addrs (side_of s b))" by fastforce
      with frame False d have he: "heap e a = Some d" by simp
      from engine_ok_node [OF ok he] obtain b' where b': "(os_symbol d, b') \<in> set (books e)"
        "a \<in> set (side_addrs (side_of (os_side d) b'))" by blast
      show ?thesis
      proof (cases "os_symbol d = sy")
        case True
        with b' unique have "b' = b" by blast
        with True b' out have "os_side d \<noteq> s" by auto
        with True b' \<open>b' = b\<close> have "a \<in> set (side_addrs (side_of (os_side d) (with_side s m' b)))"
          by (simp add: side_of_with_side)
        then show ?thesis using mem by (force simp: linked_def)
      next
        case False
        with b' mem show ?thesis by (force simp: linked_def)
      qed
    qed
  next
    fix a assume "a \<in> linked (books e')"
    then obtain sy' b' s' where "(sy', b') \<in> set (books e')" "a \<in> set (side_addrs (side_of s' b'))"
      by (auto simp: linked_def)
    then show "a \<in> dom (heap e')"
      using side_ok_node [of sy' s' e' "side_of s' b'" a] \<open>\<And>b' sy'. (sy', b') \<in> set (books e') \<Longrightarrow> book_ok sy' e' b'\<close>
      by (fastforce simp: book_ok_def)
  qed
  moreover have "distinct (map fst (books e'))" using dist unfolding books' books_put_book fst_put .
  ultimately have "engine_ok e'" using idx by (auto simp: engine_ok_def)
  moreover have "sp_books (abs_engine e') = sp_books (spec_put sy s (resting_orders e' m') (abs_engine e))"
  proof -
    have "(case (case x of (s', b'') \<Rightarrow> if s' = sy then (s', with_side s m' b) else (s', b'')) of
            (sy', b') \<Rightarrow> (sy', abs_book e' b')) =
        (case (case x of (sy', b') \<Rightarrow> (sy', abs_book e b')) of
            (sy', f) \<Rightarrow> if sy' = sy then (sy', f(s := resting_orders e' m')) else (sy', f))"
      if x: "x \<in> set (books e)" for x
    proof -
      obtain sy' b' where [simp]: "x = (sy', b')" by (cases x)
      show ?thesis
        using x unique [of b'] other [of sy' b'] by (auto simp: abs_book_def fun_eq_iff side_of_with_side)
    qed
    then show ?thesis by (simp add: abs_engine_def spec_put_def books' books_put_book)
  qed
  ultimately show ?thesis by blast
qed

section \<open>The callbacks of the engine\<close>

definition trade_log :: "engine_output list \<Rightarrow> trade list" where
  "trade_log os = concat (map (\<lambda>x. case x of On_Market_Data (Trade t) \<Rightarrow> [t\<lparr>tr_trade_id := 0\<rparr>] | _ \<Rightarrow> []) os)"

definition evolves :: "engine \<Rightarrow> engine \<Rightarrow> bool" where
  "evolves e e' \<longleftrightarrow>
     books e' = books e \<and> next_exec_id e' = next_exec_id e \<and> (index_ok e \<longrightarrow> index_ok e') \<and>
     (\<exists>ts. (\<forall>t\<in>set ts. tr_trade_id t = 0) \<and>
           emitted e' = emitted e @ map (\<lambda>t. On_Market_Data (Trade t)) (number_trades (next_trade_id e) ts) \<and>
           next_trade_id e' = next_trade_id e + of_nat (length ts))"

lemma number_trades_append:
  "number_trades i (xs @ ys) = number_trades i xs @ number_trades (i + of_nat (length xs)) ys"
  by (induction xs arbitrary: i) (simp_all add: algebra_simps)

lemma length_number_trades [simp]: "length (number_trades i ts) = length ts"
  by (induction ts arbitrary: i) simp_all

lemma trade_log_append [simp]: "trade_log (xs @ ys) = trade_log xs @ trade_log ys"
  by (simp add: trade_log_def)

lemma trade_log_number:
  "\<forall>t\<in>set ts. tr_trade_id t = 0 \<Longrightarrow>
   trade_log (map (\<lambda>t. On_Market_Data (Trade t)) (number_trades i ts)) = ts"
  by (induction ts arbitrary: i) (simp_all add: trade_log_def)

lemma evolves_refl: "evolves e e"
  by (auto simp: evolves_def intro: exI [of _ "[]"])

lemma evolves_trans:
  assumes "evolves a b" "evolves b c"
  shows "evolves a c"
proof -
  from assms obtain ts us where
    "\<forall>t\<in>set ts. tr_trade_id t = 0" "\<forall>t\<in>set us. tr_trade_id t = 0"
    "emitted b = emitted a @ map (\<lambda>t. On_Market_Data (Trade t)) (number_trades (next_trade_id a) ts)"
    "emitted c = emitted b @ map (\<lambda>t. On_Market_Data (Trade t)) (number_trades (next_trade_id b) us)"
    "next_trade_id b = next_trade_id a + of_nat (length ts)"
    "next_trade_id c = next_trade_id b + of_nat (length us)"
    by (auto simp: evolves_def)
  then show ?thesis using assms
    by (auto simp: evolves_def number_trades_append algebra_simps intro!: exI [of _ "ts @ us"])
qed

lemma on_trade_fields [simp]:
  "heap (on_trade t e) = heap e" "books (on_trade t e) = books e"
  "resting_index (on_trade t e) = resting_index e" "next_exec_id (on_trade t e) = next_exec_id e"
  "next_trade_id (on_trade t e) = next_trade_id e + 1"
  "emitted (on_trade t e) = emitted e @ [On_Market_Data (Trade (t\<lparr>tr_trade_id := next_trade_id e\<rparr>))]"
  by (simp_all add: on_trade_def on_market_data_def)

lemma on_release_result:
  "heap e n = Some d \<Longrightarrow>
   on_release n e = Inr (e\<lparr>heap := (heap e)(n := None), resting_index := (resting_index e)(key_of d := None)\<rparr>)"
  by (simp add: on_release_def release_node_def erase_index_def)

interpretation matcher: matching_callbacks on_trade on_release "\<lambda>e. trade_log (emitted e)" evolves
proof unfold_locales
  fix t :: trade and e :: engine
  show "heap (on_trade t e) = heap e" by simp
  show "tr_trade_id t = 0 \<Longrightarrow> trade_log (emitted (on_trade t e)) = trade_log (emitted e) @ [t]"
    by (simp add: trade_log_def)
  show "evolves e (on_trade t e)"
    by (auto simp: evolves_def index_ok_def intro: exI [of _ "[t\<lparr>tr_trade_id := 0\<rparr>]"])
next
  fix e :: engine and n d
  assume h: "heap e n = Some d"
  have "evolves e (e\<lparr>heap := (heap e)(n := None), resting_index := (resting_index e)(key_of d := None)\<rparr>)"
    by (auto simp: evolves_def intro: exI [of _ "[]"] index_ok_drop [OF _ h])
  then show "\<exists>e'. on_release n e = Inr e' \<and> heap e' = (heap e)(n := None) \<and>
      trade_log (emitted e') = trade_log (emitted e) \<and> evolves e e'"
    by (simp add: on_release_result [OF h])
  fix q
  show "evolves e (e\<lparr>heap := (heap e)(n \<mapsto> d\<lparr>os_leaves_qty := q\<rparr>)\<rparr>)"
    using index_ok_write [OF _ h] by (auto simp: evolves_def key_of_def intro: exI [of _ "[]"])
qed (auto intro: evolves_refl evolves_trans)

end
