(* ===== verification/Engine_Correct.thy ===== *)
theory Engine_Correct
  imports Engine_Invariant
begin

text \<open>
  Every handler keeps the invariant and implements the abstract engine. The only fault a
  well-formed engine can raise is \<open>Bad_Alloc\<close>, when the pool has no slot for an order that
  rests.
\<close>

section \<open>Abstract views of the helpers\<close>

named_theorems abs_simps \<open>the abstraction of a state after a primitive change\<close>

lemma spec_put_fields [simp]:
  "sp_exec_id (spec_put sy s ds sp) = sp_exec_id sp" "sp_trade_id (spec_put sy s ds sp) = sp_trade_id sp"
  "sp_emitted (spec_put sy s ds sp) = sp_emitted sp"
  by (simp_all add: spec_put_def)

lemma abs_fields [simp]:
  "sp_exec_id (abs_engine e) = next_exec_id e" "sp_trade_id (abs_engine e) = next_trade_id e"
  "sp_emitted (abs_engine e) = emitted e"
  by (simp_all add: abs_engine_def)

lemma abs_book_cong: "heap e' = heap e \<Longrightarrow> abs_book e' b = abs_book e b"
  by (simp add: abs_book_def resting_orders_addrs)

lemma book_ok_cong:
  assumes "heap e' = heap e"
  shows "book_ok sy e' b = book_ok sy e b"
proof -
  have "side_ok sy s e' m = side_ok sy s e m" for s m by (rule side_ok_cong) (simp add: assms)
  then show ?thesis by (simp add: book_ok_def)
qed

lemma engine_ok_cong:
  assumes "heap e' = heap e" "books e' = books e" "resting_index e' = resting_index e"
  shows "engine_ok e' = engine_ok e"
  using book_ok_cong [OF assms(1)] by (simp add: engine_ok_def index_ok_def assms)

lemma emit_fields [simp]:
  "heap (on_market_data m e) = heap e" "books (on_market_data m e) = books e"
  "resting_index (on_market_data m e) = resting_index e" "next_exec_id (on_market_data m e) = next_exec_id e"
  "next_trade_id (on_market_data m e) = next_trade_id e"
  "emitted (on_market_data m e) = emitted e @ [On_Market_Data m]"
  "heap (on_order_entry v e) = heap e" "books (on_order_entry v e) = books e"
  "resting_index (on_order_entry v e) = resting_index e" "next_exec_id (on_order_entry v e) = next_exec_id e"
  "next_trade_id (on_order_entry v e) = next_trade_id e"
  "emitted (on_order_entry v e) = emitted e @ [On_Order_Entry v]"
  by (simp_all add: on_market_data_def on_order_entry_def)

lemma emit_event_fields [simp]:
  "heap (emit_execution_report d et os ori lq lp e) = heap e"
  "books (emit_execution_report d et os ori lq lp e) = books e"
  "resting_index (emit_execution_report d et os ori lq lp e) = resting_index e"
  "next_trade_id (emit_execution_report d et os ori lq lp e) = next_trade_id e"
  "heap (emit_cancel_reject c rr txt e) = heap e"
  "books (emit_cancel_reject c rr txt e) = books e"
  "resting_index (emit_cancel_reject c rr txt e) = resting_index e"
  "heap (emit_mbo_book_update b s sec e) = heap e"
  "books (emit_mbo_book_update b s sec e) = books e"
  "resting_index (emit_mbo_book_update b s sec e) = resting_index e"
  "heap (emit_execution_summary r p q e) = heap e"
  "books (emit_execution_summary r p q e) = books e"
  "resting_index (emit_execution_summary r p q e) = resting_index e"
  by (simp_all add: emit_execution_report_def emit_cancel_reject_def emit_mbo_book_update_def
      emit_execution_summary_def)

lemma engine_ok_emit [simp]:
  "engine_ok (emit_execution_report d et os ori lq lp e) = engine_ok e"
  "engine_ok (emit_cancel_reject c rr txt e) = engine_ok e"
  "engine_ok (emit_mbo_book_update b s sec e) = engine_ok e"
  "engine_ok (emit_execution_summary r p q e) = engine_ok e"
  by (rule engine_ok_cong; simp)+

lemma abs_emit [abs_simps]:
  "abs_engine (on_market_data m e) = spec_emit [On_Market_Data m] (abs_engine e)"
  "abs_engine (on_order_entry v e) = spec_emit [On_Order_Entry v] (abs_engine e)"
  by (simp_all add: abs_engine_def spec_emit_def abs_book_cong [of "on_market_data m e" e]
      abs_book_cong [of "on_order_entry v e" e])

lemma abs_report [abs_simps]:
  "abs_engine (emit_execution_report d et os ori lq lp e) = spec_report d et os ori lq lp (abs_engine e)"
proof -
  have "abs_engine (e\<lparr>next_exec_id := next_exec_id e + 1\<rparr>) = (abs_engine e)\<lparr>sp_exec_id := next_exec_id e + 1\<rparr>"
    by (simp add: abs_engine_def abs_book_cong [of "e\<lparr>next_exec_id := next_exec_id e + 1\<rparr>" e])
  then show ?thesis by (simp add: emit_execution_report_def abs_emit spec_report_def)
qed

lemma abs_reject [abs_simps]:
  "abs_engine (emit_cancel_reject c rr txt e) = spec_reject c rr txt (abs_engine e)"
  by (simp add: emit_cancel_reject_def abs_emit spec_reject_def)

lemma abs_summary [abs_simps]:
  "abs_engine (emit_execution_summary r p q e) = spec_emit [On_Market_Data (execution_summary_of r p q)] (abs_engine e)"
  by (simp add: emit_execution_summary_def abs_emit)

lemma abs_report_execution [abs_simps]:
  "abs_engine (report_execution r d (executed no_execution fills) e) = spec_execution r d fills (abs_engine e)"
  by (simp add: report_execution_def spec_execution_def executed_def no_execution_def Let_def abs_report abs_summary)

lemma report_execution_fields [simp]:
  "heap (report_execution r d x e) = heap e" "books (report_execution r d x e) = books e"
  "resting_index (report_execution r d x e) = resting_index e"
  by (simp_all add: report_execution_def Let_def split: option.splits)

lemma engine_ok_report_execution [simp]: "engine_ok (report_execution r d x e) = engine_ok e"
  by (rule engine_ok_cong) simp_all

section \<open>The best level\<close>

lemma best_level_eq_spec:
  assumes "side_ok sy s st m"
  shows "best_level_of m = spec_level (resting_orders st m)"
proof (cases m)
  case Nil
  then show ?thesis by (simp add: best_level_of_def spec_level_def)
next
  case (Cons e m')
  obtain p l where e: "e = (p, l)" by (cases e)
  from assms have ok: "level_ok sy s st p l" "side_ok sy s st m'" "\<forall>q\<in>set (map fst m'). before s p q"
    by (auto simp: Cons e side_ok_Cons)
  obtain d ds where ds: "level_orders st l = d # ds"
    using ok(1) by (cases "level_orders st l") (auto simp: level_ok_def)
  have price: "os_price x = p" if "x \<in> set (level_orders st l)" for x
    using level_ok_prices [OF ok(1) that] by (simp add: resting_ok_def)
  have "os_price x \<noteq> p" if "x \<in> set (resting_orders st m')" for x
    using side_ok_order [OF ok(2) that] ok(3) side.neq by blast
  then have "takeWhile (\<lambda>x. os_price x = p) (level_orders st l @ resting_orders st m') = level_orders st l"
    using takeWhile_append_none [of "level_orders st l" "\<lambda>x. os_price x = p" "resting_orders st m'"] price
    by blast
  then show ?thesis
    using ok(1) price ds by (simp add: Cons e best_level_of_def spec_level_def level_ok_def)
qed

lemma best_price_eq_spec: "side_ok sy s st m \<Longrightarrow> best_price m = spec_best (resting_orders st m)"
  using best_price_eq_head [of sy s st m] by (auto simp: spec_best_def spec_level_def split: list.splits)

lemma map_of_abs:
  "map_of (sp_books (abs_engine e)) sy = map_option (abs_book e) (map_of (books e) sy)"
  by (simp add: abs_engine_def map_of_map)

lemma abs_mbo:
  assumes "engine_ok e" "(sy, b) \<in> set (books e)"
  shows "abs_engine (emit_mbo_book_update b s sec e) = spec_book_update sy s sec (abs_engine e)"
proof -
  have "map_of (books e) sy = Some b" using assms by (simp add: map_of_books)
  then show ?thesis
    using best_level_eq_spec [OF engine_ok_side [OF assms, of s]]
    by (simp add: emit_mbo_book_update_def abs_emit spec_book_update_def map_of_abs abs_book_def
        best_level_by_side)
qed

section \<open>Looking up a live order\<close>

lemma mem_spec_live:
  "d \<in> set (spec_live sp) \<longleftrightarrow> (\<exists>sy b s. (sy, b) \<in> set (sp_books sp) \<and> d \<in> set (b s))"
proof
  assume "d \<in> set (spec_live sp)"
  then obtain sy b where "(sy, b) \<in> set (sp_books sp)" "d \<in> set (b Buy) \<or> d \<in> set (b Sell)"
    by (auto simp: spec_live_def)
  then show "\<exists>sy b s. (sy, b) \<in> set (sp_books sp) \<and> d \<in> set (b s)" by blast
next
  assume "\<exists>sy b s. (sy, b) \<in> set (sp_books sp) \<and> d \<in> set (b s)"
  then obtain sy b s where x: "(sy, b) \<in> set (sp_books sp)" "d \<in> set (b s)" by blast
  then show "d \<in> set (spec_live sp)" by (cases s) (force simp: spec_live_def)+
qed

lemma mem_abs_books:
  "(sy, f) \<in> set (sp_books (abs_engine e)) \<longleftrightarrow> (\<exists>b. (sy, b) \<in> set (books e) \<and> f = abs_book e b)"
  by (auto simp: abs_engine_def)

lemma mem_resting_orders:
  "d \<in> set (resting_orders st m) \<longleftrightarrow> (\<exists>a\<in>set (side_addrs m). d = the (heap st a))"
  by (auto simp: resting_orders_addrs)

lemma spec_live_set:
  assumes ok: "engine_ok e"
  shows "d \<in> set (spec_live (abs_engine e)) \<longleftrightarrow> (\<exists>a. heap e a = Some d)"
proof
  assume "d \<in> set (spec_live (abs_engine e))"
  then obtain sy b s where b: "(sy, b) \<in> set (books e)" "d \<in> set (resting_orders e (side_of s b))"
    unfolding mem_spec_live mem_abs_books by (auto simp: abs_book_def)
  then obtain a where a: "a \<in> set (side_addrs (side_of s b))" "d = the (heap e a)"
    unfolding mem_resting_orders by blast
  with engine_ok_addr [OF ok b(1) a(1)] show "\<exists>a. heap e a = Some d" by auto
next
  assume "\<exists>a. heap e a = Some d"
  then obtain a where a: "heap e a = Some d" by blast
  from engine_ok_node [OF ok a] obtain b where b: "(os_symbol d, b) \<in> set (books e)"
    "a \<in> set (side_addrs (side_of (os_side d) b))" by blast
  then have "d \<in> set (abs_book e b (os_side d))"
    unfolding abs_book_def mem_resting_orders using a by (intro bexI [of _ a]) simp_all
  then show "d \<in> set (spec_live (abs_engine e))"
    unfolding mem_spec_live mem_abs_books using b(1) by blast
qed

lemma find_unique:
  assumes "d \<in> set xs" "P d" and "\<And>x. x \<in> set xs \<Longrightarrow> P x \<Longrightarrow> x = d"
  shows "find P xs = Some d"
proof (cases "find P xs")
  case None
  with assms(1,2) show ?thesis by (simp add: find_None_iff)
next
  case (Some x)
  then have "x \<in> set xs \<and> P x" by (auto simp: find_Some_iff)
  with assms(3) Some show ?thesis by blast
qed

lemma spec_lookup_abs:
  assumes ok: "engine_ok e"
  shows "spec_lookup k (abs_engine e) = map_option (\<lambda>a. the (heap e a)) (resting_index e k)"
proof (cases "resting_index e k")
  case None
  have "key_of d \<noteq> k" if "d \<in> set (spec_live (abs_engine e))" for d
  proof
    from that obtain a where "heap e a = Some d" unfolding spec_live_set [OF ok] ..
    then have "resting_index e (key_of d) = Some a" by (rule index_okD [OF engine_ok_index [OF ok]])
    moreover assume "key_of d = k"
    ultimately show False using None by simp
  qed
  then show ?thesis unfolding spec_lookup_def None by (simp add: find_None_iff)
next
  case (Some a)
  from index_ok_lookup [OF engine_ok_index [OF ok] Some] obtain d where d: "heap e a = Some d" "key_of d = k"
    by blast
  have "x = d" if x: "x \<in> set (spec_live (abs_engine e))" "key_of x = k" for x
  proof -
    from x(1) obtain a' where a': "heap e a' = Some x" unfolding spec_live_set [OF ok] ..
    with index_ok_unique [OF engine_ok_index [OF ok] a' d(1)] d x(2) show ?thesis by simp
  qed
  moreover have "d \<in> set (spec_live (abs_engine e))" unfolding spec_live_set [OF ok] using d(1) ..
  ultimately have "find (\<lambda>x. key_of x = k) (spec_live (abs_engine e)) = Some d"
    using d(2) by (intro find_unique) blast+
  then show ?thesis using d(1) Some by (simp add: spec_lookup_def)
qed

section \<open>Matching\<close>

lemma match_orders_by_side:
  "match_orders b taker e =
     rbind (match_side crosses on_trade on_release (side_of (opposite (os_side taker)) b) taker e)
       (\<lambda>(m, taker', e', s). Inr (with_side (opposite (os_side taker)) m b, taker', e', s))"
  by (simp add: match_orders_def split: side.split)

lemma evolves_emitted:
  assumes "evolves e e'" "trade_log (emitted e') = trade_log (emitted e) @ us"
  shows "emitted e' = emitted e @ map (\<lambda>t. On_Market_Data (Trade t)) (number_trades (next_trade_id e) us) \<and>
         next_trade_id e' = next_trade_id e + of_nat (length us)"
proof -
  from assms(1) obtain ts where ts: "\<forall>t\<in>set ts. tr_trade_id t = 0"
    "emitted e' = emitted e @ map (\<lambda>t. On_Market_Data (Trade t)) (number_trades (next_trade_id e) ts)"
    "next_trade_id e' = next_trade_id e + of_nat (length ts)" by (auto simp: evolves_def)
  then have "ts = us" using assms(2) trade_log_number [OF ts(1)] by simp
  with ts show ?thesis by simp
qed

lemma key_of_leaves [simp]: "key_of (d\<lparr>os_leaves_qty := z\<rparr>) = key_of d"
  by (simp add: key_of_def)

lemma fill_orders_rest_key:
  assumes fl: "fill_orders cr q ds = (fills, q', rest)" and d: "d \<in> set rest"
  shows "\<exists>x\<in>set ds. key_of d = key_of x"
proof -
  from d have "rest \<noteq> []" by auto
  from fill_orders_rest [OF fl this] obtain us y vs where y: "ds = us @ y # vs"
    "rest = y # vs \<or> (\<exists>z. rest = y\<lparr>os_leaves_qty := z\<rparr> # vs)" by blast
  from y(2) d have "d \<in> set (y # vs) \<or> (\<exists>z. d = y\<lparr>os_leaves_qty := z\<rparr>)" by auto
  then show ?thesis using y(1) by auto
qed

lemma uncrossed_subset:
  "uncrossed b \<Longrightarrow> set (map fst m') \<subseteq> set (map fst (side_of s b)) \<Longrightarrow> uncrossed (with_side s m' b)"
  unfolding uncrossed_def by (cases s) (simp_all del: set_map, blast+)

lemma match_orders_refines:
  assumes ok: "engine_ok e" and b: "(sy, b) \<in> set (books e)"
    and fl: "fill_orders (crosses taker) (os_leaves_qty taker)
               (resting_orders e (side_of (opposite (os_side taker)) b)) = (fills, q, rest)"
  shows "\<exists>m' e'. match_orders b taker e =
             Inr (with_side (opposite (os_side taker)) m' b, taker\<lparr>os_leaves_qty := q\<rparr>, e',
                  executed no_execution fills) \<and>
           engine_ok (put_book sy (with_side (opposite (os_side taker)) m' b) e') \<and>
           side_ok sy (opposite (os_side taker)) e' m' \<and> resting_orders e' m' = rest \<and>
           books e' = books e \<and>
           (\<forall>k. resting_index e k = None \<longrightarrow> resting_index e' k = None) \<and>
           (\<forall>a. heap e a = None \<longrightarrow> heap e' a = None) \<and>
           abs_engine (put_book sy (with_side (opposite (os_side taker)) m' b) e') =
             spec_put sy (opposite (os_side taker)) rest
               (spec_trades (map (trade_of taker) fills) (abs_engine e))"
proof -
  let ?s = "opposite (os_side taker)"
  let ?m = "side_of ?s b"
  have so: "side_ok sy ?s e ?m" by (rule engine_ok_side [OF ok b])
  from matcher.match_side_spec [where cross = crosses and taker = taker, OF so crosses_leaves fl] obtain m' e' where
    ms: "match_side crosses on_trade on_release ?m taker e =
           Inr (m', taker\<lparr>os_leaves_qty := q\<rparr>, e', executed no_execution fills)"
    and res: "side_result (\<lambda>e. trade_log (emitted e)) evolves sy ?s taker ?m e fills rest m' e'" by auto
  from res obtain gone where gone: "side_addrs ?m = gone @ side_addrs m'" "\<forall>a\<in>set gone. heap e' a = None"
    by (auto simp: side_result_def)
  have parts: "side_ok sy ?s e' m'" "\<And>a. a \<notin> set (side_addrs ?m) \<Longrightarrow> heap e' a = heap e a"
    "resting_orders e' m' = rest" "set (map fst m') \<subseteq> set (map fst ?m)" "evolves e e'"
    "trade_log (emitted e') = trade_log (emitted e) @ map (trade_of taker) fills"
    using res by (auto simp: side_result_def)
  have idx: "index_ok e'" and bk: "books e' = books e" and ex: "next_exec_id e' = next_exec_id e"
    using parts(5) engine_ok_index [OF ok] by (auto simp: evolves_def)
  have un: "uncrossed (with_side ?s m' b)"
    by (rule uncrossed_subset [OF engine_ok_uncrossed [OF ok b] parts(4)])
  let ?e = "put_book sy (with_side ?s m' b) e'"
  have so': "side_ok sy ?s ?e m'" and ro': "resting_orders ?e m' = rest"
    using parts(1,3) side_ok_cong [of m' ?e e'] resting_orders_cong [of m' ?e e'] by simp_all
  have upd: "engine_ok ?e \<and> sp_books (abs_engine ?e) = sp_books (spec_put sy ?s (resting_orders ?e m') (abs_engine e))"
  proof (rule engine_ok_update [OF ok b _ so' un])
    show "books ?e = books (put_book sy (with_side ?s m' b) e)" by (simp add: books_put_book bk)
    show "index_ok ?e" using idx by (simp add: index_ok_def)
    fix a
    show "a \<notin> set (side_addrs ?m) \<Longrightarrow> a \<notin> set (side_addrs m') \<Longrightarrow> heap ?e a = heap e a"
      using parts(2) by simp
    show "a \<in> set (side_addrs m') \<Longrightarrow> a \<notin> set (side_addrs ?m) \<Longrightarrow> heap e a = None"
      using gone(1) by simp
    show "a \<in> set (side_addrs ?m) \<Longrightarrow> a \<notin> set (side_addrs m') \<Longrightarrow> heap ?e a = None"
      using gone by auto
  qed
  note em = evolves_emitted [OF parts(5,6)]
  have free: "heap e' a = None" if "heap e a = None" for a
  proof -
    have "a \<notin> set (side_addrs ?m)" using engine_ok_addr [OF ok b] that by fastforce
    then show ?thesis using parts(2) that by simp
  qed
  have "resting_index e' k = None" if k: "resting_index e k = None" for k
  proof (rule ccontr)
    assume "resting_index e' k \<noteq> None"
    then obtain a d where d: "heap e' a = Some d" "key_of d = k" using index_ok_lookup [OF idx] by blast
    have "\<exists>x. heap e a = Some x \<and> key_of x = key_of d"
    proof (cases "a \<in> set (side_addrs ?m)")
      case True
      with gone d(1) have am: "a \<in> set (side_addrs m')" by auto
      have "d \<in> set rest"
        using am d(1) parts(3) mem_resting_orders [of d e' m'] by force
      then obtain x where x: "x \<in> set (resting_orders e ?m)" "key_of d = key_of x"
        using fill_orders_rest_key [OF fl] by blast
      then obtain a' where a': "a' \<in> set (side_addrs ?m)" "x = the (heap e a')" by (auto simp: resting_orders_addrs)
      from engine_ok_addr [OF ok b a'(1)] a'(2) have "heap e a' = Some x" by auto
      then have "resting_index e (key_of x) = Some a'" by (rule index_okD [OF engine_ok_index [OF ok]])
      with k d(2) x(2) show ?thesis by simp
    next
      case False
      then show ?thesis using parts(2) d(1) by auto
    qed
    then show False using k d(2) index_okD [OF engine_ok_index [OF ok]] by fastforce
  qed
  moreover have "abs_engine ?e = spec_put sy ?s rest (spec_trades (map (trade_of taker) fills) (abs_engine e))"
  proof (rule spec_engine.equality)
    show "sp_books (abs_engine ?e) = sp_books (spec_put sy ?s rest (spec_trades (map (trade_of taker) fills) (abs_engine e)))"
      using upd ro' by (simp add: spec_put_def spec_trades_def spec_emit_def)
  qed (use em ex in \<open>simp_all add: spec_trades_def spec_emit_def\<close>)
  ultimately show ?thesis
    using ms upd bk parts(1,3) free by (auto simp: match_orders_by_side)
qed

end
