(* ===== verification/Engine_New_Order.thy ===== *)
theory Engine_New_Order
  imports Engine_Correct
begin

text \<open>
  \<open>new_order_single\<close>: the handler keeps the invariant and implements \<open>spec_new_order\<close>.
\<close>

section \<open>Resting the residual\<close>

lemma uncrossed_place:
  assumes "uncrossed b" "os_side d = s" "os_price d \<noteq> 0"
    and "set (map fst m') = insert (os_price d) (set (map fst (side_of s b)))"
    and "\<And>q. q \<in> set (map fst (side_of (opposite s) b)) \<Longrightarrow> \<not> crosses d q"
  shows "uncrossed (with_side s m' b)"
proof (cases s)
  case Buy
  have "os_price d < q" if "q \<in> set (map fst (asks b))" for q
    using assms(2,3) assms(5) [of q] that Buy by (simp add: crosses_def)
  then show ?thesis using assms(1,4) Buy unfolding uncrossed_def by (simp del: set_map)
next
  case Sell
  have "q < os_price d" if "q \<in> set (map fst (bids b))" for q
    using assms(2,3) assms(5) [of q] that Sell by (simp add: crosses_def)
  then show ?thesis using assms(1,4) Sell unfolding uncrossed_def by (simp del: set_map)
qed

lemma rest_residual_refines:
  assumes ok: "engine_ok e" and b: "(sy, b) \<in> set (books e)"
    and d: "resting_ok sy s (os_price d) d"
    and idx: "resting_index e (key_of d) = None"
    and n: "heap e n = None"
    and cr: "\<And>q. q \<in> set (map fst (side_of (opposite s) b)) \<Longrightarrow> \<not> crosses d q"
  shows "\<exists>b' e'. rest_residual (Some n) (key_of d) d b e = Inr (b', e') \<and> engine_ok e' \<and>
           (sy, b') \<in> set (books e') \<and>
           abs_engine e' = spec_put sy s (insert_order s d (resting_orders e (side_of s b))) (abs_engine e)"
proof -
  let ?m = "side_of s b"
  define e1 where "e1 = e\<lparr>heap := (heap e)(n \<mapsto> d)\<rparr>"
  define m' where "m' = place_into (before s) n d ?m"
  define b' where "b' = with_side s m' b"
  define e2 where "e2 = emplace_index (key_of d) n (put_book sy b' e1)"
  have ds: "os_symbol d = sy" "os_side d = s" "os_price d \<noteq> 0" using d by (auto simp: resting_ok_def)
  have out: "n \<notin> set (side_addrs ?m)" using engine_ok_addr [OF ok b, of n s] n by auto
  have same: "heap e1 a = heap e a" if "a \<in> set (side_addrs ?m)" for a
    using out that by (auto simp: e1_def)
  have so1: "side_ok sy s e1 ?m" using side_ok_cong [of ?m e1 e] same engine_ok_side [OF ok b] by blast
  have ro1: "resting_orders e1 ?m = resting_orders e ?m" by (rule resting_orders_cong) (rule same)
  have h1: "heap e1 n = Some d" by (simp add: e1_def)
  note placed = place_into_ok [OF so1 h1 out d, folded m'_def, unfolded ro1]
  have run: "rest_residual (Some n) (key_of d) d b e = Inr (b', e2)"
    using h1 by (simp add: rest_residual_def allocate_node_def e1_def [symmetric] place_by_side ds
        m'_def b'_def e2_def)
  have i1: "resting_index e1 = resting_index e" "books e1 = books e" by (simp_all add: e1_def)
  have e2: "heap e2 = heap e1" "books e2 = books (put_book sy b' e)"
    "resting_index e2 = (resting_index e)(key_of d \<mapsto> n)" "next_exec_id e2 = next_exec_id e"
    "next_trade_id e2 = next_trade_id e" "emitted e2 = emitted e"
    using idx by (simp_all add: e2_def emplace_index_def put_book_def e1_def)
  have so2: "side_ok sy s e2 m'" using placed side_ok_cong [of m' e2 e1] e2(1) by simp
  have ro2: "resting_orders e2 m' = insert_order s d (resting_orders e ?m)"
    using placed resting_orders_cong [of m' e2 e1] e2(1) by simp
  have un: "uncrossed b'"
    unfolding b'_def using placed uncrossed_place [OF engine_ok_uncrossed [OF ok b] ds(2,3) _ cr] by blast
  have upd: "engine_ok e2 \<and> sp_books (abs_engine e2) = sp_books (spec_put sy s (resting_orders e2 m') (abs_engine e))"
  proof (rule engine_ok_update [OF ok b _ so2 un [unfolded b'_def]])
    show "books e2 = books (put_book sy (with_side s m' b) e)" using e2(2) by (simp add: b'_def)
    show "index_ok e2"
      by (rule index_ok_add [OF engine_ok_index [OF ok] n idx]) (simp_all add: e2 e1_def)
    fix a
    show "a \<notin> set (side_addrs m') \<Longrightarrow> heap e2 a = heap e a" using placed by (auto simp: e2(1) e1_def)
    show "a \<in> set (side_addrs m') \<Longrightarrow> a \<notin> set (side_addrs ?m) \<Longrightarrow> heap e a = None" using placed n by auto
    show "a \<in> set (side_addrs ?m) \<Longrightarrow> a \<notin> set (side_addrs m') \<Longrightarrow> heap e2 a = None" using placed by auto
  qed
  have "abs_engine e2 = spec_put sy s (insert_order s d (resting_orders e ?m)) (abs_engine e)"
    by (rule spec_engine.equality) (use upd ro2 e2 in simp_all)
  moreover have "(sy, b') \<in> set (books e2)" using b by (auto simp: e2(2) books_put_book mem_put rev_image_eqI)
  ultimately show ?thesis using run upd by blast
qed


section \<open>A new order\<close>

lemma crosses_anti:
  "\<not> crosses d p \<Longrightarrow> before (opposite (os_side d)) p q \<Longrightarrow> \<not> crosses d q"
  by (cases "os_side d") (auto simp: crosses_def split: if_splits)

lemma not_crossing_beyond:
  assumes so: "side_ok sy (opposite (os_side d)) st m"
    and hd: "resting_orders st m = [] \<or> \<not> crosses d (os_price (hd (resting_orders st m)))"
    and q: "q \<in> set (map fst m)"
  shows "\<not> crosses d q"
proof (cases m)
  case Nil
  with q show ?thesis by simp
next
  case (Cons x m')
  obtain p l where x: "x = (p, l)" by (cases x)
  have "best_price m = Some p" by (simp add: Cons x best_price_def)
  then have "\<not> crosses d p"
    using best_price_eq_head [OF so] hd by (auto split: list.splits)
  moreover have "q = p \<or> before (opposite (os_side d)) p q"
    using q so by (auto simp: Cons x side_ok_Cons)
  ultimately show ?thesis using crosses_anti by blast
qed

lemma make_order_state_fields [simp]:
  "os_side (make_order_state r) = nos_side r" "os_price (make_order_state r) = nos_price r"
  "os_symbol (make_order_state r) = nos_symbol r" "os_leaves_qty (make_order_state r) = nos_order_qty r"
  "os_order_qty (make_order_state r) = nos_order_qty r"
  "key_of (make_order_state r) = \<lparr>ok_client_id = nos_client_id r, ok_cl_ord_id = nos_cl_ord_id r\<rparr>"
  by (simp_all add: make_order_state_def key_of_def)

lemma executed_trades [simp]: "xs_trades (executed no_execution fills) = length fills"
  by (simp add: executed_def no_execution_def)

lemma own_best_eq:
  "engine_ok e \<Longrightarrow> (sy, b) \<in> set (books e) \<Longrightarrow>
   (if s = Buy then best_bid b else best_ask b) = spec_best (resting_orders e (side_of s b))"
  using best_price_eq_spec [OF engine_ok_side [of e sy b s]] by (cases s) (simp_all add: best_bid_def best_ask_def)

lemma spec_lookup_cong: "sp_books sp' = sp_books sp \<Longrightarrow> spec_lookup k sp' = spec_lookup k sp"
  by (simp add: spec_lookup_def spec_live_def)

lemma map_of_spec_put:
  "map_of (sp_books (spec_put sy s ds sp)) sy' =
     (if sy' = sy then map_option (\<lambda>b. b(s := ds)) (map_of (sp_books sp) sy) else map_of (sp_books sp) sy')"
proof -
  have "map_of (map (\<lambda>(sy', b). if sy' = sy then (sy', b(s := ds)) else (sy', b)) bs) sy' =
     (if sy' = sy then map_option (\<lambda>b. b(s := ds)) (map_of bs sy) else map_of bs sy')" for bs :: "(symbol \<times> spec_book) list"
    by (induction bs) (auto simp: fun_upd_def)
  then show ?thesis by (simp add: spec_put_def)
qed

lemma map_of_abs_mem:
  "engine_ok e \<Longrightarrow> (sy, b) \<in> set (books e) \<Longrightarrow> map_of (sp_books (abs_engine e)) sy = Some (abs_book e b)"
  using map_of_books [of e sy b] by (simp add: map_of_abs)

lemma spec_books [simp]:
  "sp_books (spec_emit os sp) = sp_books sp"
  "sp_books (spec_report d et ost ori lq lp sp) = sp_books sp"
  "sp_books (spec_trades ts sp) = sp_books sp"
  "sp_books (spec_execution r d fills sp) = sp_books sp"
  "sp_books (spec_book_update sy s sec sp) = sp_books sp"
  "sp_books (spec_reject c reason txt sp) = sp_books sp"
  by (simp_all add: spec_emit_def spec_report_def spec_trades_def spec_execution_def spec_book_update_def
      spec_reject_def Let_def)

lemma opposite_neq [simp]: "opposite s \<noteq> s" "s \<noteq> opposite s"
  by (cases s; simp)+

lemma rest_or_not_refines:
  assumes ok: "engine_ok e" and b: "(sy, b) \<in> set (books e)"
    and d: "c \<Longrightarrow> resting_ok sy s (os_price d) d"
    and idx: "resting_index e (key_of d) = None"
    and slot: "c \<Longrightarrow> slot = Some n \<and> heap e n = None"
    and cr: "\<And>q. c \<Longrightarrow> q \<in> set (map fst (side_of (opposite s) b)) \<Longrightarrow> \<not> crosses d q"
  shows "\<exists>b' e'. (if c then rest_residual slot (key_of d) d b e else Inr (b, e)) = Inr (b', e') \<and>
           engine_ok e' \<and> (sy, b') \<in> set (books e') \<and>
           abs_engine e' = (if c then spec_put sy s (insert_order s d (resting_orders e (side_of s b))) (abs_engine e)
                            else abs_engine e)"
proof (cases c)
  case True
  with rest_residual_refines [OF ok b d idx _ cr, of n] slot show ?thesis by simp
qed (use ok b in simp)

lemma new_order_accepted:
  assumes ok: "engine_ok e" and fresh: "slot_fresh slot e"
    and dup: "resting_index e (key_of (make_order_state r)) = None"
    and b: "(nos_symbol r, b) \<in> set (books e)"
    and fl: "fill_orders (crosses (make_order_state r)) (nos_order_qty r)
               (resting_orders e (side_of (opposite (nos_side r)) b)) = (fills, q, rest)"
    and slot: "q \<noteq> 0 \<and> nos_price r \<noteq> 0 \<Longrightarrow> slot \<noteq> None"
  shows "\<exists>e'. handle_new_order_single_impl slot r e = Inr (None, e') \<and> engine_ok e' \<and>
              spec_new_order r (abs_engine e) = (None, abs_engine e')"
proof -
  define d where "d = make_order_state r"
  define s where "s = nos_side r"
  define sy where "sy = nos_symbol r"
  define d' where "d' = d\<lparr>os_leaves_qty := q\<rparr>"
  define e1 where "e1 = emit_execution_report d Exec_New_Order Status_New_Order None None None e"
  have ok1: "engine_ok e1" and b1: "(sy, b) \<in> set (books e1)" and h1: "heap e1 = heap e"
    and i1: "resting_index e1 = resting_index e" using ok b by (simp_all add: e1_def sy_def)
  have ro1: "resting_orders e1 m = resting_orders e m" for m by (simp add: resting_orders_addrs h1)
  have "fill_orders (crosses d) (os_leaves_qty d) (resting_orders e1 (side_of (opposite (os_side d)) b)) = (fills, q, rest)"
    using fl by (simp add: d_def ro1)
  from match_orders_refines [OF ok1 b1 this] obtain m' e2 where
    mt: "match_orders b d e1 = Inr (with_side (opposite s) m' b, d', e2, executed no_execution fills)"
    and "engine_ok (put_book sy (with_side (opposite s) m' b) e2)" "side_ok sy (opposite s) e2 m'"
      "resting_orders e2 m' = rest" "books e2 = books e1"
      "resting_index e2 (key_of d) = None" "\<forall>a. heap e a = None \<longrightarrow> heap e2 a = None"
    and "abs_engine (put_book sy (with_side (opposite s) m' b) e2) =
         spec_put sy (opposite s) rest (spec_trades (map (trade_of d) fills) (abs_engine e1))"
    using dup by (auto simp: d_def s_def i1 h1 d'_def)
  define bk where "bk = with_side (opposite s) m' b"
  define e3 where "e3 = put_book sy bk e2"
  define e4 where "e4 = report_execution r d' (executed no_execution fills) e3"
  define c where "c = (q \<noteq> 0 \<and> nos_price r \<noteq> 0)"
  note match = \<open>match_orders b d e1 = _\<close> [folded bk_def]
  have ok3: "engine_ok e3" using \<open>engine_ok (put_book _ _ _)\<close> by (simp add: e3_def bk_def)
  then have ok4: "engine_ok e4" by (simp add: e4_def)
  have b4: "(sy, bk) \<in> set (books e4)"
    using b1 \<open>books e2 = books e1\<close> by (auto simp: e4_def e3_def books_put_book mem_put rev_image_eqI)
  have i4: "resting_index e4 (key_of d') = None"
    using \<open>resting_index e2 (key_of d) = None\<close> by (simp add: e4_def e3_def d'_def)
  have free: "heap e4 a = None" if "heap e a = None" for a
    using \<open>\<forall>a. heap e a = None \<longrightarrow> heap e2 a = None\<close> that by (simp add: e4_def e3_def)
  have a3: "abs_engine e3 = spec_put sy (opposite s) rest (spec_trades (map (trade_of d) fills) (abs_engine e1))"
    using \<open>abs_engine (put_book _ _ _) = _\<close> by (simp add: e3_def bk_def)
  have a4: "abs_engine e4 = spec_execution r d' fills (abs_engine e3)"
    by (simp add: e4_def abs_report_execution)
  have rd: "resting_ok sy s (os_price d') d'" if c
    using fill_orders_unat [OF fl] that by (auto simp: resting_ok_def d'_def d_def s_def sy_def c_def word_le_nat_alt)
  have opp: "side_of (opposite s) bk = m'" by (simp add: bk_def side_of_with_side)
  have cross: "\<not> crosses d' p" if "c" "p \<in> set (map fst (side_of (opposite s) bk))" for p
  proof -
    have "rest = [] \<or> \<not> crosses d (os_price (hd rest))"
      using fill_orders_left [OF fl] that(1) by (simp add: c_def d_def)
    then show ?thesis
      using not_crossing_beyond [of sy d e2 m' p] that(2) \<open>side_ok sy (opposite s) e2 m'\<close> \<open>resting_orders e2 m' = rest\<close>
      by (simp add: d'_def opp [unfolded s_def] s_def d_def)
  qed
  obtain n where n: "c \<Longrightarrow> slot = Some n \<and> heap e4 n = None"
    using slot fresh free by (auto simp: c_def slot_fresh_def)
  from rest_or_not_refines [OF ok4 b4 rd i4 n cross] obtain b5 e5 where
    rs: "(if c then rest_residual slot (key_of d') d' bk e4 else Inr (bk, e4)) = Inr (b5, e5)"
    and ok5: "engine_ok e5" and b5: "(sy, b5) \<in> set (books e5)"
    and a5: "abs_engine e5 = (if c then spec_put sy s (insert_order s d' (resting_orders e4 (side_of s bk))) (abs_engine e4)
                              else abs_engine e4)" by blast
  define b0 where "b0 = abs_book e b"
  define sec where "sec = nos_security_id r"
  define e6 where "e6 = (if fills \<noteq> [] then emit_mbo_book_update b5 (opposite s) sec e5 else e5)"
  define e7 where "e7 = (if c \<and> (if s = Buy then best_bid b5 else best_ask b5) = Some (nos_price r)
                         then emit_mbo_book_update b5 s sec e6 else e6)"
  have m0: "map_of (sp_books (abs_engine e)) sy = Some b0"
    using map_of_abs_mem [OF ok b] by (simp add: b0_def sy_def)
  have a1: "abs_engine e1 = spec_report d Exec_New_Order Status_New_Order None None None (abs_engine e)"
    by (simp add: e1_def abs_report)
  have "abs_book e4 bk = b0(opposite s := rest)"
    using map_of_abs_mem [OF ok4 b4] m0 by (simp add: a4 a3 a1 map_of_spec_put)
  then have own4: "resting_orders e4 (side_of s bk) = b0 s"
    by (simp add: abs_book_def fun_eq_iff)
  have "abs_book e5 b5 = (if c then b0(opposite s := rest, s := insert_order s d' (b0 s)) else b0(opposite s := rest))"
    using map_of_abs_mem [OF ok5 b5] m0 by (simp add: a5 a4 a3 a1 map_of_spec_put own4 split: if_splits)
  then have own5: "c \<Longrightarrow> resting_orders e5 (side_of s b5) = insert_order s d' (b0 s)"
    by (simp add: abs_book_def fun_eq_iff)
  have a6: "abs_engine e6 = (if fills \<noteq> [] then spec_book_update sy (opposite s) sec (abs_engine e5) else abs_engine e5)"
    using abs_mbo [OF ok5 b5] by (simp add: e6_def)
  have ok6: "engine_ok e6" and b6: "(sy, b5) \<in> set (books e6)" using ok5 b5 by (simp_all add: e6_def)
  have a7: "abs_engine e7 = (if c \<and> spec_best (insert_order s d' (b0 s)) = Some (nos_price r)
      then spec_book_update sy s sec (abs_engine e6) else abs_engine e6)"
    using abs_mbo [OF ok6 b6] own_best_eq [OF ok5 b5, of s] own5 by (cases c) (simp_all add: e7_def)
  have ok7: "engine_ok e7" using ok6 by (simp add: e7_def)
  have find: "find_book sy e = Inr b" using map_of_books [OF ok, of sy b] b by (simp add: find_book_def sy_def)
  have key: "key_of d' = key_of d" by (simp add: d'_def)
  have kd: "\<lparr>ok_client_id = nos_client_id r, ok_cl_ord_id = nos_cl_ord_id r\<rparr> = key_of d'"
    by (simp add: key d_def)
  have cs: "(os_leaves_qty d' \<noteq> 0 \<and> \<not> os_price d' = 0) = c" by (simp add: c_def d'_def d_def)
  have dup': "resting_index e (key_of d') = None" using dup by (simp add: key d_def)
  note folds = d_def [symmetric] e1_def [symmetric] sy_def [symmetric] e3_def [symmetric] e4_def [symmetric]
    s_def [symmetric] sec_def [symmetric]
  note h = handle_new_order_single_impl_def [of slot r e, unfolded Let_def kd check_duplicate_def folds]
  have run: "handle_new_order_single_impl slot r e = Inr (None, e7)"
  proof (cases c)
    case True
    with cs rs have "os_leaves_qty d' \<noteq> 0" "os_price d' \<noteq> 0"
      "rest_residual slot (key_of d') d' bk e4 = Inr (b5, e5)" by auto
    with True dup' find match show ?thesis
      by (simp add: h folds e6_def e7_def)
  next
    case False
    with cs rs have "os_leaves_qty d' = 0 \<or> os_price d' = 0" "b5 = bk" "e5 = e4" by auto
    with False dup' find match show ?thesis
      by (elim disjE; cases "fills = []") (simp_all add: h folds e6_def e7_def, simp_all add: e4_def)
  qed
  have lk: "spec_lookup \<lparr>ok_client_id = nos_client_id r, ok_cl_ord_id = nos_cl_ord_id r\<rparr> (abs_engine e) = None"
    using dup by (simp add: spec_lookup_abs [OF ok])
  have fl0: "fill_orders (crosses d) (nos_order_qty r) (b0 (opposite s)) = (fills, q, rest)"
    using fl by (simp add: b0_def abs_book_def d_def s_def)
  have "spec_new_order r (abs_engine e) = (None, abs_engine e7)"
    unfolding spec_new_order_def
    using lk m0 fl0 by (simp add: Let_def d_def [symmetric] s_def [symmetric] sy_def [symmetric] sec_def [symmetric]
        d'_def a7 a6 a5 own4 a4 a3 a1 c_def)
  with run ok7 show ?thesis by blast
qed

lemma new_order_bad_alloc:
  assumes ok: "engine_ok e"
    and dup: "resting_index e (key_of (make_order_state r)) = None"
    and b: "(nos_symbol r, b) \<in> set (books e)"
    and fl: "fill_orders (crosses (make_order_state r)) (nos_order_qty r)
               (resting_orders e (side_of (opposite (nos_side r)) b)) = (fills, q, rest)"
    and rests: "q \<noteq> 0" "nos_price r \<noteq> 0"
  shows "handle_new_order_single_impl None r e = Inl Bad_Alloc"
proof -
  define d where "d = make_order_state r"
  define e1 where "e1 = emit_execution_report d Exec_New_Order Status_New_Order None None None e"
  have ok1: "engine_ok e1" and b1: "(nos_symbol r, b) \<in> set (books e1)" and h1: "heap e1 = heap e"
    using ok b by (simp_all add: e1_def)
  have ro1: "resting_orders e1 m = resting_orders e m" for m by (simp add: resting_orders_addrs h1)
  have "fill_orders (crosses d) (os_leaves_qty d) (resting_orders e1 (side_of (opposite (os_side d)) b)) = (fills, q, rest)"
    using fl by (simp add: d_def ro1)
  from match_orders_refines [OF ok1 b1 this] obtain m' e2 where
    mt: "match_orders b d e1 = Inr (with_side (opposite (nos_side r)) m' b, d\<lparr>os_leaves_qty := q\<rparr>, e2,
           executed no_execution fills)"
    by (auto simp: d_def)
  have find: "find_book (nos_symbol r) e = Inr b"
    using map_of_books [OF ok, of "nos_symbol r" b] b by (simp add: find_book_def)
  show ?thesis
    using dup find mt [unfolded d_def e1_def] rests
    by (simp add: handle_new_order_single_impl_def check_duplicate_def Let_def rest_residual_def allocate_node_def)
qed

theorem new_order_refines:
  assumes ok: "engine_ok e" and fresh: "slot_fresh slot e"
  shows "if spec_rests_order r (abs_engine e) \<and> slot = None
         then handle_new_order_single_impl slot r e = Inl Bad_Alloc
         else \<exists>err e'. handle_new_order_single_impl slot r e = Inr (err, e') \<and> engine_ok e' \<and>
                spec_new_order r (abs_engine e) = (err, abs_engine e')"
proof -
  let ?k = "\<lparr>ok_client_id = nos_client_id r, ok_cl_ord_id = nos_cl_ord_id r\<rparr>"
  have lk: "spec_lookup ?k (abs_engine e) = None \<longleftrightarrow> resting_index e ?k = None"
    by (simp add: spec_lookup_abs [OF ok])
  show ?thesis
  proof (cases "resting_index e ?k = None")
    case False
    then show ?thesis using ok lk
      by (simp add: handle_new_order_single_impl_def check_duplicate_def spec_new_order_def spec_rests_order_def Let_def)
  next
    case None: True
    show ?thesis
    proof (cases "map_of (books e) (nos_symbol r)")
      case unknown: None
      then show ?thesis using ok lk None
        by (simp add: handle_new_order_single_impl_def check_duplicate_def find_book_def spec_new_order_def
            spec_rests_order_def map_of_abs Let_def)
    next
      case (Some b)
      then have b: "(nos_symbol r, b) \<in> set (books e)" using map_of_books [OF ok] by blast
      have m0: "map_of (sp_books (abs_engine e)) (nos_symbol r) = Some (abs_book e b)"
        by (rule map_of_abs_mem [OF ok b])
      obtain fills q rest where fl: "fill_orders (crosses (make_order_state r)) (nos_order_qty r)
               (resting_orders e (side_of (opposite (nos_side r)) b)) = (fills, q, rest)"
        by (metis prod_cases3)
      have dup: "resting_index e (key_of (make_order_state r)) = None" using None by simp
      have "fst (spec_new_order r (abs_engine e)) = None"
        using lk None m0 by (simp add: spec_new_order_def Let_def split: prod.splits)
      then have rests: "spec_rests_order r (abs_engine e) \<longleftrightarrow> q \<noteq> 0 \<and> nos_price r \<noteq> 0"
        using m0 fl by (auto simp: spec_rests_order_def abs_book_def)
      show ?thesis
      proof (cases "(q \<noteq> 0 \<and> nos_price r \<noteq> 0) \<and> slot = None")
        case True
        then show ?thesis using new_order_bad_alloc [OF ok dup b fl] rests by simp
      next
        case False
        then have "q \<noteq> 0 \<and> nos_price r \<noteq> 0 \<longrightarrow> slot \<noteq> None" by auto
        from new_order_accepted [OF ok fresh dup b fl this [rule_format]] False show ?thesis
          unfolding rests by auto
      qed
    qed
  qed
qed

end
