(* ===== verification/Engine_Refinement.thy ===== *)
theory Engine_Refinement
  imports Engine_New_Order
begin

text \<open>
  \<open>cancel_order\<close>, \<open>replace_order\<close> and \<open>flush\<close>, then \<open>send\<close> as a whole and the runs of
  the engine: every request keeps the invariant and implements the abstract engine.
\<close>

section \<open>Taking an order out\<close>

lemma resting_orders_remove:
  assumes idx: "index_ok e" and n: "heap e n = Some d" and dist: "distinct (side_addrs m)"
    and live: "\<And>a. a \<in> set (side_addrs m) \<Longrightarrow> heap e a \<noteq> None"
    and m': "side_addrs m' = remove1 n (side_addrs m)" and heap': "heap e' = (heap e)(n := None)"
  shows "resting_orders e' m' = filter (\<lambda>x. key_of x \<noteq> key_of d) (resting_orders e m)"
proof -
  have addrs: "side_addrs m' = filter (\<lambda>a. a \<noteq> n) (side_addrs m)"
    using m' dist by (simp add: distinct_remove1_removeAll removeAll_filter_not_eq eq_commute)
  have "resting_orders e' m' = map (\<lambda>a. the (heap e a)) (side_addrs m')"
    using dist by (simp add: resting_orders_addrs heap' m')
  also have "\<dots> = filter (\<lambda>x. key_of x \<noteq> key_of d) (map (\<lambda>a. the (heap e a)) (side_addrs m))"
  proof -
    have "key_of (the (heap e a)) \<noteq> key_of d \<longleftrightarrow> a \<noteq> n" if a: "a \<in> set (side_addrs m)" for a
    proof -
      from live [OF a] obtain x where x: "heap e a = Some x" by blast
      show ?thesis using index_ok_unique [OF idx x n] x n by auto
    qed
    then show ?thesis by (simp add: addrs filter_map o_def cong: filter_cong)
  qed
  finally show ?thesis by (simp add: resting_orders_addrs)
qed

lemma release_node_result:
  "heap e n = Some d \<Longrightarrow> release_node n e = Inr (e\<lparr>heap := (heap e)(n := None)\<rparr>)"
  by (simp add: release_node_def)

lemma remove_resting_result:
  assumes ok: "engine_ok e" and n: "heap e n = Some d"
  shows "\<exists>b m' b' e'. (os_symbol d, b) \<in> set (books e) \<and> b' = with_side (os_side d) m' b \<and>
           remove_resting (key_of d) n e = Inr (d, best (os_side d) b = Some (os_price d), b', e') \<and>
           engine_ok e' \<and> books e' = books (put_book (os_symbol d) b' e) \<and>
           resting_orders e' m' = filter (\<lambda>x. key_of x \<noteq> key_of d) (resting_orders e (side_of (os_side d) b)) \<and>
           spec_remove d (abs_engine e) = (best (os_side d) b = Some (os_price d), abs_engine e') \<and>
           resting_index e' = (resting_index e)(key_of d := None) \<and> heap e' = (heap e)(n := None) \<and>
           next_exec_id e' = next_exec_id e \<and> next_trade_id e' = next_trade_id e \<and> emitted e' = emitted e"
proof -
  let ?s = "os_side d" and ?sy = "os_symbol d"
  from engine_ok_node [OF ok n] obtain b where b: "(?sy, b) \<in> set (books e)"
    and nm: "n \<in> set (side_addrs (side_of ?s b))" by blast
  let ?m = "side_of ?s b"
  have so: "side_ok ?sy ?s e ?m" by (rule engine_ok_side [OF ok b])
  have idx: "index_ok e" by (rule engine_ok_index [OF ok])
  from cancel_from_ok [OF so nm n] obtain m' where m': "cancel_from (before ?s) n d ?m = Inr m'"
    "side_ok ?sy ?s e m'" "side_addrs m' = remove1 n (side_addrs ?m)" "set (map fst m') \<subseteq> set (map fst ?m)"
    by blast
  define b' where "b' = with_side ?s m' b"
  define e' where "e' = (erase_index (key_of d) (put_book ?sy b' e))\<lparr>heap := (heap e)(n := None)\<rparr>"
  have e': "heap e' = (heap e)(n := None)" "books e' = books (put_book ?sy b' e)"
    "resting_index e' = (resting_index e)(key_of d := None)" "next_exec_id e' = next_exec_id e"
    "next_trade_id e' = next_trade_id e" "emitted e' = emitted e"
    by (simp_all add: e'_def erase_index_def put_book_def)
  have mem: "map_of (books e) ?sy = Some b" using map_of_books [OF ok] b by blast
  have run: "remove_resting (key_of d) n e = Inr (d, best_price ?m = Some (os_price d), b', e')"
    using n mem m'(1) by (simp add: remove_resting_def best_by_side cancel_by_side b'_def [symmetric] Let_def
        release_node_def erase_index_def e'_def)
  have gone: "n \<notin> set (side_addrs m')" and sub: "set (side_addrs m') \<subseteq> set (side_addrs ?m)"
    and others: "\<And>a. a \<in> set (side_addrs ?m) \<Longrightarrow> a \<noteq> n \<Longrightarrow> a \<in> set (side_addrs m')"
    using m'(3) side_ok_distinct [OF so] by auto
  have so': "side_ok ?sy ?s e' m'"
    using m'(2) side_ok_cong [of m' e' e] gone by (metis e'(1) fun_upd_apply)
  have ro': "resting_orders e' m' = filter (\<lambda>x. key_of x \<noteq> key_of d) (resting_orders e ?m)"
    by (rule resting_orders_remove [OF idx n side_ok_distinct [OF so] _ m'(3) e'(1)])
      (use engine_ok_addr [OF ok b, of _ ?s] in auto)
  have un: "uncrossed (with_side ?s m' b)"
    by (rule uncrossed_subset [OF engine_ok_uncrossed [OF ok b] m'(4)])
  have upd: "engine_ok e' \<and> sp_books (abs_engine e') = sp_books (spec_put ?sy ?s (resting_orders e' m') (abs_engine e))"
  proof (rule engine_ok_update [OF ok b _ so' un])
    show "books e' = books (put_book ?sy (with_side ?s m' b) e)" using e'(2) by (simp add: b'_def)
    show "index_ok e'" by (rule index_ok_drop [OF idx n e'(1,3)])
    fix a
    show "a \<notin> set (side_addrs ?m) \<Longrightarrow> heap e' a = heap e a" using nm by (auto simp: e'(1))
    show "a \<in> set (side_addrs m') \<Longrightarrow> a \<notin> set (side_addrs ?m) \<Longrightarrow> heap e a = None" using sub by blast
    show "a \<in> set (side_addrs ?m) \<Longrightarrow> a \<notin> set (side_addrs m') \<Longrightarrow> heap e' a = None"
      using others by (auto simp: e'(1))
  qed
  have "abs_engine e' = spec_put ?sy ?s (filter (\<lambda>x. key_of x \<noteq> key_of d) (resting_orders e ?m)) (abs_engine e)"
    by (rule spec_engine.equality) (use upd ro' e' in simp_all)
  then have "spec_remove d (abs_engine e) = (best_price ?m = Some (os_price d), abs_engine e')"
    using map_of_abs_mem [OF ok b] best_price_eq_spec [OF so] by (simp add: spec_remove_def abs_book_def)
  moreover have "best ?s b = best_price ?m" by (simp add: best_by_side)
  ultimately show ?thesis using b b'_def run upd ro' e' by metis
qed

lemma remove_resting_refines:
  assumes ok: "engine_ok e" and n: "heap e n = Some d"
  shows "\<exists>at b' e'. remove_resting (key_of d) n e = Inr (d, at, b', e') \<and> engine_ok e' \<and>
           (os_symbol d, b') \<in> set (books e') \<and> spec_remove d (abs_engine e) = (at, abs_engine e') \<and>
           resting_index e' = (resting_index e)(key_of d := None) \<and> heap e' = (heap e)(n := None)"
proof -
  from remove_resting_result [OF ok n] obtain b b' e' where
    "(os_symbol d, b) \<in> set (books e)" and bk: "books e' = books (put_book (os_symbol d) b' e)"
    and rest: "remove_resting (key_of d) n e = Inr (d, best (os_side d) b = Some (os_price d), b', e')" "engine_ok e'"
    "spec_remove d (abs_engine e) = (best (os_side d) b = Some (os_price d), abs_engine e')"
    "resting_index e' = (resting_index e)(key_of d := None)" "heap e' = (heap e)(n := None)" by metis
  then have "(os_symbol d, b') \<in> set (books e')" unfolding bk books_put_book mem_put by (auto simp: rev_image_eqI)
  with rest show ?thesis by blast
qed

section \<open>cancel_order\<close>

theorem cancel_refines:
  assumes ok: "engine_ok e"
  shows "\<exists>e'. handle_cancel_order c e = Inr e' \<and> engine_ok e' \<and> abs_engine e' = spec_cancel c (abs_engine e)"
proof -
  define k where "k = \<lparr>ok_client_id = co_client_id c, ok_cl_ord_id = co_orig_cl_ord_id c\<rparr>"
  show ?thesis
  proof (cases "resting_index e k")
    case None
    then show ?thesis using ok
      by (simp add: handle_cancel_order_def spec_cancel_def k_def [symmetric] spec_lookup_abs [OF ok] abs_reject)
  next
    case (Some n)
    from index_ok_lookup [OF engine_ok_index [OF ok] Some] obtain d where d: "heap e n = Some d" "key_of d = k" by blast
    from remove_resting_refines [OF ok d(1)] obtain at b' e1 where
      rm: "remove_resting k n e = Inr (d, at, b', e1)" and ok1: "engine_ok e1" and b1: "(os_symbol d, b') \<in> set (books e1)"
      and sp: "spec_remove d (abs_engine e) = (at, abs_engine e1)" unfolding d(2) by blast
    define e2 where "e2 = emit_execution_report d Exec_Canceled Status_Canceled (Some (co_orig_cl_ord_id c)) None None e1"
    have ok2: "engine_ok e2" and b2: "(os_symbol d, b') \<in> set (books e2)" using ok1 b1 by (simp_all add: e2_def)
    have a2: "abs_engine e2 = spec_report d Exec_Canceled Status_Canceled (Some (co_orig_cl_ord_id c)) None None (abs_engine e1)"
      by (simp add: e2_def abs_report)
    show ?thesis
      using Some rm sp d ok2 abs_mbo [OF ok2 b2]
      by (simp add: handle_cancel_order_def spec_cancel_def k_def [symmetric] spec_lookup_abs [OF ok] e2_def [symmetric]
          a2 [symmetric] Let_def)
  qed
qed

section \<open>replace_order\<close>

text \<open>Does the replacement rest, so that the engine must allocate?\<close>

definition replace_rests :: "replace_order \<Rightarrow> spec_engine \<Rightarrow> bool" where
  "replace_rests r sp \<longleftrightarrow>
     spec_lookup \<lparr>ok_client_id = ro_client_id r, ok_cl_ord_id = ro_cl_ord_id r\<rparr> sp = None \<and>
     (case spec_lookup \<lparr>ok_client_id = ro_client_id r, ok_cl_ord_id = ro_orig_cl_ord_id r\<rparr> sp of
        None \<Rightarrow> False
      | Some d \<Rightarrow> spec_rests_order (replacement_order r) (snd (spec_remove d sp)))"

lemma spec_rests_order_cong:
  assumes "sp_books sp' = sp_books sp"
  shows "spec_rests_order r sp' = spec_rests_order r sp"
proof -
  have "fst (spec_new_order r sp') = None \<longleftrightarrow> fst (spec_new_order r sp) = None"
    using spec_lookup_cong [OF assms] by (simp add: spec_new_order_def assms Let_def split: option.split prod.split)
  then show ?thesis by (simp add: spec_rests_order_def assms)
qed

theorem replace_refines:
  assumes ok: "engine_ok e" and fresh: "slot_fresh slot e"
  shows "if replace_rests r (abs_engine e) \<and> slot = None
         then handle_replace_order slot r e = Inl Bad_Alloc
         else \<exists>e'. handle_replace_order slot r e = Inr e' \<and> engine_ok e' \<and>
                abs_engine e' = spec_replace r (abs_engine e)"
proof -
  define k where "k = \<lparr>ok_client_id = ro_client_id r, ok_cl_ord_id = ro_orig_cl_ord_id r\<rparr>"
  define k' where "k' = \<lparr>ok_client_id = ro_client_id r, ok_cl_ord_id = ro_cl_ord_id r\<rparr>"
  note folds = k_def [symmetric] k'_def [symmetric] spec_lookup_abs [OF ok]
  show ?thesis
  proof (cases "resting_index e k")
    case None
    then show ?thesis using ok
      by (simp add: handle_replace_order_def spec_replace_def replace_rests_def folds abs_reject)
  next
    case (Some n)
    from index_ok_lookup [OF engine_ok_index [OF ok] Some] obtain d where d: "heap e n = Some d" "key_of d = k" by blast
    from remove_resting_refines [OF ok d(1)] obtain at b' e1 where
      rm: "remove_resting k n e = Inr (d, at, b', e1)" and ok1: "engine_ok e1" and b1: "(os_symbol d, b') \<in> set (books e1)"
      and sp: "spec_remove d (abs_engine e) = (at, abs_engine e1)" and h1: "heap e1 = (heap e)(n := None)"
      unfolding d(2) by blast
    define e2 where "e2 = (if at then emit_mbo_book_update b' (os_side d) (os_security_id d) e1 else e1)"
    have ok2: "engine_ok e2" and fresh2: "slot_fresh slot e2"
      using ok1 fresh by (auto simp: e2_def slot_fresh_def h1)
    have a2: "abs_engine e2 = (if at then spec_book_update (os_symbol d) (os_side d) (os_security_id d) (abs_engine e1)
                               else abs_engine e1)"
      using abs_mbo [OF ok1 b1] by (simp add: e2_def)
    then have same: "sp_books (abs_engine e2) = sp_books (abs_engine e1)" by simp
    show ?thesis
    proof (cases "resting_index e k' = None")
      case False
      then obtain x where "resting_index e k' = Some x" by blast
      then show ?thesis using Some ok
        by (simp add: handle_replace_order_def spec_replace_def replace_rests_def folds abs_reject)
    next
      case True
      have rests: "replace_rests r (abs_engine e) = spec_rests_order (replacement_order r) (abs_engine e2)"
        using True Some d sp spec_rests_order_cong [OF same] by (simp add: replace_rests_def folds)
      have code: "handle_replace_order slot r e =
          rbind (handle_new_order_single_impl slot (replacement_order r) e2) (\<lambda>(err, e3).
             Inr (case err of
                    None \<Rightarrow> e3
                  | Some (Err_Duplicate_Order _ _) \<Rightarrow>
                      emit_cancel_reject (replace_cancel r) Duplicate_Order ''duplicate cl_ord_id'' e3
                  | Some (Err_Unknown_Symbol _) \<Rightarrow>
                      emit_cancel_reject (replace_cancel r) Unknown_Symbol ''unknown symbol'' e3))"
        using True Some rm by (simp add: handle_replace_order_def folds e2_def Let_def)
      have spec: "spec_replace r (abs_engine e) =
          (case spec_new_order (replacement_order r) (abs_engine e2) of
                   (None, sp3) \<Rightarrow> sp3
                 | (Some (Err_Duplicate_Order _ _), sp3) \<Rightarrow>
                     spec_reject (replace_cancel r) Duplicate_Order ''duplicate cl_ord_id'' sp3
                 | (Some (Err_Unknown_Symbol _), sp3) \<Rightarrow>
                     spec_reject (replace_cancel r) Unknown_Symbol ''unknown symbol'' sp3)"
        using True Some d sp a2 by (simp add: spec_replace_def folds Let_def)
      show ?thesis
      proof (cases "spec_rests_order (replacement_order r) (abs_engine e2) \<and> slot = None")
        case True
        with new_order_refines [OF ok2 fresh2, of "replacement_order r"] code rests show ?thesis by simp
      next
        case False
        with new_order_refines [OF ok2 fresh2, of "replacement_order r"] obtain err e3 where
          no: "handle_new_order_single_impl slot (replacement_order r) e2 = Inr (err, e3)" "engine_ok e3"
          "spec_new_order (replacement_order r) (abs_engine e2) = (err, abs_engine e3)" by auto
        show ?thesis
          unfolding rests code spec no using False no(2)
          by (auto simp: abs_reject split: option.split engine_error.split)
      qed
    qed
  qed
qed

section \<open>flush\<close>

lemma drain_side_spec:
  assumes "\<forall>(p, l)\<in>set m. lv_orders l \<noteq> []" "distinct (side_addrs m)"
    and "\<forall>a\<in>set (side_addrs m). heap e a \<noteq> None" "index_ok e"
  shows "\<exists>e'. drain_side m e = Inr e' \<and> heap e' = heap e |` (- set (side_addrs m)) \<and> index_ok e' \<and>
           books e' = books e \<and> next_exec_id e' = next_exec_id e \<and> next_trade_id e' = next_trade_id e \<and>
           emitted e' = emitted e"
  using assms
proof (induction m e rule: drain_side.induct)
  case (1 e)
  then show ?case by simp
next
  case (2 p level m e)
  from "2.prems"(1) obtain node nodes where lv: "lv_orders level = node # nodes"
    by (cases "lv_orders level") auto
  from "2.prems"(3) lv obtain d where d: "heap e node = Some d" by auto
  define e1 where "e1 = (erase_index (key_of d) e)\<lparr>heap := (heap e)(node := None)\<rparr>"
  define m1 where "m1 = (if nodes = [] then m else (p, level\<lparr>lv_orders := nodes\<rparr>) # m)"
  have rel: "release_node node (erase_index (key_of d) e) = Inr e1"
    using d by (simp add: release_node_def erase_index_def e1_def)
  have f: "heap e1 = (heap e)(node := None)" "books e1 = books e" "next_exec_id e1 = next_exec_id e"
    "next_trade_id e1 = next_trade_id e" "emitted e1 = emitted e"
    "resting_index e1 = (resting_index e)(key_of d := None)"
    by (simp_all add: e1_def erase_index_def)
  have addrs: "side_addrs ((p, level) # m) = node # side_addrs m1" by (simp add: lv m1_def)
  have pre: "\<forall>(p, l)\<in>set m1. lv_orders l \<noteq> []" "distinct (side_addrs m1)"
    "\<forall>a\<in>set (side_addrs m1). heap e1 a \<noteq> None" "index_ok e1"
    using "2.prems"(1,2,3) addrs index_ok_drop [OF "2.prems"(4) d f(1,6)] by (auto simp: m1_def f)
  from "2.IH" [OF lv d rel, folded m1_def, OF pre] obtain e' where
    e': "drain_side m1 e1 = Inr e'" "heap e' = heap e1 |` (- set (side_addrs m1))" "index_ok e'"
    "books e' = books e1" "next_exec_id e' = next_exec_id e1" "next_trade_id e' = next_trade_id e1"
    "emitted e' = emitted e1" by blast
  have "heap e' = heap e |` (- set (side_addrs ((p, level) # m)))"
    unfolding addrs e'(2) f(1) by (auto simp: restrict_map_def fun_eq_iff)
  moreover have "drain_side ((p, level) # m) e = Inr e'"
    using lv d rel e'(1) by (simp add: m1_def)
  ultimately show ?case using e' f by auto
qed

lemma drain_linked_side:
  assumes so: "side_ok sy s e m" and idx: "index_ok e"
  shows "\<exists>e'. drain_side m e = Inr e' \<and> heap e' = heap e |` (- set (side_addrs m)) \<and> index_ok e' \<and>
           books e' = books e \<and> next_exec_id e' = next_exec_id e \<and> next_trade_id e' = next_trade_id e \<and>
           emitted e' = emitted e"
proof (rule drain_side_spec [OF _ side_ok_distinct [OF so] _ idx])
  show "\<forall>(p, l)\<in>set m. lv_orders l \<noteq> []" using so by (auto simp: side_ok_def level_ok_def)
  show "\<forall>a\<in>set (side_addrs m). heap e a \<noteq> None" using side_ok_node [OF so] by fastforce
qed

lemma empty_both: "with_side Sell [] (with_side Buy [] b) = empty_book"
  by (simp add: empty_book_def)

lemma put_book_put_book: "books (put_book sy b (put_book sy b' e)) = books (put_book sy b e)"
  by (auto simp: books_put_book o_def)

lemma flush_book_refines:
  assumes ok: "engine_ok e" and b: "(sy, b) \<in> set (books e)"
  shows "\<exists>e1 e2. drain_side (bids b) e = Inr e1 \<and> drain_side (asks b) e1 = Inr e2 \<and>
           engine_ok (put_book sy empty_book e2) \<and> books e2 = books e \<and>
           abs_engine (put_book sy empty_book e2) = spec_put sy Sell [] (spec_put sy Buy [] (abs_engine e))"
proof -
  have so: "side_ok sy Buy e (bids b)" "side_ok sy Sell e (asks b)"
    using engine_ok_side [OF ok b, of Buy] engine_ok_side [OF ok b, of Sell] by simp_all
  from drain_linked_side [OF so(1) engine_ok_index [OF ok]] obtain e1 where
    e1: "drain_side (bids b) e = Inr e1" "heap e1 = heap e |` (- set (side_addrs (bids b)))" "index_ok e1"
    "books e1 = books e" "next_exec_id e1 = next_exec_id e" "next_trade_id e1 = next_trade_id e"
    "emitted e1 = emitted e" by blast
  define b1 where "b1 = with_side Buy [] b"
  define e1' where "e1' = put_book sy b1 e1"
  have un: "uncrossed b1" "uncrossed (with_side Sell [] b1)"
    using engine_ok_uncrossed [OF ok b] by (simp_all add: b1_def uncrossed_def)
  have upd1: "engine_ok e1' \<and> sp_books (abs_engine e1') = sp_books (spec_put sy Buy (resting_orders e1' []) (abs_engine e))"
    by (rule engine_ok_update [OF ok b]) (use e1 un in \<open>simp_all add: e1'_def b1_def books_put_book index_ok_def\<close>)
  have a1: "abs_engine e1' = spec_put sy Buy [] (abs_engine e)"
    by (rule spec_engine.equality) (use upd1 e1 in \<open>simp_all add: e1'_def\<close>)
  have b1: "(sy, b1) \<in> set (books e1')" using b e1(4) by (auto simp: e1'_def books_put_book mem_put rev_image_eqI)
  have ask: "side_ok sy Sell e1 (asks b)"
    using engine_ok_side [OF _ b1, of Sell] upd1 side_ok_cong [of "asks b" e1' e1] by (simp add: b1_def e1'_def)
  from drain_linked_side [OF ask e1(3)] obtain e2 where
    e2: "drain_side (asks b) e1 = Inr e2" "heap e2 = heap e1 |` (- set (side_addrs (asks b)))" "index_ok e2"
    "books e2 = books e1" "next_exec_id e2 = next_exec_id e1" "next_trade_id e2 = next_trade_id e1"
    "emitted e2 = emitted e1" by blast
  define e2' where "e2' = put_book sy empty_book e2"
  have bk: "books e2' = books (put_book sy (with_side Sell [] b1) e1')"
    unfolding e2'_def e1'_def put_book_put_book b1_def empty_both by (simp add: books_put_book e2(4))
  have upd2: "engine_ok e2' \<and> sp_books (abs_engine e2') = sp_books (spec_put sy Sell (resting_orders e2' []) (abs_engine e1'))"
    by (rule engine_ok_update [OF conjunct1 [OF upd1] b1 bk])
      (use e2 un in \<open>simp_all add: e2'_def e1'_def b1_def index_ok_def\<close>)
  have "abs_engine e2' = spec_put sy Sell [] (abs_engine e1')"
    by (rule spec_engine.equality) (use upd2 e2 e1 in \<open>simp_all add: e2'_def e1'_def\<close>)
  with e1(1,4) e2(1,4) upd2 a1 show ?thesis by (auto simp: e2'_def)
qed

definition spec_clear :: "symbol set \<Rightarrow> spec_engine \<Rightarrow> spec_engine" where
  "spec_clear sys sp = sp\<lparr>sp_books := map (\<lambda>(sy, f). (sy, if sy \<in> sys then spec_empty_book else f)) (sp_books sp)\<rparr>"

lemma spec_clear_put:
  "spec_clear sys (spec_put sy Sell [] (spec_put sy Buy [] sp)) = spec_clear (insert sy sys) sp"
proof -
  have "f(Buy := [], Sell := []) = spec_empty_book" for f :: spec_book
    by (auto simp: spec_empty_book_def fun_eq_iff) (metis side.exhaust)
  then show ?thesis by (intro spec_engine.equality) (auto simp: spec_clear_def spec_put_def)
qed

lemma flush_books_refines:
  assumes "engine_ok e" "distinct (map fst bs)" "set bs \<subseteq> set (books e)"
  shows "\<exists>e'. flush_books bs e = Inr e' \<and> engine_ok e' \<and> abs_engine e' = spec_clear (fst ` set bs) (abs_engine e)"
  using assms
proof (induction bs arbitrary: e)
  case Nil
  then show ?case by (simp add: spec_clear_def)
next
  case (Cons x bs)
  obtain sy b where x: "x = (sy, b)" by (cases x)
  from Cons.prems have b: "(sy, b) \<in> set (books e)" by (simp add: x)
  from flush_book_refines [OF Cons.prems(1) b] obtain e1 e2 where
    d: "drain_side (bids b) e = Inr e1" "drain_side (asks b) e1 = Inr e2"
    and ok2: "engine_ok (put_book sy empty_book e2)" and bk: "books e2 = books e"
    and a2: "abs_engine (put_book sy empty_book e2) = spec_put sy Sell [] (spec_put sy Buy [] (abs_engine e))"
    by blast
  have "set bs \<subseteq> set (books (put_book sy empty_book e2))"
  proof
    fix y assume y: "y \<in> set bs"
    obtain sy' b' where yb: "y = (sy', b')" by (cases y)
    have "sy' \<noteq> sy" using y Cons.prems(2) by (force simp: x yb)
    with y Cons.prems(3) show "y \<in> set (books (put_book sy empty_book e2))"
      unfolding yb books_put_book mem_put bk by auto
  qed
  with Cons.IH [OF ok2] Cons.prems(2) d show ?case by (auto simp: x a2 spec_clear_put)
qed

theorem flush_refines:
  assumes ok: "engine_ok e"
  shows "\<exists>e'. handle_flush e = Inr e' \<and> engine_ok e' \<and> abs_engine e' = spec_flush (abs_engine e)"
proof -
  have "spec_clear (fst ` set (books e)) (abs_engine e) = spec_flush (abs_engine e)"
    by (force simp: spec_clear_def spec_flush_def abs_engine_def)
  with flush_books_refines [OF ok _ order_refl] ok show ?thesis
    by (auto simp: handle_flush_def engine_ok_def)
qed

section \<open>send\<close>

fun needs_node :: "request \<Rightarrow> spec_engine \<Rightarrow> bool" where
  "needs_node (New_Order_Single r) sp = spec_rests_order r sp"
| "needs_node (Replace_Order r) sp = replace_rests r sp"
| "needs_node (Cancel_Order c) sp = False"
| "needs_node Flush sp = False"

theorem send_refines:
  assumes ok: "engine_ok e" and fresh: "slot_fresh slot e"
  shows "if needs_node r (abs_engine e) \<and> slot = None then send slot r e = Inl Bad_Alloc
         else \<exists>e'. send slot r e = Inr e' \<and> engine_ok e' \<and> abs_engine e' = spec_send r (abs_engine e)"
proof (cases r)
  case (New_Order_Single x)
  show ?thesis
  proof (cases "spec_rests_order x (abs_engine e) \<and> slot = None")
    case True
    with new_order_refines [OF ok fresh, of x] show ?thesis
      by (simp add: New_Order_Single handle_new_order_single_def)
  next
    case False
    with new_order_refines [OF ok fresh, of x] obtain err e' where
      "handle_new_order_single_impl slot x e = Inr (err, e')" "engine_ok e'"
      "spec_new_order x (abs_engine e) = (err, abs_engine e')" by auto
    with False show ?thesis by (auto simp: New_Order_Single handle_new_order_single_def)
  qed
next
  case (Replace_Order x)
  then show ?thesis
    using replace_refines [OF ok fresh, of x] by (cases "replace_rests x (abs_engine e) \<and> slot = None") auto
next
  case (Cancel_Order c)
  then show ?thesis using cancel_refines [OF ok, of c] by simp
next
  case Flush
  then show ?thesis using flush_refines [OF ok] by simp
qed

section \<open>Runs\<close>

lemma fst_open_books: "distinct (map fst bs) \<Longrightarrow> distinct (map fst (open_books sys bs))"
proof (induction sys bs rule: open_books.induct)
  case (2 sy sys bs)
  then show ?case by (cases "sy \<in> set (map fst bs)") simp_all
qed simp

lemma snd_open_books: "snd ` set (open_books sys bs) \<subseteq> insert empty_book (snd ` set bs)"
proof (induction sys bs rule: open_books.induct)
  case (2 sy sys bs)
  then show ?case by (cases "sy \<in> set (map fst bs)") auto
qed auto

theorem engine_init_ok:
  assumes "engine_init slot cfg = Inr e"
  shows "engine_ok e"
proof -
  from assms have e: "heap e = Map.empty" "resting_index e = Map.empty"
    "books e = open_books (ec_valid_symbols cfg) []"
    by (auto simp: engine_init_def rbind_eq_Inr_iff)
  have empty: "snd x = empty_book" if "x \<in> set (books e)" for x
    using snd_open_books [of "ec_valid_symbols cfg" "[]"] that by (auto simp: e)
  have sides: "side_of s empty_book = []" for s by (cases s) (simp_all add: empty_book_def)
  have "side_of s b = []" if "(sy, b) \<in> set (books e)" for sy b s
    using empty [OF that] sides by simp
  then have "linked (books e) = {}" by (auto simp: linked_def)
  moreover have "book_ok sy e b" if "(sy, b) \<in> set (books e)" for sy b
    using empty [OF that] sides unfolding book_ok_def by (simp add: uncrossed_def) (simp add: empty_book_def)
  ultimately show ?thesis
    using fst_open_books [of "[]" "ec_valid_symbols cfg"] by (auto simp: engine_ok_def e index_ok_def)
qed

theorem reachable_ok:
  assumes "reachable cfg e"
  shows "engine_ok e"
  using assms
proof (induction rule: reachable.induct)
  case (start slot e)
  then show ?case by (rule engine_init_ok)
next
  case (step e slot r e')
  then show ?case using send_refines [OF step.IH step.hyps(2), of r] by (auto split: if_splits)
qed

end
