(* ===== verification/Engine_Samples.thy ===== *)
theory Engine_Samples
  imports Engine_Refinement
begin

text \<open>
  Concrete runs of the engine, evaluated by the simplifier. The witnesses of the engine's
  properties apply them here: a book with two offers and a bid, and the requests that follow.
\<close>

fun run_requests :: "(addr option \<times> request) list \<Rightarrow> engine \<Rightarrow> fault + engine" where
  "run_requests [] e = Inr e"
| "run_requests ((slot, r) # rs) e =
     (if (case slot of None \<Rightarrow> True | Some a \<Rightarrow> heap e a = None)
      then rbind (send slot r e) (run_requests rs) else Inl Assert_Failed)"

lemma run_reachable: "reachable cfg e \<Longrightarrow> run_requests rs e = Inr e' \<Longrightarrow> reachable cfg e'"
proof (induction rs e rule: run_requests.induct)
  case (2 slot r rs e)
  then obtain e1 where e1: "(case slot of None \<Rightarrow> True | Some a \<Rightarrow> heap e a = None)" "send slot r e = Inr e1"
    "run_requests rs e1 = Inr e'"
    by (auto simp: rbind_eq_Inr_iff split: if_splits)
  then have "reachable cfg e1"
    by (intro reachable.step [OF "2.prems"(1)]) (auto simp: slot_fresh_def)
  then show ?case using "2.IH" e1 by blast
qed simp

definition sample_config :: engine_config where
  "sample_config = \<lparr>ec_valid_symbols = [''PETR4'', ''VALE3''], ec_expected_resting_orders = 16,
                    ec_node_pool_chunk_size = 4\<rparr>"

definition sample_order :: "cl_ord_id \<Rightarrow> side \<Rightarrow> price \<Rightarrow> quantity \<Rightarrow> new_order_single" where
  "sample_order i s p q =
     \<lparr>nos_client_id = 1, nos_cl_ord_id = i, nos_security_id = 7, nos_symbol = ''PETR4'',
      nos_security_exchange = ''BVMF'', nos_side = s, nos_ord_type = Limit, nos_time_in_force = Day,
      nos_order_qty = q, nos_price = p\<rparr>"

definition sample_cancel :: "cl_ord_id \<Rightarrow> cl_ord_id \<Rightarrow> cancel_order" where
  "sample_cancel i orig = \<lparr>co_client_id = 1, co_cl_ord_id = i, co_orig_cl_ord_id = orig\<rparr>"

definition sample_requests :: "(addr option \<times> request) list" where
  "sample_requests =
     [(Some 0, New_Order_Single (sample_order 1 Sell 11 3)),
      (Some 1, New_Order_Single (sample_order 2 Sell 10 5)),
      (Some 2, New_Order_Single (sample_order 3 Buy 9 4))]"

definition sample_run :: "fault + engine" where
  "sample_run = rbind (engine_init (Some 0) sample_config) (run_requests sample_requests)"

definition sample_engine :: engine where
  "sample_engine = projr sample_run"

definition sample_book :: order_book where
  "sample_book = the (map_of (books sample_engine) ''PETR4'')"

definition sample_key :: "cl_ord_id \<Rightarrow> order_key" where
  "sample_key i = \<lparr>ok_client_id = 1, ok_cl_ord_id = i\<rparr>"

lemma sample_ok: "is_ok sample_run"
  by code_simp

lemma sample_reachable: "reachable sample_config sample_engine"
proof -
  from sample_ok obtain e where "sample_run = Inr e" by (auto simp: is_ok_iff)
  then show ?thesis
    by (auto simp: sample_run_def sample_engine_def rbind_eq_Inr_iff intro: run_reachable reachable.start)
qed

lemma sample_find: "map_of (books sample_engine) ''PETR4'' = Some sample_book"
proof -
  have "map_of (books sample_engine) ''PETR4'' \<noteq> None" by code_simp
  then show ?thesis by (auto simp: sample_book_def)
qed

lemma sample_mem: "(''PETR4'', sample_book) \<in> set (books sample_engine)"
  by (rule map_of_SomeD [OF sample_find])

lemma sample_fresh: "slot_fresh (Some 3) sample_engine" "slot_fresh None sample_engine"
proof -
  have "heap sample_engine 3 = None" by code_simp
  then show "slot_fresh (Some 3) sample_engine" by (simp add: slot_fresh_def)
qed (simp add: slot_fresh_def)

end
