(* ===== verification/Engine_Properties.thy ===== *)
theory Engine_Properties
  imports Engine_Samples
begin

text \<open>
  The properties of the matching engine, each stated for every state the engine can reach,
  with the runs that witness them.
\<close>

section \<open>More facts about sides and fills\<close>

lemma takeWhile_top:
  assumes "sorted_wrt (\<lambda>x y. \<not> before s (os_price y) (os_price x)) xs" "\<forall>x\<in>set xs. \<not> before s (os_price x) p"
  shows "takeWhile (\<lambda>x. os_price x = p) xs = filter (\<lambda>x. os_price x = p) xs"
  using assms
proof (induction xs)
  case (Cons x xs)
  show ?case
  proof (cases "os_price x = p")
    case False
    with Cons.prems(2) have "before s p (os_price x)" using side.total_eq by auto
    with Cons.prems(1) have "os_price y \<noteq> p" if "y \<in> set xs" for y using that by auto
    with False show ?thesis by (simp add: filter_empty_conv)
  qed (use Cons in simp)
qed simp

lemma fill_orders_shape:
  "fill_orders cr q ds = (fills, q', rest) \<Longrightarrow>
   rest = (if fills \<noteq> [] \<and> snd (last fills) \<noteq> os_leaves_qty (fst (last fills))
           then (fst (last fills))\<lparr>os_leaves_qty := os_leaves_qty (fst (last fills)) - snd (last fills)\<rparr>
                  # drop (length fills) ds
           else drop (length fills) ds) \<and>
   (\<forall>(d, f)\<in>set (butlast fills). f = os_leaves_qty d)"
proof (induction ds arbitrary: q fills)
  case (Cons e ds)
  from Cons.prems(1) show ?case
  proof (cases rule: fill_orders_ConsE)
    case (full g)
    with Cons.IH [OF full(4)] show ?thesis by (cases "g = []") auto
  next
    case part
    then show ?thesis by auto
  qed simp
qed simp

section \<open>The whole engine\<close>



text \<open>
  C4: The node pool, the books and the identity index agree in every reachable state: the
  nodes handed out are exactly the nodes linked into the books, each linked once, and the
  index maps an identity to a node exactly when that node holds the order of that identity.
  So nothing leaks, nothing dangles and no two live orders share an identity.
\<close>
theorem nodes_books_index_agree:
  assumes "reachable cfg e"
  shows "dom (heap e) = linked (books e) \<and>
         (\<forall>k a. resting_index e k = Some a \<longleftrightarrow> (\<exists>d. heap e a = Some d \<and> key_of d = k)) \<and>
         ran (resting_index e) = dom (heap e) \<and>
         (\<forall>(sy, b)\<in>set (books e). \<forall>s. distinct (side_addrs (side_of s b)) \<and>
            (\<forall>a\<in>set (side_addrs (side_of s b)). \<exists>d. heap e a = Some d \<and> os_symbol d = sy \<and> os_side d = s))"
proof -
  note ok = reachable_ok [OF assms]
  note idx = engine_ok_index [OF ok]
  have "ran (resting_index e) = dom (heap e)"
    using index_ok_lookup [OF idx] index_okD [OF idx] by (fastforce simp: ran_def)
  moreover have "\<forall>(sy, b)\<in>set (books e). \<forall>s. distinct (side_addrs (side_of s b)) \<and>
            (\<forall>a\<in>set (side_addrs (side_of s b)). \<exists>d. heap e a = Some d \<and> os_symbol d = sy \<and> os_side d = s)"
    using side_ok_distinct [OF engine_ok_side [OF ok]] engine_ok_addr [OF ok] by auto
  ultimately show ?thesis using idx ok by (auto simp: engine_ok_def index_ok_def)
qed

lemma nodes_books_index_agree_witness:
  "ran (resting_index sample_engine) = dom (heap sample_engine) \<and> heap sample_engine 1 \<noteq> None"
proof -
  have "heap sample_engine 1 \<noteq> None" by code_simp
  with nodes_books_index_agree [OF sample_reachable] show ?thesis by blast
qed

text \<open>
  C7: No book is ever crossed or locked between requests: when both sides are populated the
  best bid is below the best ask.
\<close>
theorem best_bid_below_best_ask:
  assumes "reachable cfg e" "(sy, b) \<in> set (books e)" "best_bid b = Some p" "best_ask b = Some q"
  shows "p < q"
proof -
  have "p \<in> set (map fst (bids b))" "q \<in> set (map fst (asks b))"
    using assms(3,4) by (auto simp: best_bid_def best_ask_def best_price_def split: list.splits)
  with engine_ok_uncrossed [OF reachable_ok [OF assms(1)] assms(2)] show ?thesis
    unfolding uncrossed_def by blast
qed

lemma best_bid_below_best_ask_witness:
  "best_bid sample_book = Some 9 \<and> best_ask sample_book = Some 10 \<and> (9 :: price) < 10"
proof -
  have b: "best_bid sample_book = Some 9" by code_simp
  have a: "best_ask sample_book = Some 10" by code_simp
  show ?thesis using best_bid_below_best_ask [OF sample_reachable sample_mem b a] a b by simp
qed

text \<open>
  C26: The best level the book reports is the top of the side: it exists exactly when an order
  rests there, its price is the price of a resting order that no resting order improves, and
  its quantity is the sum (at 64 bits) of what remains of the orders at that price.
\<close>
theorem best_level_is_top_of_side:
  assumes "reachable cfg e" "(sy, b) \<in> set (books e)"
  shows "case best_level s b of
           None \<Rightarrow> resting_orders e (side_of s b) = []
         | Some snapshot \<Rightarrow>
             (\<exists>d\<in>set (resting_orders e (side_of s b)). os_price d = ls_price snapshot) \<and>
             (\<forall>d\<in>set (resting_orders e (side_of s b)). \<not> before s (os_price d) (ls_price snapshot)) \<and>
             ls_total_quantity snapshot =
               sum_list (map os_leaves_qty
                 (filter (\<lambda>d. os_price d = ls_price snapshot) (resting_orders e (side_of s b))))"
proof -
  note so = engine_ok_side [OF reachable_ok [OF assms(1)] assms(2), of s]
  let ?ds = "resting_orders e (side_of s b)"
  show ?thesis
  proof (cases ?ds)
    case Nil
    then show ?thesis by (simp add: best_level_by_side best_level_eq_spec [OF so] spec_level_def)
  next
    case (Cons d ds)
    have sorted: "sorted_wrt (\<lambda>x y. \<not> before s (os_price y) (os_price x)) (d # ds)"
      using resting_orders_sorted [OF so] Cons by simp
    have "takeWhile (\<lambda>x. os_price x = os_price d) (d # ds) = filter (\<lambda>x. os_price x = os_price d) (d # ds)"
      by (rule takeWhile_top) (use sorted in \<open>auto simp: side.irrefl\<close>)
    then show ?thesis
      using sorted Cons by (simp add: best_level_by_side best_level_eq_spec [OF so] spec_level_def side.irrefl)
  qed
qed

lemma best_level_is_top_of_side_witness:
  "best_level Sell sample_book = Some \<lparr>ls_price = 10, ls_total_quantity = 5\<rparr> \<and>
   (\<exists>d\<in>set (resting_orders sample_engine (side_of Sell sample_book)). os_price d = 10)"
proof -
  have "best_level Sell sample_book = Some \<lparr>ls_price = 10, ls_total_quantity = 5\<rparr>" by code_simp
  with best_level_is_top_of_side [OF sample_reachable sample_mem, of Sell] show ?thesis by simp
qed

section \<open>Matching\<close>

text \<open>
  C3: Matching follows price-time priority. The makers filled are a prefix of the resting
  orders in priority order, each but the last filled in full, each at its own price, which
  crosses the taker's; what the taker lost is what the makers were filled with; the orders
  behind are untouched; and if the taker still has quantity, the next order does not cross.
\<close>
theorem matching_price_time_priority:
  assumes "reachable cfg e" "(sy, b) \<in> set (books e)"
    and s_def: "s = opposite (os_side taker)" and ds_def: "ds = resting_orders e (side_of s b)"
  shows "\<exists>fills q m' e' summary.
           match_orders b taker e = Inr (with_side s m' b, taker\<lparr>os_leaves_qty := q\<rparr>, e', summary) \<and>
           xs_trades summary = length fills \<and>
           map fst fills = take (length fills) ds \<and>
           (\<forall>(d, f)\<in>set fills. crosses taker (os_price d) \<and> f \<noteq> 0 \<and> f \<le> os_leaves_qty d) \<and>
           (\<forall>(d, f)\<in>set (butlast fills). f = os_leaves_qty d) \<and>
           trade_log (emitted e') = trade_log (emitted e) @ map (trade_of taker) fills \<and>
           unat (os_leaves_qty taker) = unat q + sum_list (map (\<lambda>x. unat (snd x)) fills) \<and>
           resting_orders e' m' =
             (if fills \<noteq> [] \<and> snd (last fills) \<noteq> os_leaves_qty (fst (last fills))
              then (fst (last fills))\<lparr>os_leaves_qty := os_leaves_qty (fst (last fills)) - snd (last fills)\<rparr>
                     # drop (length fills) ds
              else drop (length fills) ds) \<and>
           (q \<noteq> 0 \<longrightarrow> resting_orders e' m' = [] \<or> \<not> crosses taker (os_price (hd (resting_orders e' m'))))"
proof -
  note ok = reachable_ok [OF assms(1)]
  note so = engine_ok_side [OF ok assms(2), of s]
  obtain fills q rest where fl: "fill_orders (crosses taker) (os_leaves_qty taker) ds = (fills, q, rest)"
    by (metis prod_cases3)
  from matcher.match_side_spec [where cross = crosses and taker = taker, OF so crosses_leaves fl [unfolded ds_def]]
  obtain m' e' where
    ms: "match_side crosses on_trade on_release (side_of s b) taker e =
           Inr (m', taker\<lparr>os_leaves_qty := q\<rparr>, e', executed no_execution fills)"
    and res: "side_result (\<lambda>e. trade_log (emitted e)) evolves sy s taker (side_of s b) e fills rest m' e'" by auto
  have "match_orders b taker e = Inr (with_side s m' b, taker\<lparr>os_leaves_qty := q\<rparr>, e', executed no_execution fills)"
    using ms by (simp add: match_orders_by_side s_def)
  moreover have "\<forall>(d, f)\<in>set fills. crosses taker (os_price d) \<and> f \<noteq> 0 \<and> f \<le> os_leaves_qty d"
    using fill_orders_fills [OF fl] fill_orders_positive [OF fl] side_ok_order [OF so]
    by (fastforce simp: resting_ok_def ds_def)
  moreover have "resting_orders e' m' = rest" "trade_log (emitted e') = trade_log (emitted e) @ map (trade_of taker) fills"
    using res by (simp_all add: side_result_def)
  ultimately show ?thesis
    using fill_orders_prefix [OF fl] fill_orders_shape [OF fl] fill_orders_unat [OF fl] fill_orders_left [OF fl]
    by (intro exI [of _ fills] exI [of _ q] exI [of _ m'] exI [of _ e'] exI [of _ "executed no_execution fills"]) simp
qed

lemma matching_price_time_priority_witness:
  "\<exists>(fills :: (order_state \<times> quantity) list) q m' e' summary.
     match_orders sample_book (make_order_state (sample_order 4 Buy 11 6)) sample_engine =
       Inr (with_side Sell m' sample_book, make_order_state (sample_order 4 Buy 11 6)\<lparr>os_leaves_qty := q\<rparr>, e', summary) \<and>
     xs_trades summary = length fills \<and> xs_trades summary = 2 \<and> q = 0"
proof -
  let ?t = "make_order_state (sample_order 4 Buy 11 6)"
  have s: "Sell = opposite (os_side ?t)" by code_simp
  from matching_price_time_priority [OF sample_reachable sample_mem s refl] obtain fills q m' e' summary where
    m: "match_orders sample_book ?t sample_engine =
          Inr (with_side Sell m' sample_book, ?t\<lparr>os_leaves_qty := q\<rparr>, e', summary)"
    and l: "xs_trades summary = length (fills :: (order_state \<times> quantity) list)"
    by (elim exE conjE)
  have "case match_orders sample_book ?t sample_engine of
          Inr (_, t, _, sm) \<Rightarrow> xs_trades sm = 2 \<and> os_leaves_qty t = 0 | _ \<Rightarrow> False"
    by code_simp
  with m l show ?thesis by (intro exI [of _ fills] exI [of _ q] exI [of _ m'] exI [of _ e'] exI [of _ summary]) simp
qed

section \<open>New orders\<close>

lemma set_insert_order [simp]: "set (insert_order s d ds) = insert d (set ds)"
proof -
  have "set ds = set (takeWhile P ds) \<union> set (dropWhile P ds)" for P
    by (metis set_append takeWhile_dropWhile_id)
  then show ?thesis by (simp add: insert_order_def)
qed

lemma emitted_spec [simp]:
  "sp_emitted (spec_emit os sp) = sp_emitted sp @ os"
  "sp_exec_id (spec_emit os sp) = sp_exec_id sp"
  "sp_trade_id (spec_emit os sp) = sp_trade_id sp"
  "sp_emitted (spec_report d et ost ori lq lp sp) =
     sp_emitted sp @ [On_Order_Entry (execution_report_of d et ost ori lq lp (sp_exec_id sp))]"
  "sp_exec_id (spec_report d et ost ori lq lp sp) = sp_exec_id sp + 1"
  "sp_trade_id (spec_report d et ost ori lq lp sp) = sp_trade_id sp"
  "sp_emitted (spec_trades ts sp) =
     sp_emitted sp @ map (\<lambda>t. On_Market_Data (Trade t)) (number_trades (sp_trade_id sp) ts)"
  "sp_exec_id (spec_trades ts sp) = sp_exec_id sp"
  "sp_trade_id (spec_trades ts sp) = sp_trade_id sp + of_nat (length ts)"
  by (simp_all add: spec_emit_def spec_report_def spec_trades_def)

lemma spec_book_update_emits:
  "\<exists>m. spec_book_update sy s sec sp = spec_emit [On_Market_Data (Mbo_Book_Update m)] sp"
  unfolding spec_book_update_def mbo_book_update_of_def by blast

text \<open>
  The events of an accepted order up to the book updates: its acknowledgement, one trade per
  maker, and for an aggressor the summary and its own trade report.
\<close>

definition accepted_events ::
  "new_order_single \<Rightarrow> (order_state \<times> quantity) list \<Rightarrow> quantity \<Rightarrow> exec_id \<Rightarrow> trade_id \<Rightarrow> engine_output list"
where
  "accepted_events r fills q exec trade =
     (let d = make_order_state r
      in [On_Order_Entry (execution_report_of d Exec_New_Order Status_New_Order None None None exec)]
         @ map (\<lambda>t. On_Market_Data (Trade t)) (number_trades trade (map (trade_of d) fills))
         @ (if fills = [] then []
            else [On_Market_Data (execution_summary_of r (os_price (fst (last fills))) (nos_order_qty r - q)),
                  On_Order_Entry (execution_report_of (d\<lparr>os_leaves_qty := q\<rparr>) Exec_Trade
                    (if q = 0 then Status_Filled else Status_Partially_Filled) None
                    (Some (nos_order_qty r - q)) (Some (os_price (fst (last fills)))) (exec + 1))]))"

lemma spec_new_order_accepted:
  assumes "spec_lookup \<lparr>ok_client_id = nos_client_id r, ok_cl_ord_id = nos_cl_ord_id r\<rparr> sp = None"
    and "map_of (sp_books sp) (nos_symbol r) = Some b"
    and "fill_orders (crosses (make_order_state r)) (nos_order_qty r) (b (opposite (nos_side r))) = (fills, q, rest)"
    and "spec_new_order r sp = (err, sp')"
  defines "d \<equiv> make_order_state r"
  defines "rests \<equiv> q \<noteq> 0 \<and> nos_price r \<noteq> 0"
  shows "err = None"
    and "map_of (sp_books sp') sy =
           (if sy = nos_symbol r
            then Some (b(opposite (nos_side r) := rest,
                         nos_side r := if rests then insert_order (nos_side r) (d\<lparr>os_leaves_qty := q\<rparr>) (b (nos_side r))
                                       else b (nos_side r)))
            else map_of (sp_books sp) sy)"
    and "\<exists>ups. length ups \<le> 2 \<and>
           sp_emitted sp' = sp_emitted sp @ accepted_events r fills q (sp_exec_id sp) (sp_trade_id sp)
             @ map (\<lambda>u. On_Market_Data (Mbo_Book_Update u)) ups"
    and "map fst (sp_books sp') = map fst (sp_books sp)"
proof -
  note def = assms(4) [unfolded spec_new_order_def, symmetric]
  define own where "own = spec_best (insert_order (nos_side r) (d\<lparr>os_leaves_qty := q\<rparr>) (b (nos_side r)))"
  define sp3 where "sp3 = spec_execution r (d\<lparr>os_leaves_qty := q\<rparr>) fills
     (spec_put (nos_symbol r) (opposite (nos_side r)) rest
       (spec_trades (map (trade_of d) fills) (spec_report d Exec_New_Order Status_New_Order None None None sp)))"
  define sp4 where "sp4 = (if rests then spec_put (nos_symbol r) (nos_side r)
     (insert_order (nos_side r) (d\<lparr>os_leaves_qty := q\<rparr>) (b (nos_side r))) sp3 else sp3)"
  define sp5 where "sp5 = (if fills \<noteq> [] then spec_book_update (nos_symbol r) (opposite (nos_side r)) (nos_security_id r) sp4
                           else sp4)"
  have "(err, sp') = (None, if rests \<and> own = Some (nos_price r)
      then spec_book_update (nos_symbol r) (nos_side r) (nos_security_id r) sp5 else sp5)"
    using assms(1-3) def unfolding sp5_def sp4_def sp3_def own_def rests_def d_def by (simp add: Let_def)
  then have err: "err = None" and sp': "sp' = (if rests \<and> own = Some (nos_price r)
      then spec_book_update (nos_symbol r) (nos_side r) (nos_security_id r) sp5 else sp5)" by simp_all
  show "err = None" by (rule err)
  have b': "sp_books sp' = sp_books sp4" by (simp add: sp' sp5_def)
  show "map_of (sp_books sp') sy =
           (if sy = nos_symbol r
            then Some (b(opposite (nos_side r) := rest,
                         nos_side r := if rests then insert_order (nos_side r) (d\<lparr>os_leaves_qty := q\<rparr>) (b (nos_side r))
                                       else b (nos_side r)))
            else map_of (sp_books sp) sy)"
    using assms(2) by (auto simp: b' sp4_def sp3_def map_of_spec_put fun_upd_def)
  have fst_put: "map fst (sp_books (spec_put sy s ds x)) = map fst (sp_books x)" for sy s ds x
    by (auto simp: spec_put_def)
  show "map fst (sp_books sp') = map fst (sp_books sp)" by (simp add: b' sp4_def sp3_def fst_put)
  have e4: "sp_emitted sp4 = sp_emitted sp @ accepted_events r fills q (sp_exec_id sp) (sp_trade_id sp)"
    by (simp add: accepted_events_def d_def sp4_def sp3_def spec_execution_def Let_def)
  obtain u where u: "spec_book_update (nos_symbol r) (opposite (nos_side r)) (nos_security_id r) sp4 =
      spec_emit [On_Market_Data (Mbo_Book_Update u)] sp4" using spec_book_update_emits by blast
  obtain v where v: "spec_book_update (nos_symbol r) (nos_side r) (nos_security_id r) sp5 =
      spec_emit [On_Market_Data (Mbo_Book_Update v)] sp5" using spec_book_update_emits by blast
  define us where "us = (if fills \<noteq> [] then [u] else [])"
  define vs where "vs = (if rests \<and> own = Some (nos_price r) then [v] else [])"
  have "sp_emitted sp5 = sp_emitted sp4 @ map (\<lambda>u. On_Market_Data (Mbo_Book_Update u)) us"
    by (simp add: sp5_def u us_def)
  then have "sp_emitted sp' = sp_emitted sp4 @ map (\<lambda>u. On_Market_Data (Mbo_Book_Update u)) (us @ vs)"
    by (simp add: sp' v vs_def)
  moreover have "length (us @ vs) \<le> 2" by (simp add: us_def vs_def)
  ultimately show "\<exists>ups. length ups \<le> 2 \<and> sp_emitted sp' =
      sp_emitted sp @ accepted_events r fills q (sp_exec_id sp) (sp_trade_id sp)
        @ map (\<lambda>u. On_Market_Data (Mbo_Book_Update u)) ups"
    unfolding e4 append_assoc by blast
qed


lemma accepted_run:
  assumes ok: "engine_ok e" and fresh: "slot_fresh slot e"
    and free: "resting_index e \<lparr>ok_client_id = nos_client_id r, ok_cl_ord_id = nos_cl_ord_id r\<rparr> = None"
    and b: "map_of (books e) (nos_symbol r) = Some b"
    and run: "send slot (New_Order_Single r) e = Inr e'"
  shows "engine_ok e'" "spec_new_order r (abs_engine e) = (None, abs_engine e')"
    "spec_lookup \<lparr>ok_client_id = nos_client_id r, ok_cl_ord_id = nos_cl_ord_id r\<rparr> (abs_engine e) = None"
    "map_of (sp_books (abs_engine e)) (nos_symbol r) = Some (abs_book e b)"
proof -
  from run obtain err where impl: "handle_new_order_single_impl slot r e = Inr (err, e')"
    by (auto simp: handle_new_order_single_def rbind_eq_Inr_iff)
  with new_order_refines [OF ok fresh, of r] have new: "engine_ok e'" "spec_new_order r (abs_engine e) = (err, abs_engine e')"
    by (auto split: if_splits)
  show lk: "spec_lookup \<lparr>ok_client_id = nos_client_id r, ok_cl_ord_id = nos_cl_ord_id r\<rparr> (abs_engine e) = None"
    using free by (simp add: spec_lookup_abs [OF ok])
  show m: "map_of (sp_books (abs_engine e)) (nos_symbol r) = Some (abs_book e b)" using b by (simp add: map_of_abs)
  obtain fills q rest where fl: "fill_orders (crosses (make_order_state r)) (nos_order_qty r)
      (abs_book e b (opposite (nos_side r))) = (fills, q, rest)" by (metis prod_cases3)
  from spec_new_order_accepted(1) [OF lk m fl new(2)] new
  show "engine_ok e'" "spec_new_order r (abs_engine e) = (None, abs_engine e')" by simp_all
qed

text \<open>
  C9: An accepted order produces exactly these events, in this order: its acknowledgement,
  one trade per maker filled (numbered consecutively), then, if it executed, the execution
  summary and one trade report, then at most two book updates. The report accounts for the
  whole order: cumulative quantity is the sum of the trades and, with what is left, adds up to
  the order's quantity without wrapping.
\<close>
theorem new_order_events:
  assumes "reachable cfg e" "slot_fresh slot e"
    and "resting_index e \<lparr>ok_client_id = nos_client_id r, ok_cl_ord_id = nos_cl_ord_id r\<rparr> = None"
    and "map_of (books e) (nos_symbol r) = Some b"
    and fl: "fill_orders (crosses (make_order_state r)) (nos_order_qty r)
               (resting_orders e (side_of (opposite (nos_side r)) b)) = (fills, q, rest)"
    and "send slot (New_Order_Single r) e = Inr e'"
  shows "(\<exists>ups. length ups \<le> 2 \<and>
            emitted e' = emitted e @ accepted_events r fills q (next_exec_id e) (next_trade_id e)
                           @ map (\<lambda>u. On_Market_Data (Mbo_Book_Update u)) ups) \<and>
         nos_order_qty r - q = sum_list (map snd fills) \<and>
         unat (nos_order_qty r) = unat q + sum_list (map (\<lambda>x. unat (snd x)) fills)"
proof -
  note acc = accepted_run [OF reachable_ok [OF assms(1)] assms(2,3,4,6)]
  have "fill_orders (crosses (make_order_state r)) (nos_order_qty r)
      (abs_book e b (opposite (nos_side r))) = (fills, q, rest)" using fl by (simp add: abs_book_def)
  from spec_new_order_accepted(3) [OF acc(3,4) this acc(2)] show ?thesis
    using fill_orders_quantity [OF fl] fill_orders_unat [OF fl] by simp
qed

lemma sample_taker:
  "resting_index sample_engine \<lparr>ok_client_id = nos_client_id (sample_order 4 Buy 10 6),
                               ok_cl_ord_id = nos_cl_ord_id (sample_order 4 Buy 10 6)\<rparr> = None"
  "map_of (books sample_engine) (nos_symbol (sample_order 4 Buy 10 6)) = Some sample_book"
  "\<exists>e'. send (Some 3) (New_Order_Single (sample_order 4 Buy 10 6)) sample_engine = Inr e'"
  "\<exists>fills rest. fill_orders (crosses (make_order_state (sample_order 4 Buy 10 6))) (nos_order_qty (sample_order 4 Buy 10 6))
     (resting_orders sample_engine (side_of (opposite (nos_side (sample_order 4 Buy 10 6))) sample_book)) = (fills, 1, rest)"
proof -
  show "resting_index sample_engine \<lparr>ok_client_id = nos_client_id (sample_order 4 Buy 10 6),
                               ok_cl_ord_id = nos_cl_ord_id (sample_order 4 Buy 10 6)\<rparr> = None" by code_simp
  show "map_of (books sample_engine) (nos_symbol (sample_order 4 Buy 10 6)) = Some sample_book"
    using sample_find by (simp add: sample_order_def)
  have "is_ok (send (Some 3) (New_Order_Single (sample_order 4 Buy 10 6)) sample_engine)" by code_simp
  then show "\<exists>e'. send (Some 3) (New_Order_Single (sample_order 4 Buy 10 6)) sample_engine = Inr e'"
    by (simp add: is_ok_iff)
  have "fst (snd (fill_orders (crosses (make_order_state (sample_order 4 Buy 10 6))) (nos_order_qty (sample_order 4 Buy 10 6))
     (resting_orders sample_engine (side_of (opposite (nos_side (sample_order 4 Buy 10 6))) sample_book)))) = 1"
    by code_simp
  then show "\<exists>fills rest. fill_orders (crosses (make_order_state (sample_order 4 Buy 10 6))) (nos_order_qty (sample_order 4 Buy 10 6))
     (resting_orders sample_engine (side_of (opposite (nos_side (sample_order 4 Buy 10 6))) sample_book)) = (fills, 1, rest)"
    by (metis prod.collapse)
qed

lemma new_order_events_witness:
  "\<exists>e' fills. send (Some 3) (New_Order_Single (sample_order 4 Buy 10 6)) sample_engine = Inr e' \<and>
     unat (nos_order_qty (sample_order 4 Buy 10 6)) = 1 + sum_list (map (\<lambda>x. unat (snd x)) (fills :: (order_state \<times> quantity) list))"
proof -
  obtain fills rest e' where f: "fill_orders (crosses (make_order_state (sample_order 4 Buy 10 6))) (nos_order_qty (sample_order 4 Buy 10 6))
     (resting_orders sample_engine (side_of (opposite (nos_side (sample_order 4 Buy 10 6))) sample_book)) = (fills, 1, rest)"
    and s: "send (Some 3) (New_Order_Single (sample_order 4 Buy 10 6)) sample_engine = Inr e'"
    using sample_taker(3,4) by blast
  note events = new_order_events [OF sample_reachable sample_fresh(1) sample_taker(1,2) f s]
  show ?thesis using conjunct2 [OF conjunct2 [OF events]] s by (intro exI [of _ e'] exI [of _ fills]) simp
qed




end
