(* ===== verification/Engine_Lifecycle.thy ===== *)
theory Engine_Lifecycle
  imports Engine_Properties
begin

text \<open>
  Properties of the engine over the life of an order: refusals, cancels, replaces, flushes,
  and the numbering of trades and reports.
\<close>

section \<open>Rejected orders\<close>

lemma spec_put_fst [simp]: "map fst (sp_books (spec_put sy s ds sp)) = map fst (sp_books sp)"
  by (auto simp: spec_put_def)

lemma spec_new_order_fst [simp]: "map fst (sp_books (snd (spec_new_order r sp))) = map fst (sp_books sp)"
proof (cases "spec_lookup \<lparr>ok_client_id = nos_client_id r, ok_cl_ord_id = nos_cl_ord_id r\<rparr> sp")
  case None
  show ?thesis
  proof (cases "map_of (sp_books sp) (nos_symbol r)")
    case (Some b)
    obtain fills q rest where fl: "fill_orders (crosses (make_order_state r)) (nos_order_qty r)
      (b (opposite (nos_side r))) = (fills, q, rest)" by (metis prod_cases3)
    show ?thesis using spec_new_order_accepted(4) [OF None Some fl, of "fst (spec_new_order r sp)" "snd (spec_new_order r sp)"]
      by simp
  qed (use None in \<open>simp add: spec_new_order_def\<close>)
qed (simp add: spec_new_order_def)

lemma spec_remove_fst [simp]: "map fst (sp_books (snd (spec_remove d sp))) = map fst (sp_books sp)"
  by (simp add: spec_remove_def split: option.split)

lemma spec_cancel_fst: "map fst (sp_books (spec_cancel c sp)) = map fst (sp_books sp)"
proof (cases "spec_lookup \<lparr>ok_client_id = co_client_id c, ok_cl_ord_id = co_orig_cl_ord_id c\<rparr> sp")
  case (Some d)
  obtain at sp1 where rm: "spec_remove d sp = (at, sp1)" by (cases "spec_remove d sp")
  have "map fst (sp_books sp1) = map fst (sp_books sp)" using spec_remove_fst [of d sp, unfolded rm snd_conv] .
  then show ?thesis using Some by (simp add: spec_cancel_def rm Let_def)
qed (simp add: spec_cancel_def)

lemma spec_replace_fst: "map fst (sp_books (spec_replace r sp)) = map fst (sp_books sp)"
proof (cases "spec_lookup \<lparr>ok_client_id = ro_client_id r, ok_cl_ord_id = ro_orig_cl_ord_id r\<rparr> sp")
  case (Some d)
  obtain at sp1 where rm: "spec_remove d sp = (at, sp1)" by (cases "spec_remove d sp")
  define sp2 where "sp2 = (if at then spec_book_update (os_symbol d) (os_side d) (os_security_id d) sp1 else sp1)"
  obtain err sp3 where no: "spec_new_order (replacement_order r) sp2 = (err, sp3)"
    by (cases "spec_new_order (replacement_order r) sp2")
  have "map fst (sp_books sp3) = map fst (sp_books sp2)"
    using spec_new_order_fst [of "replacement_order r" sp2, unfolded no snd_conv] .
  moreover have "map fst (sp_books sp2) = map fst (sp_books sp)"
    using spec_remove_fst [of d sp, unfolded rm snd_conv] by (simp add: sp2_def)
  ultimately show ?thesis
    using Some no by (simp add: spec_replace_def rm sp2_def [symmetric] Let_def split: option.split engine_error.split)
qed (simp add: spec_replace_def)

lemma spec_send_fst: "map fst (sp_books (spec_send r sp)) = map fst (sp_books sp)"
  by (cases r) (auto simp: spec_cancel_fst spec_replace_fst spec_flush_def)

lemma abs_books_fst: "map fst (sp_books (abs_engine e)) = map fst (books e)"
  by (auto simp: abs_engine_def)

lemma keys_open_books: "fst ` set (open_books sys bs) = set sys \<union> fst ` set bs"
proof (induction sys bs rule: open_books.induct)
  case (2 sy sys bs)
  then show ?case by (cases "sy \<in> set (map fst bs)") auto
qed simp

lemma reachable_symbols:
  assumes "reachable cfg e"
  shows "fst ` set (books e) = set (ec_valid_symbols cfg)"
  using assms
proof (induction rule: reachable.induct)
  case (start slot e)
  then have "books e = open_books (ec_valid_symbols cfg) []" by (auto simp: engine_init_def rbind_eq_Inr_iff)
  then show ?case by (simp add: keys_open_books)
next
  case (step e slot r e')
  have "abs_engine e' = spec_send r (abs_engine e)"
    using send_refines [OF reachable_ok [OF step.hyps(1)] step.hyps(2), of r] step.hyps(3) by (auto split: if_splits)
  then have "map fst (books e') = map fst (books e)"
    using spec_send_fst [of r "abs_engine e"] abs_books_fst by metis
  then have "fst ` set (books e') = fst ` set (books e)" by (metis set_map)
  with step.IH show ?case by simp
qed

lemma reachable_find:
  assumes "reachable cfg e"
  shows "map_of (books e) sy = None \<longleftrightarrow> sy \<notin> set (ec_valid_symbols cfg)"
  using reachable_symbols [OF assms] by (simp add: map_of_eq_None_iff)

text \<open>
  C17: An order leaves the engine untouched (no event, no identifier consumed, no allocation)
  exactly when its identity is already live or its symbol is not a configured one; every other
  order is acknowledged.
\<close>
theorem order_refused_iff:
  assumes "reachable cfg e" "slot_fresh (Some n) e"
  shows "send (Some n) (New_Order_Single r) e = Inr e \<longleftrightarrow>
           resting_index e \<lparr>ok_client_id = nos_client_id r, ok_cl_ord_id = nos_cl_ord_id r\<rparr> \<noteq> None \<or>
           nos_symbol r \<notin> set (ec_valid_symbols cfg)"
proof -
  let ?k = "\<lparr>ok_client_id = nos_client_id r, ok_cl_ord_id = nos_cl_ord_id r\<rparr>"
  note ok = reachable_ok [OF assms(1)] and find = reachable_find [OF assms(1), of "nos_symbol r"]
  show ?thesis
  proof (cases "resting_index e ?k \<noteq> None \<or> map_of (books e) (nos_symbol r) = None")
    case True
    then have "send (Some n) (New_Order_Single r) e = Inr e"
      by (auto simp: handle_new_order_single_def handle_new_order_single_impl_def check_duplicate_def find_book_def Let_def)
    with True find show ?thesis by simp
  next
    case False
    then obtain b where free: "resting_index e ?k = None" and b: "map_of (books e) (nos_symbol r) = Some b" by blast
    have "send (Some n) (New_Order_Single r) e \<noteq> Inr e"
    proof
      assume s: "send (Some n) (New_Order_Single r) e = Inr e"
      note acc = accepted_run [OF ok assms(2) free b s]
      obtain fills q rest where fl: "fill_orders (crosses (make_order_state r)) (nos_order_qty r)
        (abs_book e b (opposite (nos_side r))) = (fills, q, rest)" by (metis prod_cases3)
      from spec_new_order_accepted(3) [OF acc(3,4) fl acc(2)] obtain ups where
        "emitted e = emitted e @ accepted_events r fills q (next_exec_id e) (next_trade_id e) @ ups" by auto
      then show False by (simp add: accepted_events_def Let_def)
    qed
    with False find show ?thesis by auto
  qed
qed

lemma order_refused_iff_witness:
  "send (Some 3) (New_Order_Single (sample_order 2 Buy 10 6)) sample_engine = Inr sample_engine"
proof -
  have "resting_index sample_engine \<lparr>ok_client_id = nos_client_id (sample_order 2 Buy 10 6),
      ok_cl_ord_id = nos_cl_ord_id (sample_order 2 Buy 10 6)\<rparr> \<noteq> None" by code_simp
  then show ?thesis using order_refused_iff [OF sample_reachable sample_fresh(1)] by blast
qed

section \<open>Cancels\<close>

text \<open>
  C11: Cancelling a live order succeeds and removes exactly that order: its node is returned,
  its identity erased, its side keeps the other orders in their order, every other side of
  every book is untouched, and the events are one cancel report, followed by one book update,
  with the new best level, exactly when the order was at the best price.
\<close>
theorem cancel_removes_exactly:
  assumes "reachable cfg e"
    and k: "k = \<lparr>ok_client_id = co_client_id c, ok_cl_ord_id = co_orig_cl_ord_id c\<rparr>"
    and a: "resting_index e k = Some a" "heap e a = Some d" and b: "map_of (books e) (os_symbol d) = Some b"
  shows "\<exists>e' b'. send slot (Cancel_Order c) e = Inr e' \<and>
           heap e' = (heap e)(a := None) \<and> resting_index e' = (resting_index e)(k := None) \<and>
           map_of (books e') (os_symbol d) = Some b' \<and>
           resting_orders e' (side_of (os_side d) b') =
             filter (\<lambda>x. key_of x \<noteq> k) (resting_orders e (side_of (os_side d) b)) \<and>
           side_of (opposite (os_side d)) b' = side_of (opposite (os_side d)) b \<and>
           (\<forall>sy. sy \<noteq> os_symbol d \<longrightarrow> map_of (books e') sy = map_of (books e) sy) \<and>
           next_exec_id e' = next_exec_id e + 1 \<and> next_trade_id e' = next_trade_id e \<and>
           emitted e' = emitted e @
             [On_Order_Entry (execution_report_of d Exec_Canceled Status_Canceled (Some (co_orig_cl_ord_id c)) None None
                (next_exec_id e))] @
             (if best (os_side d) b = Some (os_price d)
              then [On_Market_Data (mbo_book_update_of (best_level (os_side d) b') (os_side d) (os_security_id d))]
              else [])"
proof -
  note ok = reachable_ok [OF assms(1)]
  from index_ok_lookup [OF engine_ok_index [OF ok] a(1)] a(2) have key: "key_of d = k" by simp
  from remove_resting_result [OF ok a(2)] obtain b0 m' b' e1 where
    b0: "(os_symbol d, b0) \<in> set (books e)" and b': "b' = with_side (os_side d) m' b0"
    and rm: "remove_resting k a e = Inr (d, best (os_side d) b0 = Some (os_price d), b', e1)"
    and bk: "books e1 = books (put_book (os_symbol d) b' e)"
    and ro: "resting_orders e1 m' = filter (\<lambda>x. key_of x \<noteq> k) (resting_orders e (side_of (os_side d) b0))"
    and f: "resting_index e1 = (resting_index e)(k := None)" "heap e1 = (heap e)(a := None)"
      "next_exec_id e1 = next_exec_id e" "next_trade_id e1 = next_trade_id e" "emitted e1 = emitted e"
    unfolding key by (elim exE conjE)
  have [simp]: "b0 = b" using b map_of_books [OF ok, of "os_symbol d" b0] b0 by simp
  define e2 where "e2 = emit_execution_report d Exec_Canceled Status_Canceled (Some (co_orig_cl_ord_id c)) None None e1"
  define e3 where "e3 = (if best (os_side d) b = Some (os_price d)
    then emit_mbo_book_update b' (os_side d) (os_security_id d) e2 else e2)"
  have run: "send slot (Cancel_Order c) e = Inr e3"
    using a(1) rm by (simp add: handle_cancel_order_def k [symmetric] e2_def e3_def Let_def)
  have e3: "heap e3 = heap e1" "resting_index e3 = resting_index e1" "books e3 = books e1"
    "next_exec_id e3 = next_exec_id e + 1" "next_trade_id e3 = next_trade_id e"
    using f by (simp_all add: e3_def e2_def emit_mbo_book_update_def emit_execution_report_def)
  have "emitted e3 = emitted e @
             [On_Order_Entry (execution_report_of d Exec_Canceled Status_Canceled (Some (co_orig_cl_ord_id c)) None None
                (next_exec_id e))] @
             (if best (os_side d) b = Some (os_price d)
              then [On_Market_Data (mbo_book_update_of (best_level (os_side d) b') (os_side d) (os_security_id d))]
              else [])"
    using f by (simp add: e3_def e2_def emit_mbo_book_update_def emit_execution_report_def)
  moreover have "map_of (books e3) sy = (if sy = os_symbol d then Some b' else map_of (books e) sy)" for sy
    using b by (simp add: e3 bk books_put_book map_of_put)
  moreover have "resting_orders e3 (side_of (os_side d) b') = filter (\<lambda>x. key_of x \<noteq> k) (resting_orders e (side_of (os_side d) b))"
    using ro resting_orders_cong [of m' e3 e1] by (simp add: b' side_of_with_side e3)
  moreover have "side_of (opposite (os_side d)) b' = side_of (opposite (os_side d)) b"
    by (simp add: b' side_of_with_side)
  ultimately show ?thesis using run e3 f by (intro exI [of _ e3] exI [of _ b']) simp
qed

lemma cancel_removes_exactly_witness:
  "\<exists>e'. send None (Cancel_Order (sample_cancel 9 2)) sample_engine = Inr e' \<and>
        resting_index e' (sample_key 2) = None \<and> next_exec_id e' = next_exec_id sample_engine + 1"
proof -
  have k: "sample_key 2 = \<lparr>ok_client_id = co_client_id (sample_cancel 9 2), ok_cl_ord_id = co_orig_cl_ord_id (sample_cancel 9 2)\<rparr>"
    by code_simp
  have a: "resting_index sample_engine (sample_key 2) = Some 1" by code_simp
  have "map_option os_symbol (heap sample_engine 1) = Some ''PETR4''" by code_simp
  then obtain d where d: "heap sample_engine 1 = Some d" "os_symbol d = ''PETR4''" by auto
  then have b: "map_of (books sample_engine) (os_symbol d) = Some sample_book" using sample_find by simp
  from cancel_removes_exactly [OF sample_reachable k a d(1) b, of None] show ?thesis by auto
qed


lemma alist_by_keys:
  assumes "distinct (map fst xs)"
  shows "xs = map (\<lambda>k. (k, the (map_of xs k))) (map fst xs)"
proof (rule nth_equalityI)
  fix i assume "i < length xs"
  then have "(fst (xs ! i), snd (xs ! i)) \<in> set xs" by simp
  with assms have "map_of xs (fst (xs ! i)) = Some (snd (xs ! i))" by (rule map_of_is_SomeI)
  then show "xs ! i = map (\<lambda>k. (k, the (map_of xs k))) (map fst xs) ! i" using \<open>i < length xs\<close> by simp
qed simp

lemma alist_eqI:
  assumes "\<And>k. map_of xs k = map_of ys k" "map fst xs = map fst ys" "distinct (map fst ys)"
  shows "xs = ys"
proof -
  have "xs = map (\<lambda>k. (k, the (map_of xs k))) (map fst xs)" by (rule alist_by_keys) (simp add: assms(2,3))
  also have "\<dots> = map (\<lambda>k. (k, the (map_of ys k))) (map fst ys)" unfolding assms(2) assms(1) ..
  also have "\<dots> = ys" by (rule alist_by_keys [symmetric]) (rule assms(3))
  finally show ?thesis .
qed

lemma filter_insert_order:
  assumes "\<not> P d" "\<And>x. x \<in> set ds \<Longrightarrow> P x"
  shows "filter P (insert_order s d ds) = ds"
proof -
  have "filter P (takeWhile Q ds) = takeWhile Q ds" "filter P (dropWhile Q ds) = dropWhile Q ds" for Q
    using assms(2) by (auto simp: filter_id_conv dest: set_takeWhileD set_dropWhileD)
  then show ?thesis using assms(1) by (simp add: insert_order_def)
qed

text \<open>
  C16: Placing an order that does not cross and cancelling it again restores every side of every
  book, order by order, and the set of live identities.
\<close>
theorem place_then_cancel:
  assumes "reachable cfg e" "slot_fresh slot e"
    and free: "resting_index e \<lparr>ok_client_id = nos_client_id r, ok_cl_ord_id = nos_cl_ord_id r\<rparr> = None"
    and b: "map_of (books e) (nos_symbol r) = Some b"
    and limit: "nos_price r \<noteq> 0" "nos_order_qty r \<noteq> 0"
    and pas: "\<forall>d\<in>set (resting_orders e (side_of (opposite (nos_side r)) b)). \<not> crosses (make_order_state r) (os_price d)"
    and c: "co_client_id c = nos_client_id r" "co_orig_cl_ord_id c = nos_cl_ord_id r"
    and s1: "send slot (New_Order_Single r) e = Inr e1" and s2: "send slot' (Cancel_Order c) e1 = Inr e2"
  shows "sp_books (abs_engine e2) = sp_books (abs_engine e) \<and> dom (resting_index e2) = dom (resting_index e)"
proof -
  note ok = reachable_ok [OF assms(1)]
  note acc = accepted_run [OF ok assms(2) free b s1]
  let ?d = "make_order_state r" and ?s = "nos_side r"
  have fl: "fill_orders (crosses ?d) (nos_order_qty r) (abs_book e b (opposite ?s)) =
      ([], nos_order_qty r, abs_book e b (opposite ?s))"
    using pas by (cases "abs_book e b (opposite ?s)") (simp_all add: abs_book_def)
  have d: "?d\<lparr>os_leaves_qty := nos_order_qty r\<rparr> = ?d" by (simp add: make_order_state_def)
  define f where "f = (abs_book e b)(?s := insert_order ?s ?d (abs_book e b ?s))"
  have bk: "map_of (sp_books (abs_engine e1)) sy = (if sy = nos_symbol r then Some f else map_of (sp_books (abs_engine e)) sy)" for sy
    using spec_new_order_accepted(2) [OF acc(3,4) fl acc(2), of sy] limit by (simp add: d f_def)
  have none: "key_of x \<noteq> key_of ?d" if "x \<in> set (spec_live (abs_engine e))" for x
    using acc(3) that by (simp add: spec_lookup_def find_None_iff)
  have own: "key_of x \<noteq> key_of ?d" if "x \<in> set (abs_book e b s)" for x s
    by (rule none) (use acc(4) that in \<open>auto simp: mem_spec_live dest: map_of_SomeD\<close>)
  have "?d \<in> set (f ?s)" by (simp add: f_def)
  then have live: "?d \<in> set (spec_live (abs_engine e1))"
    using bk [of "nos_symbol r"] unfolding mem_spec_live by (auto dest: map_of_SomeD)
  then obtain a where a: "heap e1 a = Some ?d" unfolding spec_live_set [OF acc(1)] ..
  have lk: "spec_lookup (key_of ?d) (abs_engine e1) = Some ?d"
    using index_okD [OF engine_ok_index [OF acc(1)] a] a by (simp add: spec_lookup_abs [OF acc(1)])
  have filt: "filter (\<lambda>x. key_of x \<noteq> key_of ?d) (f ?s) = abs_book e b ?s"
    unfolding f_def fun_upd_same by (rule filter_insert_order) (use own in blast)+
  from cancel_refines [OF acc(1), of c] s2 have ok2: "engine_ok e2" and a2: "abs_engine e2 = spec_cancel c (abs_engine e1)"
    by auto
  have "sp_books (abs_engine e2) = sp_books (spec_put (nos_symbol r) ?s (abs_book e b ?s) (abs_engine e1))"
    using lk bk [of "nos_symbol r"] filt c by (simp add: a2 spec_cancel_def spec_remove_def Let_def)
  moreover have "f(?s := abs_book e b ?s) = abs_book e b" by (simp add: f_def)
  ultimately have "map_of (sp_books (abs_engine e2)) sy = map_of (sp_books (abs_engine e)) sy" for sy
    using bk [of sy] bk [of "nos_symbol r"] acc(4) by (simp add: map_of_spec_put)
  moreover have "map fst (sp_books (abs_engine e2)) = map fst (sp_books (abs_engine e))"
    using spec_cancel_fst [of c "abs_engine e1"] spec_new_order_fst [of r "abs_engine e"] acc(2) by (simp add: a2)
  moreover have "distinct (map fst (sp_books (abs_engine e)))"
    using ok by (simp add: abs_books_fst engine_ok_def)
  ultimately have eq: "sp_books (abs_engine e2) = sp_books (abs_engine e)"
    by (intro alist_eqI) simp_all
  have "(resting_index e2 k = None) = (resting_index e k = None)" for k
    using spec_lookup_cong [OF eq, of k] unfolding spec_lookup_abs [OF ok] spec_lookup_abs [OF ok2]
    by (metis option.map_disc_iff)
  then have "dom (resting_index e2) = dom (resting_index e)" unfolding dom_def by simp
  with eq show ?thesis ..
qed


lemma place_then_cancel_witness:
  "\<exists>e1 e2. send (Some 3) (New_Order_Single (sample_order 4 Buy 8 6)) sample_engine = Inr e1 \<and>
     send None (Cancel_Order (sample_cancel 5 4)) e1 = Inr e2 \<and> dom (resting_index e2) = dom (resting_index sample_engine)"
proof -
  let ?r = "sample_order 4 Buy 8 6"
  have free: "resting_index sample_engine \<lparr>ok_client_id = nos_client_id ?r, ok_cl_ord_id = nos_cl_ord_id ?r\<rparr> = None"
    by code_simp
  have b: "map_of (books sample_engine) (nos_symbol ?r) = Some sample_book" using sample_find by (simp add: sample_order_def)
  have lim: "nos_price ?r \<noteq> 0" "nos_order_qty ?r \<noteq> 0" by code_simp+
  have cr: "\<forall>d\<in>set (resting_orders sample_engine (side_of (opposite (nos_side ?r)) sample_book)).
      \<not> crosses (make_order_state ?r) (os_price d)" by code_simp
  have c: "co_client_id (sample_cancel 5 4) = nos_client_id ?r" "co_orig_cl_ord_id (sample_cancel 5 4) = nos_cl_ord_id ?r"
    by code_simp+
  have "is_ok (rbind (send (Some 3) (New_Order_Single ?r) sample_engine) (send None (Cancel_Order (sample_cancel 5 4))))"
    by code_simp
  then obtain e1 e2 where s: "send (Some 3) (New_Order_Single ?r) sample_engine = Inr e1"
    "send None (Cancel_Order (sample_cancel 5 4)) e1 = Inr e2" by (auto simp: is_ok_iff rbind_eq_Inr_iff)
  from place_then_cancel [OF sample_reachable sample_fresh(1) free b lim cr c s] s show ?thesis by blast
qed

section \<open>Replaces\<close>

text \<open>
  C25: A replace whose identities are fine but whose symbol is unknown destroys the order it was
  to replace: the order is gone from its book and from the index, its owner receives no cancel
  report, and the answer is a cancel reject for the unknown symbol.
\<close>
theorem replace_unknown_symbol_drops_order:
  assumes "reachable cfg e"
    and old: "resting_index e \<lparr>ok_client_id = ro_client_id r, ok_cl_ord_id = ro_orig_cl_ord_id r\<rparr> = Some a"
    and new: "resting_index e \<lparr>ok_client_id = ro_client_id r, ok_cl_ord_id = ro_cl_ord_id r\<rparr> = None"
    and sy: "ro_symbol r \<notin> set (ec_valid_symbols cfg)"
  shows "\<exists>e' ups. send slot (Replace_Order r) e = Inr e' \<and>
           resting_index e' \<lparr>ok_client_id = ro_client_id r, ok_cl_ord_id = ro_orig_cl_ord_id r\<rparr> = None \<and>
           heap e' a = None \<and> next_exec_id e' = next_exec_id e \<and>
           emitted e' = emitted e @ map (\<lambda>u. On_Market_Data (Mbo_Book_Update u)) ups @
             [On_Order_Entry (cancel_reject_of (replace_cancel r) Unknown_Symbol ''unknown symbol'')]"
proof -
  note ok = reachable_ok [OF assms(1)]
  from index_ok_lookup [OF engine_ok_index [OF ok] old] obtain d where
    d: "heap e a = Some d" "key_of d = \<lparr>ok_client_id = ro_client_id r, ok_cl_ord_id = ro_orig_cl_ord_id r\<rparr>" by blast
  from remove_resting_result [OF ok d(1)] obtain at b' e1 where
    rm: "remove_resting (key_of d) a e = Inr (d, at, b', e1)" and bk: "books e1 = books (put_book (os_symbol d) b' e)"
    and f: "resting_index e1 = (resting_index e)(key_of d := None)" "heap e1 = (heap e)(a := None)"
      "next_exec_id e1 = next_exec_id e" "emitted e1 = emitted e" by metis
  define e2 where "e2 = (if at then emit_mbo_book_update b' (os_side d) (os_security_id d) e1 else e1)"
  have e2: "resting_index e2 = resting_index e1" "books e2 = books e1" "heap e2 = heap e1" "next_exec_id e2 = next_exec_id e1"
    by (simp_all add: e2_def emit_mbo_book_update_def)
  have em: "\<exists>ups. emitted e2 = emitted e @ map (\<lambda>u. On_Market_Data (Mbo_Book_Update u)) ups"
  proof (cases at)
    case True
    obtain u where "mbo_book_update_of (best_level (os_side d) b') (os_side d) (os_security_id d) = Mbo_Book_Update u"
      unfolding mbo_book_update_of_def by blast
    then show ?thesis using True f by (intro exI [of _ "[u]"]) (simp add: e2_def emit_mbo_book_update_def)
  qed (simp add: e2_def f)
  have none: "map_of (books e2) (ro_symbol r) = None"
    using reachable_find [OF assms(1), of "ro_symbol r"] sy by (auto simp: e2 bk books_put_book map_of_put)
  have keys: "key_of d \<noteq> \<lparr>ok_client_id = ro_client_id r, ok_cl_ord_id = ro_cl_ord_id r\<rparr>" using old new d(2) by auto
  have "handle_new_order_single_impl slot (replacement_order r) e2 = Inr (Some (Err_Unknown_Symbol (ro_symbol r)), e2)"
    using new none keys by (simp add: handle_new_order_single_impl_def check_duplicate_def find_book_def
        replacement_order_def e2 f Let_def)
  then have "send slot (Replace_Order r) e =
      Inr (emit_cancel_reject (replace_cancel r) Unknown_Symbol ''unknown symbol'' e2)"
    using old new rm d(2) by (simp add: handle_replace_order_def e2_def Let_def)
  moreover from em obtain ups where "emitted e2 = emitted e @ map (\<lambda>u. On_Market_Data (Mbo_Book_Update u)) ups" ..
  ultimately show ?thesis using d(2) f e2
    by (intro exI [of _ "emit_cancel_reject (replace_cancel r) Unknown_Symbol ''unknown symbol'' e2"] exI [of _ ups])
      (simp add: emit_cancel_reject_def)
qed

definition sample_replace :: "cl_ord_id \<Rightarrow> cl_ord_id \<Rightarrow> symbol \<Rightarrow> replace_order" where
  "sample_replace i orig sy =
     \<lparr>ro_client_id = 1, ro_cl_ord_id = i, ro_orig_cl_ord_id = orig, ro_security_id = 7, ro_symbol = sy,
      ro_security_exchange = ''BVMF'', ro_side = Sell, ro_ord_type = Limit, ro_time_in_force = Day,
      ro_order_qty = 5, ro_price = 10\<rparr>"

lemma replace_unknown_symbol_drops_order_witness:
  "\<exists>e'. send None (Replace_Order (sample_replace 9 2 ''ITUB4'')) sample_engine = Inr e' \<and> heap e' 1 = None \<and>
        heap sample_engine 1 \<noteq> None"
proof -
  let ?r = "sample_replace 9 2 ''ITUB4''"
  have old: "resting_index sample_engine \<lparr>ok_client_id = ro_client_id ?r, ok_cl_ord_id = ro_orig_cl_ord_id ?r\<rparr> = Some 1"
    by code_simp
  have new: "resting_index sample_engine \<lparr>ok_client_id = ro_client_id ?r, ok_cl_ord_id = ro_cl_ord_id ?r\<rparr> = None"
    by code_simp
  have sy: "ro_symbol ?r \<notin> set (ec_valid_symbols sample_config)" by code_simp
  have "heap sample_engine 1 \<noteq> None" by code_simp
  with replace_unknown_symbol_drops_order [OF sample_reachable old new sy, of None] show ?thesis by blast
qed

section \<open>Flush\<close>

text \<open>
  C27: A flush empties every book and the identity index and returns every node to the pool; it
  publishes nothing, keeps the configured books and consumes no identifier.
\<close>
theorem flush_empties_silently:
  assumes "reachable cfg e"
  shows "\<exists>e'. send slot Flush e = Inr e' \<and> heap e' = Map.empty \<and> resting_index e' = Map.empty \<and>
           map fst (books e') = map fst (books e) \<and>
           (\<forall>(sy, b)\<in>set (books e'). bids b = [] \<and> asks b = []) \<and>
           emitted e' = emitted e \<and> next_exec_id e' = next_exec_id e \<and> next_trade_id e' = next_trade_id e"
proof -
  from flush_refines [OF reachable_ok [OF assms]] obtain e' where
    e': "handle_flush e = Inr e'" "engine_ok e'" "abs_engine e' = spec_flush (abs_engine e)" by blast
  have none: "resting_orders e' (side_of s b) = []" if "(sy, b) \<in> set (books e')" for sy b s
    using map_of_abs_mem [OF e'(2) that] unfolding e'(3)
    by (auto simp: spec_flush_def spec_empty_book_def abs_book_def fun_eq_iff dest!: map_of_SomeD)
  have side: "side_of s b = []" if b: "(sy, b) \<in> set (books e')" for sy b s
  proof -
    have "best_price (side_of s b) = None"
      using best_price_eq_head [OF engine_ok_side [OF e'(2) b, of s]] none [OF b, of s] by simp
    then show ?thesis by (simp add: best_price_def split: list.splits prod.splits)
  qed
  then have "linked (books e') = {}" by (auto simp: linked_def)
  then have heap: "heap e' = Map.empty" using e'(2) by (simp add: engine_ok_def)
  have idx: "resting_index e' = Map.empty"
  proof
    fix k show "resting_index e' k = None"
      using index_ok_lookup [OF engine_ok_index [OF e'(2)], of k] heap by (cases "resting_index e' k") auto
  qed
  have "map fst (books e') = map fst (books e)"
    using arg_cong [OF e'(3), of "\<lambda>sp. map fst (sp_books sp)"] by (simp add: spec_flush_def abs_engine_def o_def case_prod_unfold)
  moreover have "emitted e' = emitted e" "next_exec_id e' = next_exec_id e" "next_trade_id e' = next_trade_id e"
    using arg_cong [OF e'(3), of sp_emitted] arg_cong [OF e'(3), of sp_exec_id] arg_cong [OF e'(3), of sp_trade_id]
    by (simp_all add: spec_flush_def)
  moreover have "bids b = [] \<and> asks b = []" if "(sy, b) \<in> set (books e')" for sy b
    using side [OF that, of Buy] side [OF that, of Sell] by simp
  ultimately show ?thesis using e'(1) heap idx by auto
qed

lemma flush_empties_silently_witness:
  "\<exists>e'. send None Flush sample_engine = Inr e' \<and> heap e' = Map.empty \<and> heap sample_engine 0 \<noteq> None"
proof -
  have "heap sample_engine 0 \<noteq> None" by code_simp
  with flush_empties_silently [OF sample_reachable, of None] show ?thesis by blast
qed


section \<open>Numbering\<close>

definition trade_ids :: "engine_output list \<Rightarrow> trade_id list" where
  "trade_ids os = concat (map (\<lambda>x. case x of On_Market_Data (Trade t) \<Rightarrow> [tr_trade_id t] | _ \<Rightarrow> []) os)"

definition exec_ids :: "engine_output list \<Rightarrow> exec_id list" where
  "exec_ids os = concat (map (\<lambda>x. case x of On_Order_Entry (Execution_Report r) \<Rightarrow> [er_exec_id r] | _ \<Rightarrow> []) os)"

text \<open>\<open>1, 2, 3, ...\<close>, at 64 bits.\<close>

definition first_ids :: "nat \<Rightarrow> u64 list" where
  "first_ids n = map of_nat [1..<Suc n]"

lemma first_ids_simps [simp]: "first_ids 0 = []" "first_ids (Suc n) = first_ids n @ [of_nat (Suc n)]"
  "length (first_ids n) = n"
  by (simp_all add: first_ids_def)

definition numbered :: "spec_engine \<Rightarrow> bool" where
  "numbered sp \<longleftrightarrow>
     (\<exists>n. trade_ids (sp_emitted sp) = first_ids n \<and> sp_trade_id sp = of_nat (Suc n)) \<and>
     (\<exists>n. exec_ids (sp_emitted sp) = first_ids n \<and> sp_exec_id sp = of_nat (Suc n))"

named_theorems numbered_intro \<open>operations of the abstract engine keep the numbering\<close>

lemma ids_append [simp]:
  "trade_ids (xs @ ys) = trade_ids xs @ trade_ids ys" "exec_ids (xs @ ys) = exec_ids xs @ exec_ids ys"
  "trade_ids [] = []" "exec_ids [] = []"
  by (simp_all add: trade_ids_def exec_ids_def)

lemma numbered_emit [numbered_intro]:
  "numbered sp \<Longrightarrow> trade_ids os = [] \<Longrightarrow> exec_ids os = [] \<Longrightarrow> numbered (spec_emit os sp)"
  by (simp add: numbered_def)

lemma numbered_put [numbered_intro]: "numbered sp \<Longrightarrow> numbered (spec_put sy s ds sp)"
  by (simp add: numbered_def)

lemma numbered_report [numbered_intro]:
  assumes "numbered sp"
  shows "numbered (spec_report d et ost ori lq lp sp)"
proof -
  from assms obtain n where "exec_ids (sp_emitted sp) = first_ids n" "sp_exec_id sp = of_nat (Suc n)"
    by (auto simp: numbered_def)
  then have "exec_ids (sp_emitted (spec_report d et ost ori lq lp sp)) = first_ids (Suc n) \<and>
      sp_exec_id (spec_report d et ost ori lq lp sp) = of_nat (Suc (Suc n))"
    by (simp add: exec_ids_def execution_report_of_def)
  moreover have "trade_ids (sp_emitted (spec_report d et ost ori lq lp sp)) = trade_ids (sp_emitted sp)"
    by (simp add: trade_ids_def)
  ultimately show ?thesis using assms unfolding numbered_def by fastforce
qed

lemma numbered_trades [numbered_intro]:
  assumes "numbered sp"
  shows "numbered (spec_trades ts sp)"
proof -
  have ids: "trade_ids (map (\<lambda>t. On_Market_Data (Trade t)) (number_trades (of_nat (Suc n)) ts)) =
      map of_nat [Suc n..<Suc n + length ts]" for n
  proof (induction ts arbitrary: n)
    case (Cons t ts)
    from Cons.IH [of "Suc n"] show ?case by (simp add: trade_ids_def upt_conv_Cons del: upt_Suc)
  qed simp
  have ex: "exec_ids (map (\<lambda>t. On_Market_Data (Trade t)) us) = []" for us by (simp add: exec_ids_def)
  from assms obtain n where n: "trade_ids (sp_emitted sp) = first_ids n" "sp_trade_id sp = of_nat (Suc n)"
    by (auto simp: numbered_def)
  have "first_ids n @ map of_nat [Suc n..<Suc n + length ts] = first_ids (n + length ts)"
    unfolding first_ids_def map_append [symmetric] using upt_add_eq_append [of 1 "Suc n" "length ts"] by simp
  then have "trade_ids (sp_emitted (spec_trades ts sp)) = first_ids (n + length ts) \<and>
      sp_trade_id (spec_trades ts sp) = of_nat (Suc (n + length ts))"
    using n ids [of n] by simp
  moreover have "exec_ids (sp_emitted (spec_trades ts sp)) = exec_ids (sp_emitted sp)" by (simp add: ex)
  ultimately show ?thesis using assms unfolding numbered_def by fastforce
qed

lemma numbered_update [numbered_intro]: "numbered sp \<Longrightarrow> numbered (spec_book_update sy s sec sp)"
  using spec_book_update_emits [of sy s sec sp]
  by (auto simp: trade_ids_def exec_ids_def intro!: numbered_emit)

lemma numbered_execution [numbered_intro]: "numbered sp \<Longrightarrow> numbered (spec_execution r d fills sp)"
  by (auto simp: spec_execution_def Let_def trade_ids_def exec_ids_def execution_summary_of_def
      intro!: numbered_intro)

lemma numbered_reject [numbered_intro]: "numbered sp \<Longrightarrow> numbered (spec_reject c reason txt sp)"
  by (auto simp: spec_reject_def trade_ids_def exec_ids_def cancel_reject_of_def intro!: numbered_intro)

lemma numbered_new_order [numbered_intro]: "numbered sp \<Longrightarrow> numbered (snd (spec_new_order r sp))"
  by (auto simp: spec_new_order_def Let_def split: option.split prod.split intro!: numbered_intro)

lemma numbered_remove [numbered_intro]: "numbered sp \<Longrightarrow> numbered (snd (spec_remove d sp))"
  by (auto simp: spec_remove_def split: option.split intro!: numbered_intro)

lemma numbered_cancel [numbered_intro]:
  assumes "numbered sp"
  shows "numbered (spec_cancel c sp)"
proof (cases "spec_lookup \<lparr>ok_client_id = co_client_id c, ok_cl_ord_id = co_orig_cl_ord_id c\<rparr> sp")
  case (Some d)
  have "numbered (snd (spec_remove d sp))" by (rule numbered_remove [OF assms])
  then show ?thesis
    by (cases "spec_remove d sp") (auto simp: spec_cancel_def Some Let_def intro!: numbered_intro)
qed (use assms in \<open>auto simp: spec_cancel_def intro!: numbered_intro\<close>)

lemma numbered_replace [numbered_intro]:
  assumes "numbered sp"
  shows "numbered (spec_replace r sp)"
proof (cases "spec_lookup \<lparr>ok_client_id = ro_client_id r, ok_cl_ord_id = ro_orig_cl_ord_id r\<rparr> sp")
  case (Some d)
  obtain at sp1 where rm: "spec_remove d sp = (at, sp1)" by (cases "spec_remove d sp")
  define sp2 where "sp2 = (if at then spec_book_update (os_symbol d) (os_side d) (os_security_id d) sp1 else sp1)"
  obtain err sp3 where no: "spec_new_order (replacement_order r) sp2 = (err, sp3)"
    by (cases "spec_new_order (replacement_order r) sp2")
  have "numbered sp1" using numbered_remove [OF assms, of d] by (simp add: rm)
  then have "numbered sp2" by (auto simp: sp2_def intro: numbered_intro)
  then have "numbered sp3" using numbered_new_order [of sp2 "replacement_order r"] by (simp add: no)
  then show ?thesis using assms
    by (auto simp: spec_replace_def Some rm sp2_def [symmetric] no Let_def intro!: numbered_intro
        split: option.split engine_error.split)
qed (use assms in \<open>auto simp: spec_replace_def intro!: numbered_intro\<close>)

lemma numbered_send: "numbered sp \<Longrightarrow> numbered (spec_send r sp)"
  by (cases r) (auto intro!: numbered_intro simp: spec_flush_def, simp add: numbered_def)

lemma reachable_numbered:
  assumes "reachable cfg e"
  shows "numbered (abs_engine e)"
  using assms
proof (induction rule: reachable.induct)
  case (start slot e)
  then have "emitted e = []" "next_exec_id e = 1" "next_trade_id e = 1"
    by (auto simp: engine_init_def rbind_eq_Inr_iff)
  then show ?case by (auto simp: numbered_def intro: exI [of _ 0])
next
  case (step e slot r e')
  have "abs_engine e' = spec_send r (abs_engine e)"
    using send_refines [OF reachable_ok [OF step.hyps(1)] step.hyps(2), of r] step.hyps(3) by (auto split: if_splits)
  then show ?case using numbered_send [OF step.IH] by simp
qed

text \<open>
  C15: Over any run, the trades published carry the identifiers 1, 2, 3, and so on, in the order
  they are published, and so do the execution reports; a cancel reject, a book update or a
  refused order consumes no identifier.
\<close>
theorem identifiers_are_consecutive:
  assumes "reachable cfg e"
  shows "trade_ids (emitted e) = first_ids (length (trade_ids (emitted e))) \<and>
         exec_ids (emitted e) = first_ids (length (exec_ids (emitted e))) \<and>
         next_trade_id e = of_nat (Suc (length (trade_ids (emitted e)))) \<and>
         next_exec_id e = of_nat (Suc (length (exec_ids (emitted e))))"
  using reachable_numbered [OF assms] by (auto simp: numbered_def)

lemma identifiers_are_consecutive_witness:
  "exec_ids (emitted sample_engine) = [1, 2, 3] \<and> next_exec_id sample_engine = 4"
proof -
  have "length (exec_ids (emitted sample_engine)) = 3" by code_simp
  with identifiers_are_consecutive [OF sample_reachable] show ?thesis
    by (simp add: numeral_3_eq_3)
qed

end
