(* ===== verification/Engine_Events.thy ===== *)
theory Engine_Events
  imports Engine_Lifecycle
begin

text \<open>
  What a consumer of the engine's events relies on: the engine only adds to the events it has
  emitted, so what was handed to a callback stays handed, whatever request comes next.
\<close>

locale event_source =
  fixes step :: "'r \<Rightarrow> 's \<Rightarrow> 's" and events_of :: "'s \<Rightarrow> 'o list"
  assumes step_extends: "\<exists>more. events_of (step r s) = events_of s @ more"
begin

lemma run_extends: "\<exists>more. events_of (fold step rs s) = events_of s @ more"
proof (induction rs arbitrary: s)
  case (Cons r rs)
  from step_extends [of r s] Cons.IH [of "step r s"] show ?case by fastforce
qed simp

lemma prefix_extends: "\<exists>more. events_of (fold step (rs @ rs') s) = events_of (fold step rs s) @ more"
  using run_extends [of rs' "fold step rs s"] by simp

lemma new_events_complete:
  "events_of s @ drop (length (events_of s)) (events_of (step r s)) = events_of (step r s)"
  using step_extends [of r s] by auto

end

section \<open>The engine only adds events\<close>

definition extends :: "spec_engine \<Rightarrow> spec_engine \<Rightarrow> bool" where
  "extends sp sp' \<longleftrightarrow> (\<exists>more. sp_emitted sp' = sp_emitted sp @ more)"

named_theorems extends_intro

lemma extends_refl [extends_intro]: "extends sp sp"
  by (simp add: extends_def)

lemma extends_trans: "extends sp sp1 \<Longrightarrow> extends sp1 sp2 \<Longrightarrow> extends sp sp2"
  by (force simp: extends_def)

lemma extends_emit: "extends sp sp' \<Longrightarrow> extends sp (spec_emit os sp')"
  by (force simp: extends_def spec_emit_def)

lemma extends_quiet: "extends sp sp' \<Longrightarrow> sp_emitted sp'' = sp_emitted sp' \<Longrightarrow> extends sp sp''"
  by (simp add: extends_def)

lemma extends_put [extends_intro]: "extends sp sp' \<Longrightarrow> extends sp (spec_put sy s ds sp')"
  by (erule extends_quiet) (simp add: spec_put_def)

lemma extends_report [extends_intro]: "extends sp sp' \<Longrightarrow> extends sp (spec_report d et os orig lq lp sp')"
  unfolding spec_report_def by (intro extends_emit) (erule extends_quiet, simp)

lemma extends_trades [extends_intro]: "extends sp sp' \<Longrightarrow> extends sp (spec_trades ts sp')"
  unfolding spec_trades_def by (intro extends_emit) (erule extends_quiet, simp)

lemma extends_update [extends_intro]: "extends sp sp' \<Longrightarrow> extends sp (spec_book_update sy s sec sp')"
  unfolding spec_book_update_def by (rule extends_emit)

lemma extends_reject [extends_intro]: "extends sp sp' \<Longrightarrow> extends sp (spec_reject c reason txt sp')"
  unfolding spec_reject_def by (rule extends_emit)

lemma extends_execution [extends_intro]: "extends sp sp' \<Longrightarrow> extends sp (spec_execution r d fills sp')"
  by (auto simp: spec_execution_def Let_def intro!: extends_intro extends_emit)

lemma extends_new_order [extends_intro]: "extends sp sp' \<Longrightarrow> extends sp (snd (spec_new_order r sp'))"
  by (auto simp: spec_new_order_def Let_def split: option.split prod.split intro!: extends_intro)

lemma extends_remove [extends_intro]: "extends sp sp' \<Longrightarrow> extends sp (snd (spec_remove d sp'))"
  by (auto simp: spec_remove_def split: option.split intro!: extends_intro)

lemma extends_cancel: "extends sp (spec_cancel c sp)"
proof (cases "spec_lookup \<lparr>ok_client_id = co_client_id c, ok_cl_ord_id = co_orig_cl_ord_id c\<rparr> sp")
  case (Some d)
  have "extends sp (snd (spec_remove d sp))" by (intro extends_intro)
  then show ?thesis by (cases "spec_remove d sp") (auto simp: spec_cancel_def Some Let_def intro!: extends_intro)
qed (auto simp: spec_cancel_def intro!: extends_intro)

lemma extends_replace: "extends sp (spec_replace r sp)"
proof (cases "spec_lookup \<lparr>ok_client_id = ro_client_id r, ok_cl_ord_id = ro_orig_cl_ord_id r\<rparr> sp")
  case (Some d)
  obtain at sp1 where rm: "spec_remove d sp = (at, sp1)" by (cases "spec_remove d sp")
  define sp2 where "sp2 = (if at then spec_book_update (os_symbol d) (os_side d) (os_security_id d) sp1 else sp1)"
  obtain err sp3 where no: "spec_new_order (replacement_order r) sp2 = (err, sp3)"
    by (cases "spec_new_order (replacement_order r) sp2")
  have "extends sp sp1" using extends_remove [OF extends_refl, of sp d] by (simp add: rm)
  then have "extends sp sp2" by (auto simp: sp2_def intro: extends_intro)
  then have "extends sp sp3" using extends_new_order [of sp sp2 "replacement_order r"] by (simp add: no)
  then show ?thesis
    by (auto simp: spec_replace_def Some rm sp2_def [symmetric] no Let_def intro!: extends_intro
        split: option.split engine_error.split)
qed (auto simp: spec_replace_def intro!: extends_intro)

lemma extends_send: "extends sp (spec_send r sp)"
proof (cases r)
  case Flush
  then show ?thesis by (simp add: spec_flush_def extends_def)
qed (simp_all add: extends_new_order [OF extends_refl] extends_cancel extends_replace)

interpretation engine_source: event_source spec_send sp_emitted
  by unfold_locales (use extends_send in \<open>simp add: extends_def\<close>)

end
