(* ===== verification/Application.thy ===== *)
theory Application
  imports Config Order_Entry_Session Md_Json Engine_Events
begin

text \<open>
  The wiring shell (\<open>server/src/application.cpp\<close>) and the composers it owns:
  \<open>order_entry/src/runtime/session.cpp\<close>, \<open>matching_engine/src/runtime/engine.cpp\<close>,
  \<open>market_data/src/runtime/publisher.cpp\<close>, and the receivers of \<open>lab/libs/network\<close>. This theory holds
  the state and how it is set up and started; \<open>Pipeline\<close> holds what the started threads do.
  What the operating system answers is a parameter.
\<close>

section \<open>Receivers\<close>

record startup_answers =
  sa_address_error :: "string \<Rightarrow> string option"
  sa_open_error :: "string option"
  sa_reuse_error :: "string option"
  sa_bind_error :: "string option"
  sa_slot :: "addr option"
  sa_thread_failure :: "nat \<Rightarrow> string option"

text \<open>\<open>ar_armed\<close>: a receive is outstanding on the socket.\<close>

record asio_udp_receiver =
  ar_config :: endpoint_config
  ar_open :: bool
  ar_bound :: bool
  ar_armed :: bool

definition asio_init :: "endpoint_config \<Rightarrow> asio_udp_receiver" where
  "asio_init endpoint = \<lparr>ar_config = endpoint, ar_open = False, ar_bound = False, ar_armed = False\<rparr>"

text \<open>The steps of \<open>start\<close>, each with the error it reports.\<close>

definition receiver_parse_address :: "startup_answers \<Rightarrow> string \<Rightarrow> unit result" where
  "receiver_parse_address ans txt =
     (case sa_address_error ans txt of
        Some message \<Rightarrow> make_leaf_error (Lab_Code Code_Configuration_Error) message
      | None \<Rightarrow> Inr ())"

definition system_call :: "string option \<Rightarrow> unit result" where
  "system_call answer =
     (case answer of
        Some message \<Rightarrow> make_leaf_error (Lab_Code Code_Generic_Error) message
      | None \<Rightarrow> Inr ())"

definition open_socket :: "startup_answers \<Rightarrow> asio_udp_receiver \<Rightarrow> unit result \<times> asio_udp_receiver" where
  "open_socket ans r =
     (case system_call (sa_open_error ans) of Inl e \<Rightarrow> (Inl e, r) | Inr _ \<Rightarrow> (Inr (), r\<lparr>ar_open := True\<rparr>))"

definition enable_reuse_address :: "startup_answers \<Rightarrow> asio_udp_receiver \<Rightarrow> unit result \<times> asio_udp_receiver" where
  "enable_reuse_address ans r = (system_call (sa_reuse_error ans), r)"

definition bind_socket :: "startup_answers \<Rightarrow> asio_udp_receiver \<Rightarrow> unit result \<times> asio_udp_receiver" where
  "bind_socket ans r =
     (case system_call (sa_bind_error ans) of Inl e \<Rightarrow> (Inl e, r) | Inr _ \<Rightarrow> (Inr (), r\<lparr>ar_bound := True\<rparr>))"

text \<open>\<open>LAB_LEAF_CHECK\<close> on a step with a state.\<close>

definition check_then :: "unit result \<times> 's \<Rightarrow> ('s \<Rightarrow> unit result \<times> 's) \<Rightarrow> unit result \<times> 's" where
  "check_then m next = (case m of (Inl e, s) \<Rightarrow> (Inl e, s) | (Inr _, s) \<Rightarrow> next s)"

definition asio_start :: "startup_answers \<Rightarrow> asio_udp_receiver \<Rightarrow> unit result \<times> asio_udp_receiver" where
  "asio_start ans r =
     check_then (receiver_parse_address ans (ep_address (ar_config r)), r) (\<lambda>r.
     check_then (open_socket ans r) (\<lambda>r.
     check_then (enable_reuse_address ans r) (\<lambda>r.
     check_then (bind_socket ans r) (\<lambda>r. (Inr (), r\<lparr>ar_armed := True\<rparr>)))))"

definition asio_stop :: "asio_udp_receiver \<Rightarrow> asio_udp_receiver" where
  "asio_stop r = r\<lparr>ar_armed := False\<rparr>"

text \<open>
  \<open>post_receive\<close>: the handler of the receive that was outstanding. An error ends the receive loop; a
  datagram is handed on and the next receive is posted.
\<close>

definition asio_on_receive :: "'e + string \<Rightarrow> asio_udp_receiver \<Rightarrow> string option \<times> asio_udp_receiver" where
  "asio_on_receive completion r =
     (case completion of
        Inl error \<Rightarrow> (None, r\<lparr>ar_armed := False\<rparr>)
      | Inr bytes \<Rightarrow> (Some bytes, r\<lparr>ar_armed := True\<rparr>))"

text \<open>The kernel-bypass receiver is a stub.\<close>

definition ef_vi_open :: "unit result" where
  "ef_vi_open = make_leaf_error (Lab_Code Code_Not_Implemented) ''ef_vi backend is a stub; select asio_udp_receiver instead''"

definition ef_vi_poll :: nat where
  "ef_vi_poll = 0"

definition ef_vi_close :: "endpoint_config \<Rightarrow> endpoint_config" where
  "ef_vi_close receiver = receiver"

section \<open>Composers\<close>

record entry_session =
  es_io_context :: bool
  es_asio :: "asio_udp_receiver option"
  es_ef_vi :: "endpoint_config option"
  es_decoder :: "decoder_config option"
  es_session :: bool

definition entry_init :: entry_session where
  "entry_init = \<lparr>es_io_context = False, es_asio = None, es_ef_vi = None, es_decoder = None, es_session = False\<rparr>"

definition setup_decoder :: "decoder_config \<Rightarrow> entry_session \<Rightarrow> entry_session" where
  "setup_decoder config st = st\<lparr>es_decoder := Some config\<rparr>"

definition setup_asio_receiver :: "endpoint_config \<Rightarrow> entry_session \<Rightarrow> entry_session" where
  "setup_asio_receiver endpoint st = st\<lparr>es_io_context := True, es_asio := Some (asio_init endpoint)\<rparr>"

definition setup_ef_vi_receiver :: "endpoint_config \<Rightarrow> entry_session \<Rightarrow> entry_session" where
  "setup_ef_vi_receiver endpoint st = st\<lparr>es_ef_vi := Some endpoint\<rparr>"

lemmas setup_parts [simp] = setup_decoder_def setup_asio_receiver_def setup_ef_vi_receiver_def

text \<open>\<open>io_context\<close> tells whether the caller passed one.\<close>

definition entry_setup :: "session_config \<Rightarrow> bool \<Rightarrow> entry_session \<Rightarrow> unit result \<times> entry_session" where
  "entry_setup config io_context st =
     (if es_session st
      then (make_leaf_error (Lab_Code Code_Already_In_Progress) ''order_entry runtime session already set up'', st)
      else
        let st = (setup_decoder (sc_decoder config) st)\<lparr>es_session := True\<rparr>
        in (case sc_receiver config of
              Asio_Udp_Receiver endpoint \<Rightarrow>
                if \<not> io_context
                then (make_leaf_error (Lab_Code Code_Configuration_Error) ''asio receiver requires a non-null io_context'', st)
                else (Inr (), setup_asio_receiver endpoint st)
            | Ef_Vi_Udp_Receiver endpoint \<Rightarrow>
                if io_context
                then (make_leaf_error (Lab_Code Code_Configuration_Error) ''ef_vi receiver does not take an io_context'', st)
                else (Inr (), setup_ef_vi_receiver endpoint st)))"

definition entry_start :: "startup_answers \<Rightarrow> entry_session \<Rightarrow> unit result \<times> entry_session" where
  "entry_start ans st =
     (if \<not> es_session st
      then (make_leaf_error (Lab_Code Code_Configuration_Error) ''order_entry runtime session not set up'', st)
      else case es_asio st of
             Some r \<Rightarrow> (case asio_start ans r of (res, r') \<Rightarrow> (res, st\<lparr>es_asio := Some r'\<rparr>))
           | None \<Rightarrow> (case es_ef_vi st of Some _ \<Rightarrow> (ef_vi_open, st) | None \<Rightarrow> (Inr (), st)))"

definition entry_stop :: "entry_session \<Rightarrow> entry_session" where
  "entry_stop st = st\<lparr>es_asio := map_option asio_stop (es_asio st), es_ef_vi := map_option ef_vi_close (es_ef_vi st)\<rparr>"

text \<open>
  \<open>poll\<close>: \<open>handlers\<close> is how many handlers \<open>poll_one\<close> ran. Without a receiver the code dereferences an
  empty optional; that is the failure.
\<close>

definition entry_poll :: "nat \<Rightarrow> entry_session \<Rightarrow> bool option" where
  "entry_poll handlers st =
     (case es_asio st of
        Some _ \<Rightarrow> Some (handlers > 0)
      | None \<Rightarrow> (case es_ef_vi st of Some _ \<Rightarrow> Some (ef_vi_poll > 0) | None \<Rightarrow> None))"

text \<open>A receive of the session's receiver completes.\<close>

definition entry_on_receive :: "'e + string \<Rightarrow> entry_session \<Rightarrow> entry_session" where
  "entry_on_receive completion st = st\<lparr>es_asio := map_option (snd \<circ> asio_on_receive completion) (es_asio st)\<rparr>"

text \<open>Is a receive outstanding?\<close>

definition entry_armed :: "entry_session \<Rightarrow> bool" where
  "entry_armed st \<longleftrightarrow> (case es_asio st of Some r \<Rightarrow> ar_armed r | None \<Rightarrow> False)"

lemma armed_after_receive:
  "entry_armed st \<Longrightarrow> entry_on_receive (Inr bytes) st = st" "\<not> entry_armed (entry_on_receive (Inl error) st)"
  and decoder_after_receive [simp]: "es_decoder (entry_on_receive completion st) = es_decoder st"
  by (cases "es_asio st"; simp add: entry_armed_def entry_on_receive_def asio_on_receive_def)+

lemma armed_polls: "entry_armed st \<Longrightarrow> entry_poll handlers st = Some (handlers > 0)"
  by (auto simp: entry_armed_def entry_poll_def split: option.splits)

text \<open>\<open>engine::setup\<close>: building the engine may throw, which leaves no engine behind.\<close>

definition to_engine_config :: "runtime_engine_config \<Rightarrow> engine_config" where
  "to_engine_config config =
     \<lparr>ec_valid_symbols = rec_valid_symbols config, ec_expected_resting_orders = rec_expected_resting_orders config,
      ec_node_pool_chunk_size = rec_node_pool_chunk_size config\<rparr>"

datatype start_error =
    Leaf_Error error
  | Thrown fault

definition engine_setup :: "addr option \<Rightarrow> runtime_engine_config \<Rightarrow> engine option \<Rightarrow> (start_error + unit) \<times> engine option" where
  "engine_setup slot config st =
     (case st of
        Some e \<Rightarrow> (Inl (Leaf_Error (Generic_Error (Lab_Code Code_Already_In_Progress)
                                (Some ''matching_engine runtime engine already set up''))), st)
      | None \<Rightarrow> (case engine_init slot (to_engine_config config) of
                   Inl f \<Rightarrow> (Inl (Thrown f), None)
                 | Inr e \<Rightarrow> (Inr (), Some e)))"

definition publisher_setup :: "publisher_config \<Rightarrow> publisher_config option \<Rightarrow> unit result \<times> publisher_config option" where
  "publisher_setup config st =
     (case st of
        Some p \<Rightarrow> (make_leaf_error (Lab_Code Code_Already_In_Progress) ''market_data runtime publisher already set up'', st)
      | None \<Rightarrow> (Inr (), Some config))"

section \<open>The application\<close>

record application =
  ap_config :: server_config
  ap_logger :: logger_config
  ap_io_context :: bool
  ap_input :: "unit event_loop"
  ap_processing :: "request event_loop"
  ap_output :: "message event_loop"
  ap_pollers :: nat
  ap_wired :: bool
  ap_order_entry :: entry_session
  ap_engine :: "engine option"
  ap_publisher :: "publisher_config option"
  ap_started :: bool

definition application_init :: "server_config \<Rightarrow> application" where
  "application_init configuration =
     \<lparr>ap_config = configuration, ap_logger = Console_Logger_Config, ap_io_context = False,
      ap_input = event_loop_init, ap_processing = event_loop_init, ap_output = event_loop_init,
      ap_pollers = 0, ap_wired = False, ap_order_entry = entry_init, ap_engine = None, ap_publisher = None,
      ap_started = False\<rparr>"

definition configure_logger :: "application \<Rightarrow> application" where
  "configure_logger app = app\<lparr>ap_logger := svc_logger (ap_config app)\<rparr>"

definition wire_pipeline :: "application \<Rightarrow> application" where
  "wire_pipeline app = app\<lparr>ap_wired := True, ap_pollers := Suc (ap_pollers app)\<rparr>"

text \<open>The shared \<open>io_context\<close> is made for the asio receiver only, and made anew at every start.\<close>

definition make_io_context :: "application \<Rightarrow> application" where
  "make_io_context app =
     (case sc_receiver (svc_order_entry (ap_config app)) of
        Asio_Udp_Receiver _ \<Rightarrow> app\<lparr>ap_io_context := True\<rparr>
      | Ef_Vi_Udp_Receiver _ \<Rightarrow> app)"

definition start_then ::
  "(start_error + unit) \<times> application \<Rightarrow> (application \<Rightarrow> (start_error + unit) \<times> application) \<Rightarrow>
   (start_error + unit) \<times> application" where
  "start_then m next = (case m of (Inl e, app) \<Rightarrow> (Inl e, app) | (Inr _, app) \<Rightarrow> next app)"

fun leaf_step :: "unit result \<times> 's \<Rightarrow> ('s \<Rightarrow> application) \<Rightarrow> (start_error + unit) \<times> application" where
  "leaf_step (Inl e, s) put = (Inl (Leaf_Error e), put s)"
| "leaf_step (Inr u, s) put = (Inr (), put s)"

definition application_start :: "startup_answers \<Rightarrow> application \<Rightarrow> (start_error + unit) \<times> application" where
  "application_start ans app =
     (if ap_started app
      then (Inl (Leaf_Error (Generic_Error (Lab_Code Code_Already_In_Progress) (Some ''application already started''))), app)
      else
        start_then (let app = make_io_context (configure_logger app)
          in leaf_step (entry_setup (svc_order_entry (ap_config app)) (ap_io_context app) (ap_order_entry app))
               (\<lambda>s. app\<lparr>ap_order_entry := s\<rparr>)) (\<lambda>app.
        start_then (case engine_setup (sa_slot ans) (svc_matching_engine (ap_config app)) (ap_engine app) of
               (r, s) \<Rightarrow> (r, app\<lparr>ap_engine := s\<rparr>)) (\<lambda>app.
        start_then (leaf_step (publisher_setup (svc_market_data (ap_config app)) (ap_publisher app))
               (\<lambda>s. app\<lparr>ap_publisher := s\<rparr>)) (\<lambda>app.
        start_then (let app = wire_pipeline app
          in leaf_step (entry_start ans (ap_order_entry app)) (\<lambda>s. app\<lparr>ap_order_entry := s\<rparr>)) (\<lambda>app.
        start_then (leaf_step (loop_start (sa_thread_failure ans 0) (ap_output app)) (\<lambda>s. app\<lparr>ap_output := s\<rparr>)) (\<lambda>app.
        start_then (leaf_step (loop_start (sa_thread_failure ans 1) (ap_processing app)) (\<lambda>s. app\<lparr>ap_processing := s\<rparr>)) (\<lambda>app.
        start_then (leaf_step (loop_start (sa_thread_failure ans 2) (ap_input app)) (\<lambda>s. app\<lparr>ap_input := s\<rparr>)) (\<lambda>app.
        (Inr (), app\<lparr>ap_started := True\<rparr>)))))))))"

text \<open>\<open>run\<close> only joins the three loops; \<open>None\<close>: it waits.\<close>

definition application_run :: "application \<Rightarrow> application option" where
  "application_run app =
     Option.bind (loop_join (ap_input app)) (\<lambda>input.
     Option.bind (loop_join (ap_processing app)) (\<lambda>processing.
     Option.bind (loop_join (ap_output app)) (\<lambda>output.
     Some (app\<lparr>ap_input := input, ap_processing := processing, ap_output := output, ap_started := False\<rparr>))))"

section \<open>Starting\<close>

lemma start_then_simps [simp]:
  "start_then (Inl e, app) next = (Inl e, app)" "start_then (Inr u, app) next = next app"
  by (simp_all add: start_then_def)

lemma check_then_simps [simp]:
  "check_then (Inl e, s) next = (Inl e, s)" "check_then (Inr u, s) next = next s"
  by (simp_all add: check_then_def)

text \<open>What has to go well for each stage.\<close>

definition bindable :: "startup_answers \<Rightarrow> endpoint_config \<Rightarrow> bool" where
  "bindable ans endpoint \<longleftrightarrow> sa_address_error ans (ep_address endpoint) = None \<and>
     sa_open_error ans = None \<and> sa_reuse_error ans = None \<and> sa_bind_error ans = None"

definition startable :: "startup_answers \<Rightarrow> server_config \<Rightarrow> bool" where
  "startable ans c \<longleftrightarrow>
     (case sc_receiver (svc_order_entry c) of Asio_Udp_Receiver endpoint \<Rightarrow> bindable ans endpoint | Ef_Vi_Udp_Receiver _ \<Rightarrow> False) \<and>
     (rec_expected_resting_orders (svc_matching_engine c) = 0 \<or> sa_slot ans \<noteq> None) \<and>
     sa_thread_failure ans 0 = None \<and> sa_thread_failure ans 1 = None \<and> sa_thread_failure ans 2 = None"

lemma asio_start_cases:
  obtains e r' where "asio_start ans (asio_init endpoint) = (Inl e, r')" "\<not> bindable ans endpoint" "\<not> ar_armed r'"
  | r' where "asio_start ans (asio_init endpoint) = (Inr (), r')" "bindable ans endpoint" "ar_armed r'"
proof -
  have "(\<exists>e r'. asio_start ans (asio_init endpoint) = (Inl e, r') \<and> \<not> bindable ans endpoint \<and> \<not> ar_armed r') \<or>
    (\<exists>r'. asio_start ans (asio_init endpoint) = (Inr (), r') \<and> bindable ans endpoint \<and> ar_armed r')"
    by (cases "sa_address_error ans (ep_address endpoint)"; cases "sa_open_error ans"; cases "sa_reuse_error ans"; cases "sa_bind_error ans")
      (simp_all add: asio_start_def asio_init_def receiver_parse_address_def open_socket_def enable_reuse_address_def
        bind_socket_def system_call_def bindable_def make_leaf_error_def)
  then show ?thesis using that by blast
qed

lemma engine_setup_cases:
  obtains f where "engine_setup slot c None = (Inl (Thrown f), None)" "rec_expected_resting_orders c \<noteq> 0" "slot = None"
  | e where "engine_setup slot c None = (Inr (), Some e)" "rec_expected_resting_orders c = 0 \<or> slot \<noteq> None"
    "engine_init slot (to_engine_config c) = Inr e"
  by (cases "rec_expected_resting_orders c = 0"; cases slot)
    (auto simp: engine_setup_def engine_init_def reserve_node_pool_def to_engine_config_def)

lemma loop_start_cases:
  assumes "\<not> el_running st"
  obtains e where "loop_start failure st = (Inl e, st)" "failure \<noteq> None"
  | "loop_start failure st = (Inr (), st\<lparr>el_running := True, el_phase := Head\<rparr>)" "failure = None"
  using assms by (cases failure) (auto simp: loop_start_def make_leaf_error_def)

text \<open>The state a successful start leaves: every stage in place, every loop at the head of its body.\<close>

definition started_loop :: "'t event_loop" where
  "started_loop = event_loop_init\<lparr>el_running := True, el_phase := Head\<rparr>"

definition newly_built :: "engine \<Rightarrow> bool" where
  "newly_built e \<longleftrightarrow> (\<exists>slot cfg. engine_init slot cfg = Inr e)"

definition ready :: "application \<Rightarrow> bool" where
  "ready app \<longleftrightarrow> ap_started app \<and> ap_wired app \<and> ap_pollers app = 1 \<and> ap_publisher app \<noteq> None \<and>
     ap_input app = started_loop \<and> ap_processing app = started_loop \<and> ap_output app = started_loop \<and>
     entry_armed (ap_order_entry app) \<and> es_decoder (ap_order_entry app) \<noteq> None \<and>
     (\<exists>e. ap_engine app = Some e \<and> newly_built e)"

lemma start_cases:
  assumes "application_start ans (application_init c) = (r, app)"
  shows "(is_ok r \<longleftrightarrow> startable ans c) \<and> (ap_started app \<longleftrightarrow> is_ok r) \<and> es_session (ap_order_entry app) \<and>
    (el_running (ap_input app) \<longleftrightarrow> is_ok r) \<and> (is_ok r \<longrightarrow> ready app) \<and>
    (ap_config app = c)"
proof (cases "sc_receiver (svc_order_entry c)")
  case (Ef_Vi_Udp_Receiver endpoint)
  show ?thesis
    by (rule engine_setup_cases [of "sa_slot ans" "svc_matching_engine c"];
        use assms in \<open>auto simp: Ef_Vi_Udp_Receiver application_start_def startable_def make_io_context_def
          configure_logger_def entry_setup_def application_init_def entry_init_def Let_def publisher_setup_def
          wire_pipeline_def entry_start_def ef_vi_open_def make_leaf_error_def event_loop_init_def\<close>)
next
  case (Asio_Udp_Receiver endpoint)
  note defs = Asio_Udp_Receiver application_start_def startable_def make_io_context_def
          configure_logger_def entry_setup_def application_init_def entry_init_def Let_def publisher_setup_def
          wire_pipeline_def entry_start_def make_leaf_error_def
  show ?thesis
  proof (rule engine_setup_cases [of "sa_slot ans" "svc_matching_engine c"])
    fix f
    assume "engine_setup (sa_slot ans) (svc_matching_engine c) None = (Inl (Thrown f), None)"
      "rec_expected_resting_orders (svc_matching_engine c) \<noteq> 0" "sa_slot ans = None"
    with assms show ?thesis by (auto simp: defs event_loop_init_def)
  next
    fix e
    assume e: "engine_setup (sa_slot ans) (svc_matching_engine c) None = (Inr (), Some e)"
      "rec_expected_resting_orders (svc_matching_engine c) = 0 \<or> sa_slot ans \<noteq> None"
      "engine_init (sa_slot ans) (to_engine_config (svc_matching_engine c)) = Inr e"
    show ?thesis
    proof (rule asio_start_cases [of ans endpoint])
      fix err r'
      assume "asio_start ans (asio_init endpoint) = (Inl err, r')" "\<not> bindable ans endpoint"
      with assms e(1,2) show ?thesis by (auto simp: defs event_loop_init_def)
    next
      fix r'
      assume a: "asio_start ans (asio_init endpoint) = (Inr (), r')" "bindable ans endpoint" "ar_armed r'"
      show ?thesis
      proof (cases "sa_thread_failure ans 0")
        case (Some w)
        with assms e(1,2) a show ?thesis by (auto simp: defs loop_start_def event_loop_init_def)
      next
        case t0: None
        show ?thesis
        proof (cases "sa_thread_failure ans 1")
          case (Some w)
          with assms e(1,2) a t0 show ?thesis by (auto simp: defs loop_start_def event_loop_init_def)
        next
          case t1: None
          show ?thesis
          proof (cases "sa_thread_failure ans 2")
            case (Some w)
            with assms e(1,2) a t0 t1 show ?thesis by (auto simp: defs loop_start_def event_loop_init_def)
          next
            case None
            have "newly_built e" using e(3) by (auto simp: newly_built_def)
            with None assms e(1,2) a t0 t1 show ?thesis
              by (auto simp: defs loop_start_def event_loop_init_def ready_def started_loop_def entry_armed_def)
          qed
        qed
      qed
    qed
  qed
qed

lemma restart_refused:
  assumes "es_session (ap_order_entry app)"
  shows "fst (application_start ans app) =
    Inl (Leaf_Error (Generic_Error (Lab_Code Code_Already_In_Progress)
      (Some (if ap_started app then ''application already started'' else ''order_entry runtime session already set up''))))"
  using assms
  by (auto simp: application_start_def make_io_context_def configure_logger_def entry_setup_def make_leaf_error_def Let_def
      split: receiver_config.split)

text \<open>
  C24: A new application starts exactly when its receiver is the kernel-socket one, the address
  parses, the socket opens and binds, the node pool can be warmed and the three threads can be
  created; then every stage is in place and every loop runs. Otherwise it is not started and no
  datagram can be read. Either way it cannot be started again, not even after a failure or a
  stop: every later attempt is refused as already in progress.
\<close>
theorem start_is_all_or_nothing:
  assumes "application_start ans (application_init c) = (r, app)"
  shows "(is_ok r \<longleftrightarrow> startable ans c) \<and> (ap_started app \<longleftrightarrow> is_ok r) \<and>
    (if is_ok r then ready app else \<not> el_running (ap_input app)) \<and>
    fst (application_start ans' (app\<lparr>ap_started := s\<rparr>)) =
      Inl (Leaf_Error (Generic_Error (Lab_Code Code_Already_In_Progress)
        (Some (if s then ''application already started'' else ''order_entry runtime session already set up''))))"
  using start_cases [OF assms] restart_refused [of "app\<lparr>ap_started := s\<rparr>" ans'] by simp

definition sample_answers :: startup_answers where
  "sample_answers =
     \<lparr>sa_address_error = (\<lambda>_. None), sa_open_error = None, sa_reuse_error = None, sa_bind_error = None,
      sa_slot = Some 0, sa_thread_failure = (\<lambda>_. None)\<rparr>"

definition sample_application :: application where
  "sample_application = snd (application_start sample_answers (application_init (make_runtime_config sample_app_config)))"

lemma sample_startable: "startable sample_answers (make_runtime_config sample_app_config)"
  by (simp add: startable_def bindable_def sample_answers_def make_runtime_config_def sample_app_config_def
      default_session_config_def)

lemma sample_started:
  "\<exists>u. application_start sample_answers (application_init (make_runtime_config sample_app_config)) = (Inr u, sample_application)"
proof -
  obtain r app where run:
    "application_start sample_answers (application_init (make_runtime_config sample_app_config)) = (r, app)"
    by (metis prod.collapse)
  then have "app = sample_application" by (simp add: sample_application_def)
  moreover from start_cases [OF run] sample_startable have "is_ok r" by blast
  ultimately show ?thesis using run by (auto simp: is_ok_iff)
qed

lemma sample_ready: "ready sample_application"
  using sample_started start_cases by fastforce

lemma start_is_all_or_nothing_witness:
  "ready sample_application \<and>
   fst (application_start sample_answers (sample_application\<lparr>ap_started := False\<rparr>)) =
     Inl (Leaf_Error (Generic_Error (Lab_Code Code_Already_In_Progress)
       (Some ''order_entry runtime session already set up'')))"
proof -
  from sample_started obtain u where
    "application_start sample_answers (application_init (make_runtime_config sample_app_config)) = (Inr u, sample_application)" ..
  from start_is_all_or_nothing [OF this, of sample_answers False] show ?thesis by simp
qed

end
