(* ===== verification/Pipeline.thy ===== *)
theory Pipeline
  imports Application
begin

text \<open>
  The running server: three threads, each inside its event loop, joined by posted tasks
  (\<open>wire_pipeline\<close> of \<open>server/src/application.cpp\<close>), with \<open>stop\<close> run by a fourth. A step is one step of
  one thread; every interleaving is a run. Datagrams arrive at the socket at any time.
\<close>

section \<open>State\<close>

text \<open>How far \<open>stop\<close> has come.\<close>

datatype control =
    Up
  | Receiver_Stopped
  | Input_Stopping
  | Input_Joined
  | Processing_Stopping
  | Processing_Joined
  | Output_Stopping
  | Down

fun control_rank :: "control \<Rightarrow> nat" where
  "control_rank Up = 0"
| "control_rank Receiver_Stopped = 1"
| "control_rank Input_Stopping = 2"
| "control_rank Input_Joined = 3"
| "control_rank Processing_Stopping = 4"
| "control_rank Processing_Joined = 5"
| "control_rank Output_Stopping = 6"
| "control_rank Down = 7"

text \<open>
  \<open>pl_read\<close> records the datagrams the receiver has handed to the session; \<open>pl_rejected\<close> the
  rejections logged, \<open>pl_records\<close> the records written to the sink. An exception in a task ends the
  process: \<open>pl_terminated\<close>.
\<close>

record pipeline =
  pl_app :: application
  pl_socket :: "string list"
  pl_read :: "string list"
  pl_rejected :: "rejection list"
  pl_records :: "string list"
  pl_control :: control
  pl_terminated :: bool

definition pipeline_init :: "application \<Rightarrow> pipeline" where
  "pipeline_init app =
     \<lparr>pl_app = app, pl_socket = [], pl_read = [], pl_rejected = [], pl_records = [], pl_control = Up, pl_terminated = False\<rparr>"

section \<open>The hops\<close>

text \<open>The tasks a step of a loop's thread has run.\<close>

definition tasks_run :: "'t event_loop \<Rightarrow> 't event_loop \<Rightarrow> 't list" where
  "tasks_run old new = drop (length (el_executed old)) (el_executed new)"

text \<open>\<open>on_request\<close> posts to the processing loop, \<open>on_rejected\<close> logs.\<close>

fun handle_output :: "session_output \<Rightarrow> pipeline \<Rightarrow> pipeline" where
  "handle_output (On_Request req) st =
     st\<lparr>pl_app := (pl_app st)\<lparr>ap_processing := loop_post req (ap_processing (pl_app st))\<rparr>\<rparr>"
| "handle_output (On_Rejected rej) st = st\<lparr>pl_rejected := pl_rejected st @ [rej]\<rparr>"

definition datagram_limit :: "application \<Rightarrow> nat" where
  "datagram_limit app = unat (dc_max_datagram_size (the (es_decoder (ap_order_entry app))))"

text \<open>\<open>on_datagram\<close>, called while the input loop polls.\<close>

definition on_datagram :: "('j, 'z) json_lib_scheme \<Rightarrow> string \<Rightarrow> pipeline \<Rightarrow> pipeline" where
  "on_datagram L bytes st =
     fold handle_output (json_session L (datagram_limit (pl_app st)) bytes) (st\<lparr>pl_read := pl_read st @ [bytes]\<rparr>)"

text \<open>\<open>on_market_data\<close> posts to the output loop; \<open>on_order_entry\<close> does nothing.\<close>

fun market_data_of :: "engine_output list \<Rightarrow> message list" where
  "market_data_of [] = []"
| "market_data_of (On_Market_Data m # os) = m # market_data_of os"
| "market_data_of (On_Order_Entry ev # os) = market_data_of os"

definition events_since :: "engine \<Rightarrow> engine \<Rightarrow> engine_output list" where
  "events_since e e' = drop (length (emitted e)) (emitted e')"

definition post_events :: "engine_output list \<Rightarrow> application \<Rightarrow> application" where
  "post_events os app = app\<lparr>ap_output := fold loop_post (market_data_of os) (ap_output app)\<rparr>"

section \<open>Steps\<close>

abbreviation idle_of :: "event_loop_config \<Rightarrow> idle_strategy" where
  "idle_of c \<equiv> elc_idle_strategy c"

text \<open>Who makes a step: the three threads, the thread that runs \<open>stop\<close>, and the network.\<close>

datatype actor =
    Network
  | Input_Thread
  | Processing_Thread
  | Output_Thread
  | Stop_Caller

inductive pipeline_step :: "('j, 'z) json_lib_scheme \<Rightarrow> actor \<Rightarrow> pipeline \<Rightarrow> pipeline \<Rightarrow> bool"
  for L :: "('j, 'z) json_lib_scheme" where
  arrive: "\<not> pl_terminated st \<Longrightarrow> pipeline_step L Network st (st\<lparr>pl_socket := pl_socket st @ [d]\<rparr>)"
| poll_datagram: "\<not> pl_terminated st \<Longrightarrow> app = pl_app st \<Longrightarrow> el_phase (ap_input app) = Polling 0 \<Longrightarrow>
    entry_armed (ap_order_entry app) \<Longrightarrow> pl_socket st = d # rest \<Longrightarrow>
    app' = app\<lparr>ap_input := (ap_input app)\<lparr>el_phase := Polling 1, el_did_work := True\<rparr>\<rparr> \<Longrightarrow>
    pipeline_step L Input_Thread st (on_datagram L d (st\<lparr>pl_app := app', pl_socket := rest\<rparr>))"
| poll_nothing: "\<not> pl_terminated st \<Longrightarrow> app = pl_app st \<Longrightarrow> el_phase (ap_input app) = Polling 0 \<Longrightarrow>
    pl_socket st = [] \<or> \<not> entry_armed (ap_order_entry app) \<Longrightarrow>
    app' = app\<lparr>ap_input := (ap_input app)\<lparr>el_phase := Polling 1, el_did_work := (aborted \<or> el_did_work (ap_input app))\<rparr>\<rparr> \<Longrightarrow>
    pipeline_step L Input_Thread st (st\<lparr>pl_app := app'\<rparr>)"
| poll_error: "\<not> pl_terminated st \<Longrightarrow> app = pl_app st \<Longrightarrow> el_phase (ap_input app) = Polling 0 \<Longrightarrow>
    entry_armed (ap_order_entry app) \<Longrightarrow>
    app' = app\<lparr>ap_input := (ap_input app)\<lparr>el_phase := Polling 1, el_did_work := True\<rparr>,
      ap_order_entry := entry_on_receive (Inl ()) (ap_order_entry app)\<rparr> \<Longrightarrow>
    pipeline_step L Input_Thread st (st\<lparr>pl_app := app'\<rparr>)"
| input_thread: "\<not> pl_terminated st \<Longrightarrow> app = pl_app st \<Longrightarrow> el_phase (ap_input app) \<noteq> Polling 0 \<Longrightarrow>
    thread_step (idle_of (svc_input_thread (ap_config app))) (ap_pollers app) (ap_input app) l \<Longrightarrow>
    pipeline_step L Input_Thread st (st\<lparr>pl_app := app\<lparr>ap_input := l\<rparr>\<rparr>)"
| processing_idle: "\<not> pl_terminated st \<Longrightarrow> app = pl_app st \<Longrightarrow>
    thread_step (idle_of (svc_processing_thread (ap_config app))) 0 (ap_processing app) l \<Longrightarrow>
    tasks_run (ap_processing app) l = [] \<Longrightarrow>
    pipeline_step L Processing_Thread st (st\<lparr>pl_app := app\<lparr>ap_processing := l\<rparr>\<rparr>)"
| processing_request: "\<not> pl_terminated st \<Longrightarrow> app = pl_app st \<Longrightarrow>
    thread_step (idle_of (svc_processing_thread (ap_config app))) 0 (ap_processing app) l \<Longrightarrow>
    tasks_run (ap_processing app) l = [req] \<Longrightarrow> ap_engine app = Some e \<Longrightarrow>
    slot_fresh slot e \<Longrightarrow> send slot req e = Inr e' \<Longrightarrow>
    pipeline_step L Processing_Thread st (st\<lparr>pl_app := post_events (events_since e e') (app\<lparr>ap_processing := l, ap_engine := Some e'\<rparr>)\<rparr>)"
| processing_fault: "\<not> pl_terminated st \<Longrightarrow> app = pl_app st \<Longrightarrow>
    thread_step (idle_of (svc_processing_thread (ap_config app))) 0 (ap_processing app) l \<Longrightarrow>
    tasks_run (ap_processing app) l = [req] \<Longrightarrow> ap_engine app = Some e \<Longrightarrow>
    slot_fresh slot e \<Longrightarrow> send slot req e = Inl f \<Longrightarrow>
    pipeline_step L Processing_Thread st (st\<lparr>pl_terminated := True\<rparr>)"
| output_thread: "\<not> pl_terminated st \<Longrightarrow> app = pl_app st \<Longrightarrow>
    thread_step (idle_of (svc_output_thread (ap_config app))) 0 (ap_output app) l \<Longrightarrow>
    pipeline_step L Output_Thread st (st\<lparr>pl_app := app\<lparr>ap_output := l\<rparr>,
      pl_records := pl_records st @ map (md_encode L) (tasks_run (ap_output app) l)\<rparr>)"
| stop_receiver: "\<not> pl_terminated st \<Longrightarrow> app = pl_app st \<Longrightarrow> pl_control st = Up \<Longrightarrow> ap_started app \<Longrightarrow>
    pipeline_step L Stop_Caller st (st\<lparr>pl_app := app\<lparr>ap_order_entry := entry_stop (ap_order_entry app)\<rparr>, pl_control := Receiver_Stopped\<rparr>)"
| stop_receiver_late: "\<not> pl_terminated st \<Longrightarrow> pl_control st = Up \<Longrightarrow> ap_started (pl_app st) \<Longrightarrow>
    pipeline_step L Stop_Caller st (st\<lparr>pl_control := Receiver_Stopped\<rparr>)"
| stop_input: "\<not> pl_terminated st \<Longrightarrow> app = pl_app st \<Longrightarrow> pl_control st = Receiver_Stopped \<Longrightarrow>
    pipeline_step L Stop_Caller st (st\<lparr>pl_app := app\<lparr>ap_input := loop_stop (ap_input app)\<rparr>, pl_control := Input_Stopping\<rparr>)"
| join_input: "\<not> pl_terminated st \<Longrightarrow> pl_control st = Input_Stopping \<Longrightarrow> el_phase (ap_input (pl_app st)) = Finished \<Longrightarrow>
    pipeline_step L Stop_Caller st (st\<lparr>pl_control := Input_Joined\<rparr>)"
| stop_processing: "\<not> pl_terminated st \<Longrightarrow> app = pl_app st \<Longrightarrow> pl_control st = Input_Joined \<Longrightarrow>
    pipeline_step L Stop_Caller st (st\<lparr>pl_app := app\<lparr>ap_processing := loop_stop (ap_processing app)\<rparr>, pl_control := Processing_Stopping\<rparr>)"
| join_processing: "\<not> pl_terminated st \<Longrightarrow> pl_control st = Processing_Stopping \<Longrightarrow>
    el_phase (ap_processing (pl_app st)) = Finished \<Longrightarrow> pipeline_step L Stop_Caller st (st\<lparr>pl_control := Processing_Joined\<rparr>)"
| stop_output: "\<not> pl_terminated st \<Longrightarrow> app = pl_app st \<Longrightarrow> pl_control st = Processing_Joined \<Longrightarrow>
    pipeline_step L Stop_Caller st (st\<lparr>pl_app := app\<lparr>ap_output := loop_stop (ap_output app)\<rparr>, pl_control := Output_Stopping\<rparr>)"
| join_output: "\<not> pl_terminated st \<Longrightarrow> app = pl_app st \<Longrightarrow> pl_control st = Output_Stopping \<Longrightarrow>
    el_phase (ap_output app) = Finished \<Longrightarrow>
    pipeline_step L Stop_Caller st (st\<lparr>pl_app := app\<lparr>ap_started := False\<rparr>, pl_control := Down\<rparr>)"

text \<open>Runs from a started application.\<close>

inductive pipeline_run :: "('j, 'z) json_lib_scheme \<Rightarrow> application \<Rightarrow> pipeline \<Rightarrow> bool"
  for L :: "('j, 'z) json_lib_scheme" and app0 :: application where
  run_start: "ready app0 \<Longrightarrow> pipeline_run L app0 (pipeline_init app0)"
| run_step: "pipeline_run L app0 st \<Longrightarrow> pipeline_step L a st st' \<Longrightarrow> pipeline_run L app0 st'"

section \<open>The sequential reference\<close>

text \<open>What a single thread would write that handled the datagrams one after the other.\<close>

fun requests_of :: "session_output list \<Rightarrow> request list" where
  "requests_of [] = []"
| "requests_of (On_Request r # os) = r # requests_of os"
| "requests_of (On_Rejected rej # os) = requests_of os"

fun rejections_of :: "session_output list \<Rightarrow> rejection list" where
  "rejections_of [] = []"
| "rejections_of (On_Request r # os) = rejections_of os"
| "rejections_of (On_Rejected rej # os) = rej # rejections_of os"

definition session_outputs :: "('j, 'z) json_lib_scheme \<Rightarrow> nat \<Rightarrow> string list \<Rightarrow> session_output list" where
  "session_outputs L n datagrams = concat (map (json_session L n) datagrams)"

definition sequential_engine :: "('j, 'z) json_lib_scheme \<Rightarrow> nat \<Rightarrow> string list \<Rightarrow> spec_engine \<Rightarrow> spec_engine" where
  "sequential_engine L n datagrams sp = fold spec_send (requests_of (session_outputs L n datagrams)) sp"

definition sequential_records :: "('j, 'z) json_lib_scheme \<Rightarrow> nat \<Rightarrow> string list \<Rightarrow> spec_engine \<Rightarrow> string list" where
  "sequential_records L n datagrams sp = map (md_encode L) (market_data_of (sp_emitted (sequential_engine L n datagrams sp)))"

section \<open>Facts about the parts of a step\<close>

lemma fold_loop_post: "fold loop_post ts l = l\<lparr>el_queue := el_queue l @ ts, el_posted := el_posted l @ ts\<rparr>"
  by (induction ts arbitrary: l) (simp_all add: loop_post_def)

lemma fold_handle_output:
  "fold handle_output os st =
     st\<lparr>pl_app := (pl_app st)\<lparr>ap_processing := fold loop_post (requests_of os) (ap_processing (pl_app st))\<rparr>,
        pl_rejected := pl_rejected st @ rejections_of os\<rparr>"
  by (induction os arbitrary: st rule: requests_of.induct) simp_all

lemma requests_of_append [simp]: "requests_of (xs @ ys) = requests_of xs @ requests_of ys"
  by (induction xs rule: requests_of.induct) auto

lemma rejections_of_append [simp]: "rejections_of (xs @ ys) = rejections_of xs @ rejections_of ys"
  by (induction xs rule: rejections_of.induct) auto

lemma market_data_of_append [simp]: "market_data_of (xs @ ys) = market_data_of xs @ market_data_of ys"
  by (induction xs rule: market_data_of.induct) auto

lemma session_outputs_snoc: "session_outputs L n (ds @ [d]) = session_outputs L n ds @ json_session L n d"
  by (simp add: session_outputs_def)

lemma thread_step_runs:
  assumes "thread_step idle n l l'"
  shows "el_executed l' = el_executed l @ tasks_run l l'" "length (tasks_run l l') \<le> 1"
    "el_posted l' = el_posted l" "el_running l' = el_running l"
  using assms by (cases rule: thread_step.cases; simp add: tasks_run_def run_task_def)+

section \<open>Where each loop is in its life\<close>

text \<open>
  \<open>stop_at\<close> is the rank at which \<open>stop\<close> clears the loop's flag, \<open>join_at\<close> the rank at which its thread
  has been joined.
\<close>

definition staged :: "nat \<Rightarrow> nat \<Rightarrow> nat \<Rightarrow> 't event_loop \<Rightarrow> bool" where
  "staged stop_at join_at rk l \<longleftrightarrow>
     loop_ok l \<and> el_phase l \<noteq> Not_Started \<and> (el_running l \<longleftrightarrow> rk < stop_at) \<and>
     (el_phase l \<in> {Drain, Finished} \<longrightarrow> \<not> el_running l) \<and> (el_phase l = Finished \<longrightarrow> el_queue l = []) \<and>
     (join_at \<le> rk \<longrightarrow> el_phase l = Finished)"

lemma staged_started: "0 < stop_at \<Longrightarrow> 0 < join_at \<Longrightarrow> staged stop_at join_at 0 started_loop"
  by (simp add: staged_def started_loop_def event_loop_init_def loop_ok_def)

lemma staged_step:
  assumes "thread_step idle n l l'" "staged stop_at join_at rk l"
  shows "staged stop_at join_at rk l'" "rk < join_at"
proof -
  have "el_phase l \<noteq> Finished" using assms(1) by (cases rule: thread_step.cases) simp_all
  with assms(2) show rk: "rk < join_at" by (auto simp: staged_def)
  have "el_phase l' \<in> {Drain, Finished} \<longrightarrow> \<not> el_running l'"
    using assms by (cases rule: thread_step.cases) (auto simp: staged_def run_task_def)
  with thread_step_ok [OF assms(1)] thread_step_phase [OF assms(1)] assms(2) rk show "staged stop_at join_at rk l'"
    by (auto simp: staged_def)
qed

lemma staged_post:
  assumes "staged stop_at join_at rk l" "rk < stop_at"
  shows "staged stop_at join_at rk (fold loop_post ts l)"
  using assms by (auto simp: staged_def fold_loop_post loop_ok_def)

lemma staged_stop:
  assumes "staged stop_at join_at rk l" "stop_at = Suc rk" "stop_at < join_at"
  shows "staged stop_at join_at stop_at (loop_stop l)"
  using assms by (auto simp: staged_def loop_stop_def loop_ok_def)

lemma staged_rank:
  assumes "staged stop_at join_at rk l" "rk' < stop_at \<longleftrightarrow> rk < stop_at" "join_at \<le> rk' \<longrightarrow> join_at \<le> rk \<or> el_phase l = Finished"
  shows "staged stop_at join_at rk' l"
  using assms by (auto simp: staged_def)

lemma staged_alive: "staged stop_at join_at rk l \<Longrightarrow> el_phase l \<noteq> Finished \<Longrightarrow> rk < join_at"
  by (auto simp: staged_def)

section \<open>The invariant\<close>

definition stages_ok :: "pipeline \<Rightarrow> bool" where
  "stages_ok st \<longleftrightarrow>
     staged 2 3 (control_rank (pl_control st)) (ap_input (pl_app st)) \<and>
     staged 4 5 (control_rank (pl_control st)) (ap_processing (pl_app st)) \<and>
     staged 6 7 (control_rank (pl_control st)) (ap_output (pl_app st)) \<and>
     ap_pollers (pl_app st) = 1 \<and> (ap_started (pl_app st) \<longleftrightarrow> pl_control st \<noteq> Down)"

definition flow_ok :: "('j, 'z) json_lib_scheme \<Rightarrow> application \<Rightarrow> pipeline \<Rightarrow> bool" where
  "flow_ok L app0 st \<longleftrightarrow>
     es_decoder (ap_order_entry (pl_app st)) = es_decoder (ap_order_entry app0) \<and>
     el_posted (ap_processing (pl_app st)) = requests_of (session_outputs L (datagram_limit app0) (pl_read st)) \<and>
     pl_rejected st = rejections_of (session_outputs L (datagram_limit app0) (pl_read st)) \<and>
     pl_records st = map (md_encode L) (el_executed (ap_output (pl_app st)))"

definition engine_flow :: "application \<Rightarrow> pipeline \<Rightarrow> bool" where
  "engine_flow app0 st \<longleftrightarrow>
     (\<exists>e cfg. ap_engine (pl_app st) = Some e \<and> reachable cfg e \<and>
        abs_engine e = fold spec_send (el_executed (ap_processing (pl_app st))) (abs_engine (the (ap_engine app0))) \<and>
        el_posted (ap_output (pl_app st)) = market_data_of (emitted e))"

lemma poll_is_step:
  assumes "el_phase l = Polling 0"
  shows "thread_step idle 1 l (l\<lparr>el_phase := Polling 1, el_did_work := (w \<or> el_did_work l)\<rparr>)"
  using poll [OF assms, of 1 idle w] by simp

lemma on_datagram_eq:
  "on_datagram L d st = st\<lparr>pl_read := pl_read st @ [d],
     pl_app := (pl_app st)\<lparr>ap_processing := fold loop_post (requests_of (json_session L (datagram_limit (pl_app st)) d)) (ap_processing (pl_app st))\<rparr>,
     pl_rejected := pl_rejected st @ rejections_of (json_session L (datagram_limit (pl_app st)) d)\<rparr>"
  by (simp add: on_datagram_def fold_handle_output)

lemma step_stages_ok:
  assumes "pipeline_step L a st st'" "stages_ok st"
  shows "stages_ok st'"
  using assms(1)
proof (cases rule: pipeline_step.cases)
  case (poll_datagram app d rest app')
  have s: "thread_step (idle_of c) 1 (ap_input app) ((ap_input app)\<lparr>el_phase := Polling 1, el_did_work := True\<rparr>)" for c
    using poll_is_step [OF poll_datagram(5), of "idle_of c" True] by simp
  from assms(2) poll_datagram(4) have "staged 2 3 (control_rank (pl_control st)) (ap_input app)" by (simp add: stages_ok_def)
  note staged_step [OF s this]
  with assms(2) poll_datagram show ?thesis by (simp add: stages_ok_def on_datagram_eq staged_post)
next
  case (poll_nothing app app' aborted)
  from assms(2) poll_nothing(4) have "staged 2 3 (control_rank (pl_control st)) (ap_input app)" by (simp add: stages_ok_def)
  note staged_step [OF poll_is_step [OF poll_nothing(5), of _ aborted] this]
  with assms(2) poll_nothing show ?thesis by (simp add: stages_ok_def)
next
  case (poll_error app app')
  from assms(2) poll_error(4) have "staged 2 3 (control_rank (pl_control st)) (ap_input app)" by (simp add: stages_ok_def)
  note staged_step [OF poll_is_step [OF poll_error(5), of _ True, simplified] this]
  with assms(2) poll_error show ?thesis by (simp add: stages_ok_def)
next
  case (input_thread app l)
  with assms(2) staged_step [OF input_thread(6)] show ?thesis by (simp add: stages_ok_def)
next
  case (processing_idle app l)
  with assms(2) staged_step [OF processing_idle(5)] show ?thesis by (simp add: stages_ok_def)
next
  case (processing_request app l req e slot e')
  from assms(2) processing_request(4) have "staged 4 5 (control_rank (pl_control st)) (ap_processing app)"
    by (simp add: stages_ok_def)
  note staged_step [OF processing_request(5) this]
  with assms(2) processing_request show ?thesis by (simp add: stages_ok_def post_events_def staged_post)
next
  case (output_thread app l)
  with assms(2) staged_step [OF output_thread(5)] show ?thesis by (simp add: stages_ok_def)
next
  case (stop_input app)
  with assms(2) show ?thesis by (auto simp: stages_ok_def intro: staged_rank staged_stop)
next
  case (stop_processing app)
  with assms(2) show ?thesis by (auto simp: stages_ok_def intro: staged_rank staged_stop)
next
  case (stop_output app)
  with assms(2) show ?thesis by (auto simp: stages_ok_def intro: staged_rank staged_stop)
qed (use assms(2) in \<open>auto simp: stages_ok_def intro: staged_rank\<close>)

lemma step_flow_ok:
  assumes "pipeline_step L a st st'" "flow_ok L app0 st"
  shows "flow_ok L app0 st'"
  using assms(1)
proof (cases rule: pipeline_step.cases)
  case (poll_datagram app d rest app')
  with assms(2) have "datagram_limit app' = datagram_limit app0" by (simp add: flow_ok_def datagram_limit_def)
  with assms(2) poll_datagram show ?thesis
    by (simp add: flow_ok_def on_datagram_eq fold_loop_post session_outputs_snoc)
next
  case (processing_idle app l)
  with assms(2) thread_step_runs(3) [OF processing_idle(5)] show ?thesis by (simp add: flow_ok_def)
next
  case (processing_request app l req e slot e')
  with assms(2) thread_step_runs(3) [OF processing_request(5)] show ?thesis
    by (simp add: flow_ok_def post_events_def fold_loop_post)
next
  case (output_thread app l)
  with assms(2) thread_step_runs(1) [OF output_thread(5)] show ?thesis by (simp add: flow_ok_def)
qed (use assms(2) in \<open>simp_all add: flow_ok_def entry_stop_def loop_stop_def\<close>)

lemma send_reachable_spec:
  assumes "reachable cfg e" "slot_fresh slot e" "send slot r e = Inr e'"
  shows "reachable cfg e'" "abs_engine e' = spec_send r (abs_engine e)"
  using reachable.step [OF assms] send_refines [OF reachable_ok [OF assms(1)] assms(2), of r] assms(3)
  by (auto split: if_splits)

lemma emitted_abs: "sp_emitted (abs_engine e) = emitted e"
  by (simp add: abs_engine_def)

lemma events_since_complete:
  assumes "abs_engine e' = spec_send r (abs_engine e)"
  shows "emitted e @ events_since e e' = emitted e'"
  using engine_source.new_events_complete [of "abs_engine e" r] unfolding assms [symmetric] emitted_abs events_since_def .

lemma step_engine_flow:
  assumes "pipeline_step L a st st'" "engine_flow app0 st"
  shows "engine_flow app0 st'"
  using assms(1)
proof (cases rule: pipeline_step.cases)
  case (poll_datagram app d rest app')
  with assms(2) show ?thesis by (simp add: engine_flow_def on_datagram_eq fold_loop_post)
next
  case (processing_idle app l)
  with assms(2) thread_step_runs(1) [OF processing_idle(5)] show ?thesis by (simp add: engine_flow_def)
next
  case (processing_request app l req e slot e')
  from assms(2) processing_request(4,7) obtain cfg where e: "reachable cfg e"
    "abs_engine e = fold spec_send (el_executed (ap_processing app)) (abs_engine (the (ap_engine app0)))"
    "el_posted (ap_output app) = market_data_of (emitted e)" by (auto simp: engine_flow_def)
  note e' = send_reachable_spec [OF e(1) processing_request(8,9)]
  have "abs_engine e' = fold spec_send (el_executed l) (abs_engine (the (ap_engine app0)))"
    using e'(2) e(2) thread_step_runs(1) [OF processing_request(5)] processing_request(6) by simp
  moreover have "el_posted (ap_output app) @ market_data_of (events_since e e') = market_data_of (emitted e')"
    unfolding e(3) events_since_complete [OF e'(2), symmetric] by simp
  ultimately show ?thesis using e'(1) processing_request(2)
    by (auto simp: engine_flow_def post_events_def fold_loop_post)
next
  case (output_thread app l)
  with assms(2) thread_step_runs(3) [OF output_thread(5)] show ?thesis by (simp add: engine_flow_def)
qed (use assms(2) in \<open>simp_all add: engine_flow_def loop_stop_def\<close>)

lemma run_invariant:
  assumes "pipeline_run L app0 st"
  shows "stages_ok st \<and> flow_ok L app0 st \<and> engine_flow app0 st"
  using assms
proof (induction rule: pipeline_run.induct)
  case run_start
  then obtain e slot cfg where e: "ap_engine app0 = Some e" "engine_init slot cfg = Inr e"
    by (auto simp: ready_def newly_built_def)
  have none: "emitted e = []" using e(2) by (auto simp: engine_init_def rbind_eq_Inr_iff)
  have reach: "reachable cfg e" by (rule reachable.start [OF e(2)])
  from run_start have loops: "ap_input app0 = started_loop" "ap_processing app0 = started_loop" "ap_output app0 = started_loop"
    and rest: "ap_pollers app0 = 1" "ap_started app0" by (simp_all add: ready_def)
  have "stages_ok (pipeline_init app0)"
    unfolding stages_ok_def pipeline_init_def by (simp add: loops rest staged_started)
  moreover have "flow_ok L app0 (pipeline_init app0)"
    unfolding flow_ok_def pipeline_init_def by (simp add: loops session_outputs_def started_loop_def event_loop_init_def)
  moreover have "engine_flow app0 (pipeline_init app0)"
    unfolding engine_flow_def pipeline_init_def using e(1) none reach
    by (auto simp: loops started_loop_def event_loop_init_def)
  ultimately show ?case by blast
next
  case (run_step st st')
  with step_stages_ok step_flow_ok step_engine_flow show ?case by blast
qed

section \<open>Properties\<close>

lemma run_stages:
  assumes "pipeline_run L app0 st"
  obtains e where "ap_engine (pl_app st) = Some e"
    "requests_of (session_outputs L (datagram_limit app0) (pl_read st)) =
       el_executed (ap_processing (pl_app st)) @ el_queue (ap_processing (pl_app st))"
    "abs_engine e = fold spec_send (el_executed (ap_processing (pl_app st))) (abs_engine (the (ap_engine app0)))"
    "market_data_of (emitted e) = el_executed (ap_output (pl_app st)) @ el_queue (ap_output (pl_app st))"
    "pl_records st = map (md_encode L) (el_executed (ap_output (pl_app st)))"
proof -
  note inv = run_invariant [OF assms]
  from inv obtain e where e: "ap_engine (pl_app st) = Some e"
    "abs_engine e = fold spec_send (el_executed (ap_processing (pl_app st))) (abs_engine (the (ap_engine app0)))"
    "el_posted (ap_output (pl_app st)) = market_data_of (emitted e)" by (auto simp: engine_flow_def)
  from inv have "el_posted (ap_processing (pl_app st)) = el_executed (ap_processing (pl_app st)) @ el_queue (ap_processing (pl_app st))"
    "el_posted (ap_output (pl_app st)) = el_executed (ap_output (pl_app st)) @ el_queue (ap_output (pl_app st))"
    by (simp_all add: stages_ok_def staged_def loop_ok_def)
  with inv e show ?thesis by (intro that) (simp_all add: flow_ok_def)
qed


lemma down_finished:
  assumes "pipeline_run L app0 st" "pl_control st = Down"
  shows "el_queue (ap_processing (pl_app st)) = []" "el_queue (ap_output (pl_app st)) = []"
    "el_phase (ap_input (pl_app st)) = Finished" "el_phase (ap_processing (pl_app st)) = Finished"
    "el_phase (ap_output (pl_app st)) = Finished" "\<not> ap_started (pl_app st)"
  using run_invariant [OF assms(1)] assms(2) by (auto simp: stages_ok_def staged_def)

text \<open>\<open>run\<close> waits as long as the server is up and returns once it is down.\<close>

lemma run_returns_when_down:
  assumes "pipeline_run L app0 st"
  shows "pl_control st = Up \<Longrightarrow> application_run (pl_app st) = None"
    "pl_control st = Down \<Longrightarrow> application_run (pl_app st) = Some (pl_app st)"
proof -
  assume "pl_control st = Up"
  with run_invariant [OF assms] have "el_phase (ap_input (pl_app st)) \<notin> {Not_Started, Finished}"
    by (auto simp: stages_ok_def staged_def)
  then show "application_run (pl_app st) = None" by (simp add: application_run_def loop_join_def)
next
  assume "pl_control st = Down"
  from down_finished [OF assms this] show "application_run (pl_app st) = Some (pl_app st)"
    by (simp add: application_run_def loop_join_def)
qed

lemma down_records:
  assumes "pipeline_run L app0 st" "pl_control st = Down"
  shows "pl_records st = sequential_records L (datagram_limit app0) (pl_read st) (abs_engine (the (ap_engine app0)))"
proof -
  from run_stages [OF assms(1)] obtain e where
    "requests_of (session_outputs L (datagram_limit app0) (pl_read st)) = el_executed (ap_processing (pl_app st)) @ el_queue (ap_processing (pl_app st))"
    "abs_engine e = fold spec_send (el_executed (ap_processing (pl_app st))) (abs_engine (the (ap_engine app0)))"
    "market_data_of (emitted e) = el_executed (ap_output (pl_app st)) @ el_queue (ap_output (pl_app st))"
    "pl_records st = map (md_encode L) (el_executed (ap_output (pl_app st)))" by blast
  with down_finished [OF assms] emitted_abs [of e] show ?thesis by (simp add: sequential_records_def sequential_engine_def)
qed


end
