(* ===== verification/Fair_System.thy ===== *)
theory Fair_System
  imports Prelude
begin

text \<open>
  Infinite runs of a system of actors: a run is a function from positions to states, with the
  actor that makes each step. An actor is treated fairly if it is not passed over for ever while
  it can move.
\<close>

definition infinite_run :: "('a \<Rightarrow> 's \<Rightarrow> 's \<Rightarrow> bool) \<Rightarrow> (nat \<Rightarrow> 'a) \<Rightarrow> (nat \<Rightarrow> 's) \<Rightarrow> bool" where
  "infinite_run step who run \<longleftrightarrow> (\<forall>i. step (who i) (run i) (run (Suc i)))"

definition can_move :: "('a \<Rightarrow> 's \<Rightarrow> 's \<Rightarrow> bool) \<Rightarrow> 'a \<Rightarrow> 's \<Rightarrow> bool" where
  "can_move step a s \<longleftrightarrow> (\<exists>t. step a s t)"

definition weakly_fair :: "('a \<Rightarrow> 's \<Rightarrow> 's \<Rightarrow> bool) \<Rightarrow> 'a set \<Rightarrow> (nat \<Rightarrow> 'a) \<Rightarrow> (nat \<Rightarrow> 's) \<Rightarrow> bool" where
  "weakly_fair step actors who run \<longleftrightarrow> (\<forall>a\<in>actors. \<forall>i. \<exists>j\<ge>i. \<not> can_move step a (run j) \<or> who j = a)"

lemma weakly_fairD:
  assumes "weakly_fair step actors who run" "a \<in> actors"
  obtains j where "j \<ge> i" "\<not> can_move step a (run j) \<or> who j = a"
  using assms by (auto simp: weakly_fair_def)

text \<open>
  The laws of a system of actors: an invariant that every step keeps. Under them a goal is reached
  whenever, up to it, some fair actor can always move and its moves bring the goal nearer.
\<close>

locale actor_system =
  fixes step :: "'a \<Rightarrow> 's \<Rightarrow> 's \<Rightarrow> bool"
    and ok :: "'s \<Rightarrow> bool"
  assumes step_ok: "ok s \<Longrightarrow> step a s t \<Longrightarrow> ok t"
begin

lemma run_ok: "infinite_run step who run \<Longrightarrow> ok (run 0) \<Longrightarrow> ok (run i)"
  by (induction i) (auto simp: infinite_run_def intro: step_ok)

lemma run_keeps:
  assumes run: "infinite_run step who run" "ok (run 0)" and "P (run i)" "i \<le> j"
    and keeps: "\<And>b s t. ok s \<Longrightarrow> P s \<Longrightarrow> step b s t \<Longrightarrow> P t"
  shows "P (run j)"
  using \<open>i \<le> j\<close>
proof (induction j rule: dec_induct)
  case (step n)
  with run_ok [OF run, of n] keeps run(1) show ?case unfolding infinite_run_def by blast
qed (use assms in simp)

text \<open>
  The helpful actor of a state: it can move, and while it does not, nobody takes the run further
  from the goal or makes another actor the helpful one.
\<close>

lemma goal_or_waiting:
  assumes run: "infinite_run step who run" "ok (run 0)" and "i \<le> j" and waits: "\<forall>k. i \<le> k \<and> k < j \<longrightarrow> who k \<noteq> helpful (run i)"
    and closer: "\<And>b s t. ok s \<Longrightarrow> step b s t \<Longrightarrow> \<not> Q s \<Longrightarrow>
      (dist t, dist s) \<in> r \<or> dist t = dist s \<and> helpful t = helpful s \<and> b \<noteq> helpful s"
  shows "(\<exists>k. i \<le> k \<and> k \<le> j \<and> (Q (run k) \<or> (dist (run k), dist (run i)) \<in> r)) \<or>
    dist (run j) = dist (run i) \<and> helpful (run j) = helpful (run i)"
  using \<open>i \<le> j\<close> waits
proof (induction j rule: dec_induct)
  case (step n)
  then have "(\<exists>k. i \<le> k \<and> k \<le> n \<and> (Q (run k) \<or> (dist (run k), dist (run i)) \<in> r)) \<or>
    dist (run n) = dist (run i) \<and> helpful (run n) = helpful (run i) \<and> \<not> Q (run n)" by auto
  then show ?case
  proof
    assume "\<exists>k. i \<le> k \<and> k \<le> n \<and> (Q (run k) \<or> (dist (run k), dist (run i)) \<in> r)"
    then show ?thesis using le_Suc_eq by blast
  next
    assume n: "dist (run n) = dist (run i) \<and> helpful (run n) = helpful (run i) \<and> \<not> Q (run n)"
    have "step (who n) (run n) (run (Suc n))" using run(1) by (simp add: infinite_run_def)
    from closer [OF run_ok [OF run] this] n
    have "(dist (run (Suc n)), dist (run i)) \<in> r \<or>
      dist (run (Suc n)) = dist (run i) \<and> helpful (run (Suc n)) = helpful (run i)" by auto
    with step.hyps show ?thesis by (meson le_Suc_eq order_refl)
  qed
qed simp

lemma helpful_progress:
  assumes run: "infinite_run step who run" "ok (run 0)" and fair: "weakly_fair step actors who run" "\<And>s. helpful s \<in> actors"
    and "wf r"
    and enabled: "\<And>s. ok s \<Longrightarrow> \<not> Q s \<Longrightarrow> can_move step (helpful s) s"
    and closer: "\<And>b s t. ok s \<Longrightarrow> step b s t \<Longrightarrow> \<not> Q s \<Longrightarrow>
      (dist t, dist s) \<in> r \<or> dist t = dist s \<and> helpful t = helpful s \<and> b \<noteq> helpful s"
  shows "\<exists>j\<ge>i. Q (run j)"
  using \<open>wf r\<close>
proof (induction "dist (run i)" arbitrary: i rule: wf_induct_rule)
  case less
  let ?a = "helpful (run i)"
  let ?near = "\<lambda>k. Q (run k) \<or> (dist (run k), dist (run i)) \<in> r"
  have "\<exists>j. j \<ge> i \<and> (\<not> can_move step ?a (run j) \<or> who j = ?a)" using weakly_fairD [OF fair] by blast
  from exists_least_iff [THEN iffD1, OF this] obtain j where j: "j \<ge> i" "\<not> can_move step ?a (run j) \<or> who j = ?a"
    "\<forall>k. i \<le> k \<and> k < j \<longrightarrow> who k \<noteq> ?a" by blast
  have "\<exists>k\<ge>i. ?near k"
  proof (cases "\<exists>k. i \<le> k \<and> k \<le> j \<and> ?near k")
    case False
    with goal_or_waiting [where helpful = helpful and Q = Q and dist = dist and r = r, OF run j(1,3) closer]
    have at_j: "dist (run j) = dist (run i)" "helpful (run j) = ?a" "\<not> Q (run j)" using j(1) by auto
    from enabled [OF run_ok [OF run] at_j(3)] at_j(2) j(2) have "who j = helpful (run j)" by auto
    moreover have "step (who j) (run j) (run (Suc j))" using run(1) by (simp add: infinite_run_def)
    ultimately have "(dist (run (Suc j)), dist (run i)) \<in> r"
      using closer [OF run_ok [OF run] _ at_j(3)] at_j(1) by metis
    with j(1) show ?thesis by (intro exI [of _ "Suc j"]) simp
  qed blast
  then obtain k where k: "k \<ge> i" "?near k" by blast
  then show ?case using less.hyps [of k] by (meson order_trans)
qed

text \<open>Without fairness the goal can still be reached: by letting the helpful actor move.\<close>

lemma helpful_path:
  assumes "ok s" "wf r"
    and enabled: "\<And>s. ok s \<Longrightarrow> \<not> Q s \<Longrightarrow> can_move step (helpful s) s"
    and closer: "\<And>b s t. ok s \<Longrightarrow> step b s t \<Longrightarrow> \<not> Q s \<Longrightarrow>
      (dist t, dist s) \<in> r \<or> dist t = dist s \<and> helpful t = helpful s \<and> b \<noteq> helpful s"
  shows "\<exists>t. (\<lambda>s t. \<exists>a. step a s t)\<^sup>*\<^sup>* s t \<and> ok t \<and> Q t"
  using \<open>wf r\<close> \<open>ok s\<close>
proof (induction "dist s" arbitrary: s rule: wf_induct_rule)
  case less
  show ?case
  proof (cases "Q s")
    case False
    with enabled less.prems obtain t where t: "step (helpful s) s t" by (auto simp: can_move_def)
    from less.hyps [of t] closer [OF less.prems t False] step_ok [OF less.prems t] obtain u where
      "(\<lambda>s t. \<exists>a. step a s t)\<^sup>*\<^sup>* t u" "ok u" "Q u" by blast
    with t show ?thesis by (metis (mono_tags, lifting) converse_rtranclp_into_rtranclp)
  qed (use less.prems in blast)
qed

end

end
