(* ===== verification/Pipeline_Shutdown.thy ===== *)
theory Pipeline_Shutdown
  imports Pipeline Fair_System
begin

text \<open>
  Shutting down never hangs. Each of the three joins of \<open>stop\<close> waits for a loop that has a step of its
  own until it has finished, and each such step brings the loop nearer to the end: so \<open>stop\<close> returns
  in every weakly fair run, and from every state it can be carried through without the network.
\<close>

section \<open>A free slot always exists\<close>

lemma linked_finite: "finite (linked bs)"
proof -
  have "linked bs = (\<Union>(sy, b)\<in>set bs. \<Union>s\<in>{Buy, Sell}. set (side_addrs (side_of s b)))"
  proof (intro set_eqI iffI)
    fix a
    assume "a \<in> linked bs"
    then obtain sy b s where "(sy, b) \<in> set bs" "a \<in> set (side_addrs (side_of s b))" by (auto simp: linked_def)
    moreover have "s \<in> {Buy, Sell}" by (cases s) simp_all
    ultimately show "a \<in> (\<Union>(sy, b)\<in>set bs. \<Union>s\<in>{Buy, Sell}. set (side_addrs (side_of s b)))" by blast
  qed (unfold linked_def, blast)
  then show ?thesis by (auto split: prod.split)
qed

lemma free_slot_exists:
  assumes "reachable cfg e"
  obtains slot e' where "slot_fresh slot e" "send slot r e = Inr e'"
proof -
  have "finite (dom (heap e))" using reachable_ok [OF assms] linked_finite by (simp add: engine_ok_def)
  then obtain a where "a \<notin> dom (heap e)" using ex_new_if_finite [OF infinite_UNIV_nat] by blast
  then have "slot_fresh (Some a) e" by (auto simp: slot_fresh_def)
  with send_refines [OF reachable_ok [OF assms] this, of r] that show ?thesis by (auto split: if_splits)
qed

section \<open>Who brings \<open>stop\<close> forward\<close>

text \<open>Steps after which the process still runs.\<close>

definition alive_step :: "('j, 'z) json_lib_scheme \<Rightarrow> actor \<Rightarrow> pipeline \<Rightarrow> pipeline \<Rightarrow> bool" where
  "alive_step L a st st' \<longleftrightarrow> pipeline_step L a st st' \<and> \<not> pl_terminated st'"

definition alive_run :: "('j, 'z) json_lib_scheme \<Rightarrow> application \<Rightarrow> pipeline \<Rightarrow> bool" where
  "alive_run L app0 st \<longleftrightarrow> pipeline_run L app0 st \<and> \<not> pl_terminated st"

interpretation server: actor_system "alive_step L" "alive_run L app0" for L app0
  by unfold_locales (auto simp: alive_step_def alive_run_def intro: run_step)

text \<open>While \<open>stop\<close> waits in a join it is the joined thread that has to move.\<close>

definition waited_for :: "'t event_loop \<Rightarrow> actor \<Rightarrow> actor" where
  "waited_for l thread = (if el_phase l = Finished then Stop_Caller else thread)"

fun helper_at :: "control \<Rightarrow> application \<Rightarrow> actor" where
  "helper_at Input_Stopping app = waited_for (ap_input app) Input_Thread"
| "helper_at Processing_Stopping app = waited_for (ap_processing app) Processing_Thread"
| "helper_at Output_Stopping app = waited_for (ap_output app) Output_Thread"
| "helper_at c app = Stop_Caller"

fun left_at :: "control \<Rightarrow> application \<Rightarrow> nat" where
  "left_at Input_Stopping app = remaining_steps 1 (ap_input app)"
| "left_at Processing_Stopping app = remaining_steps 0 (ap_processing app)"
| "left_at Output_Stopping app = remaining_steps 0 (ap_output app)"
| "left_at c app = 0"

definition stop_helper :: "pipeline \<Rightarrow> actor" where
  "stop_helper st = helper_at (pl_control st) (pl_app st)"

definition stop_distance :: "pipeline \<Rightarrow> nat \<times> nat" where
  "stop_distance st = (7 - control_rank (pl_control st), left_at (pl_control st) (pl_app st))"

abbreviation nearer :: "((nat \<times> nat) \<times> (nat \<times> nat)) set" where
  "nearer \<equiv> less_than <*lex*> less_than"

lemma thread_not_finished:
  assumes "thread_step idle n l l'"
  shows "el_phase l \<noteq> Finished"
  using assms by (cases rule: thread_step.cases) simp_all

section \<open>The helper can move\<close>

text \<open>The input thread can always move without an error of the receiver.\<close>

lemma input_moves:
  assumes "alive_run L app0 st" "el_phase (ap_input (pl_app st)) \<noteq> Finished"
  shows "\<exists>t. alive_step L Input_Thread st t \<and> pl_control t = pl_control st \<and> ap_order_entry (pl_app t) = ap_order_entry (pl_app st)"
proof -
  let ?l = "ap_input (pl_app st)"
  from assms(1) have run: "pipeline_run L app0 st" and alive: "\<not> pl_terminated st" by (simp_all add: alive_run_def)
  from run_invariant [OF run] have l: "el_phase ?l \<noteq> Not_Started" by (auto simp: stages_ok_def staged_def)
  have go: ?thesis if "pipeline_step L Input_Thread st t" "\<not> pl_terminated t \<and> pl_control t = pl_control st \<and>
      ap_order_entry (pl_app t) = ap_order_entry (pl_app st)" for t
    using that by (auto simp: alive_step_def)
  show ?thesis
  proof (cases "el_phase ?l = Polling 0")
    case poll: True
    show ?thesis
    proof (cases "pl_socket st = [] \<or> \<not> entry_armed (ap_order_entry (pl_app st))")
      case True
      from pipeline_step.poll_nothing [OF alive refl poll True refl] show ?thesis by (rule go) (simp add: alive)
    next
      case False
      then obtain d rest where "entry_armed (ap_order_entry (pl_app st))" "pl_socket st = d # rest"
        by (cases "pl_socket st") auto
      from pipeline_step.poll_datagram [OF alive refl poll this refl] show ?thesis
        by (rule go) (simp add: on_datagram_eq alive)
    qed
  next
    case False
    from thread_can_step [of ?l] l assms(2) obtain l' where
      "thread_step (idle_of (svc_input_thread (ap_config (pl_app st)))) (ap_pollers (pl_app st)) ?l l'" by blast
    from pipeline_step.input_thread [OF alive refl False this] show ?thesis by (rule go) (simp add: alive)
  qed
qed

lemma input_can_move:
  "alive_run L app0 st \<Longrightarrow> el_phase (ap_input (pl_app st)) \<noteq> Finished \<Longrightarrow> can_move (alive_step L) Input_Thread st"
  using input_moves by (fastforce simp: can_move_def)

lemma processing_can_move:
  assumes "alive_run L app0 st" "el_phase (ap_processing (pl_app st)) \<noteq> Finished"
  shows "can_move (alive_step L) Processing_Thread st"
proof -
  let ?l = "ap_processing (pl_app st)"
  from assms(1) have run: "pipeline_run L app0 st" and alive: "\<not> pl_terminated st" by (simp_all add: alive_run_def)
  from run_invariant [OF run] have l: "el_phase ?l \<noteq> Not_Started" by (auto simp: stages_ok_def staged_def)
  from run_invariant [OF run] obtain e cfg where e: "ap_engine (pl_app st) = Some e" "reachable cfg e"
    by (auto simp: engine_flow_def)
  have go: ?thesis if "pipeline_step L Processing_Thread st t" "\<not> pl_terminated t" for t
    using that by (auto simp: can_move_def alive_step_def)
  from thread_can_step [of ?l] l assms(2) obtain l' where
    s: "thread_step (idle_of (svc_processing_thread (ap_config (pl_app st)))) 0 ?l l'" by blast
  show ?thesis
  proof (cases "tasks_run ?l l'")
    case Nil
    from pipeline_step.processing_idle [OF alive refl s Nil] show ?thesis by (rule go) (simp add: alive)
  next
    case (Cons req later)
    with thread_step_runs(2) [OF s] have one: "tasks_run ?l l' = [req]" by simp
    from free_slot_exists [OF e(2), of req] obtain slot e' where f: "slot_fresh slot e" "send slot req e = Inr e'" .
    from pipeline_step.processing_request [OF alive refl s one e(1) f] show ?thesis by (rule go) (simp add: alive)
  qed
qed

lemma output_can_move:
  assumes "alive_run L app0 st" "el_phase (ap_output (pl_app st)) \<noteq> Finished"
  shows "can_move (alive_step L) Output_Thread st"
proof -
  let ?l = "ap_output (pl_app st)"
  from assms(1) have run: "pipeline_run L app0 st" and alive: "\<not> pl_terminated st" by (simp_all add: alive_run_def)
  from run_invariant [OF run] have "el_phase ?l \<noteq> Not_Started" by (auto simp: stages_ok_def staged_def)
  with thread_can_step [of ?l] assms(2) obtain l' where
    "thread_step (idle_of (svc_output_thread (ap_config (pl_app st)))) 0 ?l l'" by blast
  from pipeline_step.output_thread [OF alive refl this, of L] show ?thesis
    unfolding can_move_def alive_step_def by (intro exI conjI, assumption) (simp add: alive)
qed

lemma stop_caller_can_move:
  assumes "alive_run L app0 st" "pl_control st \<noteq> Down" "stop_helper st = Stop_Caller"
  shows "can_move (alive_step L) Stop_Caller st"
proof -
  from assms(1) have run: "pipeline_run L app0 st" and alive: "\<not> pl_terminated st" by (simp_all add: alive_run_def)
  have go: ?thesis if "pipeline_step L Stop_Caller st t" "\<not> pl_terminated t" for t
    using that by (auto simp: can_move_def alive_step_def)
  show ?thesis
  proof (cases "pl_control st")
    case Up
    with run_invariant [OF run] have "ap_started (pl_app st)" by (simp add: stages_ok_def)
    from pipeline_step.stop_receiver [OF alive refl Up this] show ?thesis by (rule go) (simp add: alive)
  next
    case Receiver_Stopped
    from pipeline_step.stop_input [OF alive refl this] show ?thesis by (rule go) (simp add: alive)
  next
    case Input_Stopping
    with assms(3) have "el_phase (ap_input (pl_app st)) = Finished"
      by (auto simp: stop_helper_def waited_for_def split: if_splits)
    from pipeline_step.join_input [OF alive Input_Stopping this, of L] show ?thesis by (rule go) (simp add: alive)
  next
    case Input_Joined
    from pipeline_step.stop_processing [OF alive refl this] show ?thesis by (rule go) (simp add: alive)
  next
    case Processing_Stopping
    with assms(3) have "el_phase (ap_processing (pl_app st)) = Finished"
      by (auto simp: stop_helper_def waited_for_def split: if_splits)
    from pipeline_step.join_processing [OF alive Processing_Stopping this, of L] show ?thesis by (rule go) (simp add: alive)
  next
    case Processing_Joined
    from pipeline_step.stop_output [OF alive refl this] show ?thesis by (rule go) (simp add: alive)
  next
    case Output_Stopping
    with assms(3) have "el_phase (ap_output (pl_app st)) = Finished"
      by (auto simp: stop_helper_def waited_for_def split: if_splits)
    from pipeline_step.join_output [OF alive refl Output_Stopping this, of L] show ?thesis by (rule go) (simp add: alive)
  qed (use assms(2) in simp)
qed

lemma helper_can_move:
  assumes "alive_run L app0 st" "pl_control st \<noteq> Down"
  shows "can_move (alive_step L) (stop_helper st) st"
proof (cases "stop_helper st = Stop_Caller")
  case True
  with stop_caller_can_move [OF assms] show ?thesis by simp
next
  case False
  with input_can_move [OF assms(1)] processing_can_move [OF assms(1)] output_can_move [OF assms(1)] show ?thesis
    by (cases "pl_control st") (auto simp: stop_helper_def waited_for_def split: if_splits)
qed

section \<open>Every step of the helper brings the end nearer\<close>

text \<open>Which loop a step of each actor moves, and what it leaves alone.\<close>

lemma input_step_moves:
  assumes "pipeline_step L Input_Thread st t" "stages_ok st"
  obtains idle where "thread_step idle 1 (ap_input (pl_app st)) (ap_input (pl_app t))"
    "pl_control t = pl_control st" "ap_output (pl_app t) = ap_output (pl_app st)"
  using assms(1)
proof (cases rule: pipeline_step.cases)
  case (poll_datagram app d rest app')
  with that [of Busy_Spin] poll_is_step [of "ap_input app" Busy_Spin True] show ?thesis by (simp add: on_datagram_eq)
next
  case (poll_nothing app app' aborted)
  with that [of Busy_Spin] poll_is_step [of "ap_input app" Busy_Spin aborted] show ?thesis by simp
next
  case (poll_error app app')
  with that [of Busy_Spin] poll_is_step [of "ap_input app" Busy_Spin True] show ?thesis by simp
next
  case (input_thread app l)
  with that assms(2) show ?thesis by (simp add: stages_ok_def)
qed

lemma processing_step_moves:
  assumes "pipeline_step L Processing_Thread st t" "\<not> pl_terminated t"
  obtains idle where "thread_step idle 0 (ap_processing (pl_app st)) (ap_processing (pl_app t))"
    "pl_control t = pl_control st" "ap_input (pl_app t) = ap_input (pl_app st)"
  using assms(1)
proof (cases rule: pipeline_step.cases)
  case (processing_request app l req e slot e')
  with that show ?thesis by (simp add: post_events_def)
qed (use that assms(2) in simp_all)

lemma output_step_moves:
  assumes "pipeline_step L Output_Thread st t"
  obtains idle where "thread_step idle 0 (ap_output (pl_app st)) (ap_output (pl_app t))"
    "pl_control t = pl_control st" "ap_input (pl_app t) = ap_input (pl_app st)"
    "ap_processing (pl_app t) = ap_processing (pl_app st)"
  using assms by (cases rule: pipeline_step.cases) (use that in simp_all)

lemma network_step_moves:
  assumes "pipeline_step L Network st t"
  shows "pl_control t = pl_control st" "pl_app t = pl_app st"
  using assms by (cases rule: pipeline_step.cases; simp)+

lemma stop_caller_step_moves:
  assumes "pipeline_step L Stop_Caller st t"
  shows "control_rank (pl_control t) = Suc (control_rank (pl_control st))"
  using assms by (cases rule: pipeline_step.cases) simp_all

lemma waits_joined:
  assumes "stages_ok st"
  shows "pl_control st = Input_Stopping \<Longrightarrow> \<not> el_running (ap_input (pl_app st))"
    "pl_control st = Processing_Stopping \<Longrightarrow> \<not> el_running (ap_processing (pl_app st)) \<and> el_phase (ap_input (pl_app st)) = Finished"
    "pl_control st = Output_Stopping \<Longrightarrow> \<not> el_running (ap_output (pl_app st)) \<and>
       el_phase (ap_input (pl_app st)) = Finished \<and> el_phase (ap_processing (pl_app st)) = Finished"
  using assms by (auto simp: stages_ok_def staged_def)

lemma rank_le: "control_rank c \<le> 7"
  by (cases c) simp_all

lemma alive_step_closer:
  assumes "alive_run L app0 st" "alive_step L b st t"
  shows "(stop_distance t, stop_distance st) \<in> nearer \<or>
    stop_distance t = stop_distance st \<and> stop_helper t = stop_helper st \<and> b \<noteq> stop_helper st"
proof -
  from assms have st: "stages_ok st" and s: "pipeline_step L b st t" and alive: "\<not> pl_terminated t"
    using run_invariant by (auto simp: alive_run_def alive_step_def)
  note defs = stop_distance_def stop_helper_def waited_for_def
  show ?thesis
  proof (cases b)
    case Network
    with network_step_moves [of L st t] s show ?thesis by (cases "pl_control st") (simp_all add: defs)
  next
    case Input_Thread
    with s input_step_moves [OF _ st, of L t] obtain idle where
      i: "thread_step idle 1 (ap_input (pl_app st)) (ap_input (pl_app t))" "pl_control t = pl_control st" by blast
    from thread_not_finished [OF i(1)] stopped_step_decreases [OF i(1)] waits_joined [OF st] i(2) Input_Thread show ?thesis
      by (cases "pl_control st") (simp_all add: defs)
  next
    case Processing_Thread
    with s processing_step_moves [OF _ alive, of L st] obtain idle where
      p: "thread_step idle 0 (ap_processing (pl_app st)) (ap_processing (pl_app t))" "pl_control t = pl_control st"
        "ap_input (pl_app t) = ap_input (pl_app st)" by blast
    from thread_not_finished [OF p(1)] stopped_step_decreases [OF p(1)] waits_joined [OF st] p(2,3) Processing_Thread show ?thesis
      by (cases "pl_control st") (simp_all add: defs)
  next
    case Output_Thread
    with s output_step_moves [of L st t] obtain idle where
      p: "thread_step idle 0 (ap_output (pl_app st)) (ap_output (pl_app t))" "pl_control t = pl_control st"
        "ap_input (pl_app t) = ap_input (pl_app st)" "ap_processing (pl_app t) = ap_processing (pl_app st)" by blast
    from thread_not_finished [OF p(1)] stopped_step_decreases [OF p(1)] waits_joined [OF st] p(2-4) Output_Thread show ?thesis
      by (cases "pl_control st") (simp_all add: defs)
  next
    case Stop_Caller
    with s stop_caller_step_moves [of L st t] rank_le [of "pl_control t"] have
      "7 - control_rank (pl_control t) < 7 - control_rank (pl_control st)" by simp
    then show ?thesis by (simp add: stop_distance_def)
  qed
qed

section \<open>\<open>stop\<close> returns\<close>

text \<open>Steps that do not need the network: \<open>stop\<close> can be carried through with these alone.\<close>

definition quiet_step :: "('j, 'z) json_lib_scheme \<Rightarrow> actor \<Rightarrow> pipeline \<Rightarrow> pipeline \<Rightarrow> bool" where
  "quiet_step L a st st' \<longleftrightarrow> alive_step L a st st' \<and> a \<noteq> Network"

interpretation quiet: actor_system "quiet_step L" "alive_run L app0" for L app0
  by unfold_locales (auto simp: quiet_step_def intro: server.step_ok)

lemma stop_helper_not_network: "stop_helper st \<noteq> Network"
  by (cases "pl_control st") (simp_all add: stop_helper_def waited_for_def)

lemma quiet_helper_can_move:
  "alive_run L app0 st \<Longrightarrow> pl_control st \<noteq> Down \<Longrightarrow> can_move (quiet_step L) (stop_helper st) st"
  using helper_can_move stop_helper_not_network by (simp add: can_move_def quiet_step_def)

lemma later_reads:
  assumes "pipeline_step L a st t"
  shows "\<exists>more. pl_read t = pl_read st @ more \<and> (a \<noteq> Network \<and> pl_socket st = [] \<longrightarrow> more = [] \<and> pl_socket t = [])"
  using assms by (cases rule: pipeline_step.cases) (auto simp: on_datagram_eq post_events_def)

lemma quiet_path_reads:
  assumes "(\<lambda>s t. \<exists>a. quiet_step L a s t)\<^sup>*\<^sup>* st st'"
  shows "\<exists>more. pl_read st' = pl_read st @ more \<and> (pl_socket st = [] \<longrightarrow> more = [] \<and> pl_socket st' = [])"
  using assms
proof (induction rule: rtranclp_induct)
  case (step s t)
  then obtain a where "pipeline_step L a s t" "a \<noteq> Network" by (auto simp: quiet_step_def alive_step_def)
  with later_reads [of L a s t] step.IH show ?case by auto
qed simp

lemma shutdown_from:
  assumes "pipeline_run L app0 st" "\<not> pl_terminated st"
  shows "\<exists>st' later. pipeline_run L app0 st' \<and> \<not> pl_terminated st' \<and> pl_control st' = Down \<and>
    pl_read st' = pl_read st @ later \<and> (pl_socket st = [] \<longrightarrow> later = [])"
proof -
  have "wf nearer" by (simp add: wf_lex_prod)
  moreover have "alive_run L app0 st" using assms by (simp add: alive_run_def)
  ultimately obtain st' where st': "(\<lambda>s t. \<exists>a. quiet_step L a s t)\<^sup>*\<^sup>* st st'" "alive_run L app0 st'" "pl_control st' = Down"
    using quiet.helpful_path [of L app0 st nearer "\<lambda>st. pl_control st = Down" stop_helper stop_distance]
      quiet_helper_can_move alive_step_closer unfolding quiet_step_def by blast
  from quiet_path_reads [OF st'(1)] st'(2,3) show ?thesis by (auto simp: alive_run_def)
qed

lemma down_stays:
  assumes "pipeline_step L a st t" "pipeline_run L app0 st" "pl_control st = Down"
  shows "pl_control t = Down \<and> pl_read t = pl_read st \<and> pl_records t = pl_records st"
proof -
  note fin = down_finished [OF assms(2,3)]
  from assms(1) fin assms(3) show ?thesis
    by (cases rule: pipeline_step.cases) (auto dest: thread_not_finished)
qed


lemma stop_can_complete:
  assumes "pipeline_run L app0 st" "\<not> pl_terminated st"
  shows "\<exists>st' later. pipeline_run L app0 st' \<and> pl_control st' = Down \<and> pl_read st' = pl_read st @ later \<and>
    pl_records st' = sequential_records L (datagram_limit app0) (pl_read st @ later) (abs_engine (the (ap_engine app0)))"
  using shutdown_from [OF assms] down_records by metis

section \<open>A run with an order\<close>

definition sample_pipeline_order :: request where
  "sample_pipeline_order = New_Order_Single (sample_json_order\<lparr>nos_symbol := ''IBM''\<rparr>)"

definition sample_datagram :: string where
  "sample_datagram = client_encode sample_json sample_pipeline_order"

definition sample_new_engine :: engine where
  "sample_new_engine = projr (engine_init (Some 0) (to_engine_config (ac_matching_engine sample_app_config)))"

lemma sample_parts:
  "ap_engine sample_application = Some sample_new_engine"
  "es_decoder (ap_order_entry sample_application) = Some (Json_Decoder_Config 65535)"
  "ap_config sample_application = make_runtime_config sample_app_config"
  by (simp_all add: sample_application_def application_start_def sample_answers_def application_init_def make_io_context_def
      configure_logger_def entry_setup_def entry_init_def Let_def publisher_setup_def wire_pipeline_def entry_start_def
      asio_start_def asio_init_def receiver_parse_address_def open_socket_def enable_reuse_address_def bind_socket_def
      system_call_def loop_start_def event_loop_init_def engine_setup_def engine_init_def reserve_node_pool_def
      make_runtime_config_def sample_app_config_def default_session_config_def default_decoder_config_def sample_new_engine_def
      to_engine_config_def)

lemma sample_limit: "datagram_limit sample_application = 65535"
  by (simp add: datagram_limit_def sample_parts)

lemma sample_datagram_length: "length sample_datagram \<le> 400"
  by code_simp

lemma sample_session: "json_session sample_json 65535 sample_datagram = [On_Request sample_pipeline_order]"
proof -
  have "request_json_ok sample_pipeline_order"
    by (simp add: sample_pipeline_order_def sample_json_order_def symbol_ok_def exchange_ok_def symbol_size_def
        security_exchange_size_def ascii_def)
  note doc = decode_document_encode [OF sample_json_laws this]
  have "\<not> blank sample_datagram"
    using json_lawsD(9) [OF sample_json_laws, of sample_datagram] doc
    by (auto simp: sample_datagram_def decode_document_def)
  with doc sample_datagram_length show ?thesis
    by (simp add: json_session_def packet_send_def trim_empty_iff packet_outcome_def json_decode_def sample_datagram_def)
qed

lemma sample_order_published: "market_data_of (sp_emitted (spec_send sample_pipeline_order (abs_engine sample_new_engine))) \<noteq> []"
  by code_simp

text \<open>The datagram arrives.\<close>

definition sample_arrived :: pipeline where
  "sample_arrived = (pipeline_init sample_application)\<lparr>pl_socket := [sample_datagram]\<rparr>"

lemma sample_arrived_run: "pipeline_run sample_json sample_application sample_arrived"
  using run_step [OF run_start [OF sample_ready] arrive [of _ _ sample_datagram]]
  by (simp add: sample_arrived_def pipeline_init_def)

text \<open>The input thread reads it.\<close>

lemma sample_read:
  "\<exists>st. pipeline_run sample_json sample_application st \<and> \<not> pl_terminated st \<and> pl_read st = [sample_datagram] \<and> pl_socket st = []"
proof -
  let ?L = sample_json
  let ?app = sample_application
  let ?idle = "idle_of (svc_input_thread (ap_config ?app))"
  let ?s1 = "(pipeline_init ?app)\<lparr>pl_socket := [sample_datagram]\<rparr>"
  let ?l1 = "started_loop\<lparr>el_phase := Tasks, el_did_work := False\<rparr> :: unit event_loop"
  let ?l2 = "?l1\<lparr>el_phase := Polling 0\<rparr>"
  let ?s2 = "?s1\<lparr>pl_app := ?app\<lparr>ap_input := ?l1\<rparr>\<rparr>"
  let ?s3 = "?s2\<lparr>pl_app := ?app\<lparr>ap_input := ?l1\<rparr>\<lparr>ap_input := ?l2\<rparr>\<rparr>"
  note init = pipeline_init_def started_loop_def event_loop_init_def
  from sample_ready have app: "ap_input ?app = started_loop" "ap_pollers ?app = 1" "entry_armed (ap_order_entry ?app)"
    by (simp_all add: ready_def)
  have r1: "pipeline_run ?L ?app ?s1" using sample_arrived_run by (simp add: sample_arrived_def)
  have t1: "thread_step ?idle (ap_pollers ?app) started_loop ?l1" by (rule enter) (simp_all add: init)
  have t2: "thread_step ?idle (ap_pollers ?app) ?l1 ?l2" by (rule no_task) (simp_all add: init)
  have r2: "pipeline_run ?L ?app ?s2"
    by (rule run_step [OF r1], rule input_thread) (use t1 app in \<open>simp_all add: init\<close>)
  have r3: "pipeline_run ?L ?app ?s3"
    by (rule run_step [OF r2], rule input_thread) (use t2 in \<open>simp_all add: init\<close>)
  have "\<not> pl_terminated ?s3" "el_phase (ap_input (pl_app ?s3)) = Polling 0"
    "entry_armed (ap_order_entry (pl_app ?s3))" "pl_socket ?s3 = sample_datagram # []" "pl_read ?s3 = []"
    using app by (simp_all add: init)
  note parts = this
  from poll_datagram [OF parts(1) refl parts(2-4) refl, of ?L] obtain s4 where
    s4: "pipeline_step ?L Input_Thread ?s3 s4" "\<not> pl_terminated s4" "pl_read s4 = [sample_datagram]" "pl_socket s4 = []"
    using parts by (simp add: on_datagram_eq)
  from run_step [OF r3 s4(1)] s4(2-4) show ?thesis by blast
qed

lemma sample_sequential:
  "sequential_records sample_json (datagram_limit sample_application) [sample_datagram] (abs_engine (the (ap_engine sample_application))) \<noteq> []"
  using sample_order_published
  by (simp add: sequential_records_def sequential_engine_def session_outputs_def sample_session sample_limit sample_parts)

text \<open>The same run, to its end.\<close>

lemma sample_stopped:
  obtains st where "pipeline_run sample_json sample_application st" "\<not> pl_terminated st" "pl_control st = Down"
    "pl_read st = [sample_datagram]"
proof -
  from sample_read obtain st where st: "pipeline_run sample_json sample_application st" "\<not> pl_terminated st"
    "pl_read st = [sample_datagram]" "pl_socket st = []" by blast
  from shutdown_from [OF st(1,2)] st(3,4) that show ?thesis by auto
qed

text \<open>The step that ends \<open>stop\<close>.\<close>

lemma last_step:
  assumes "pipeline_step L a st t" "pl_control st \<noteq> Down" "pl_control t = Down"
  shows "pl_control st = Output_Stopping" "\<not> pl_terminated t"
  using assms by (cases rule: pipeline_step.cases; simp add: on_datagram_eq post_events_def)+

lemma run_before_down:
  assumes "pipeline_run L app0 down" "pl_control down = Down"
  obtains st a down' where "pipeline_run L app0 st" "pipeline_step L a st down'" "pl_control st \<noteq> Down"
    "pl_control down' = Down" "pl_read down' = pl_read down"
proof -
  from assms have "\<exists>st a down'. pipeline_run L app0 st \<and> pipeline_step L a st down' \<and> pl_control st \<noteq> Down \<and>
    pl_control down' = Down \<and> pl_read down' = pl_read down"
  proof (induction rule: pipeline_run.induct)
    case (run_step st a st')
    show ?case
    proof (cases "pl_control st = Down")
      case True
      with run_step.IH down_stays [OF run_step.hyps(2,1) True] show ?thesis by simp
    next
      case False
      with run_step.hyps run_step.prems show ?thesis by blast
    qed
  qed (simp add: pipeline_init_def)
  then show ?thesis using that by blast
qed

lemma stuck_when_down:
  assumes "pipeline_run L app0 st" "pl_control st = Down"
    "b \<in> {Input_Thread, Processing_Thread, Output_Thread, Stop_Caller}"
  shows "\<not> can_move (pipeline_step L) b st"
proof
  assume "can_move (pipeline_step L) b st"
  then obtain t where "pipeline_step L b st t" by (auto simp: can_move_def)
  then show False using down_finished [OF assms(1,2)] assms(2,3)
    by (cases rule: pipeline_step.cases) (auto dest: thread_not_finished)
qed




end
