(* ===== verification/Leaf.thy ===== *)
theory Leaf
  imports Order_Entry_Session
begin

text \<open>
  How errors travel (\<open>lab/error.hpp\<close>, \<open>lab/errors.hpp\<close>, \<open>lab/result.hpp\<close>): the type-erased carrier
  \<open>lab::error\<close>, the predicates handlers select on, \<open>try_handle_all\<close> with the handlers the programs give
  it, and what they print. \<open>boost::leaf\<close> itself is used through a parameter with one documented rule: the first handler
  that accepts the failure runs.
\<close>

section \<open>The carrier\<close>

record source_location =
  loc_file :: string
  loc_line :: nat

text \<open>
  A \<open>concrete_error<T>\<close> is a payload of type \<open>T\<close>; the types are those of the repository, one for each
  constructor of \<open>error\<close>.
\<close>

record error_carrier =
  ec_location :: source_location
  ec_payload :: error

datatype payload_type =
    T_Generic_Error | T_Invalid_Field | T_Missing_Field | T_Unknown_Order | T_Parser_Error
  | T_Duplicate_Order | T_Unknown_Symbol | T_Not_Connected | T_Malformed_Message | T_Missing_Msg_Type
  | T_Unsupported_Message

fun dynamic_type :: "error \<Rightarrow> payload_type" where
  "dynamic_type (Generic_Error _ _) = T_Generic_Error"
| "dynamic_type (Invalid_Field _ _) = T_Invalid_Field"
| "dynamic_type (Missing_Field _) = T_Missing_Field"
| "dynamic_type (Unknown_Order_Error _ _) = T_Unknown_Order"
| "dynamic_type (Parser_Error _) = T_Parser_Error"
| "dynamic_type (Duplicate_Order_Error _ _) = T_Duplicate_Order"
| "dynamic_type (Unknown_Symbol_Error _) = T_Unknown_Symbol"
| "dynamic_type Not_Connected = T_Not_Connected"
| "dynamic_type (Malformed_Message _) = T_Malformed_Message"
| "dynamic_type Missing_Msg_Type = T_Missing_Msg_Type"
| "dynamic_type (Unsupported_Message _) = T_Unsupported_Message"

definition make_error :: "error \<Rightarrow> source_location \<Rightarrow> error_carrier" where
  "make_error payload loc = \<lparr>ec_location = loc, ec_payload = payload\<rparr>"

definition carrier_error_code :: "error_carrier \<Rightarrow> error_code" where
  "carrier_error_code err = payload_code (ec_payload err)"

definition carrier_what :: "error_carrier \<Rightarrow> string" where
  "carrier_what err = code_message (carrier_error_code err) @ '' | '' @ payload_what (ec_payload err)"

definition full_details :: "error_carrier \<Rightarrow> string" where
  "full_details err = loc_file (ec_location err) @ '':'' @ decimal (loc_line (ec_location err)) @ '' | '' @
     code_message (carrier_error_code err) @ '' | '' @ carrier_what err"

definition is_type :: "payload_type \<Rightarrow> error_carrier \<Rightarrow> bool" where
  "is_type T err \<longleftrightarrow> dynamic_type (ec_payload err) = T"

text \<open>\<open>data<T>()\<close>: a pointer to the payload if it is of that type, null otherwise.\<close>

definition data :: "payload_type \<Rightarrow> error_carrier \<Rightarrow> error option" where
  "data T err = (if is_type T err then Some (ec_payload err) else None)"

text \<open>\<open>match_error<T>\<close> and \<open>match_errors<Ts...>\<close>; \<open>value\<close> dereferences what \<open>data\<close> returns.\<close>

definition match_error :: "payload_type \<Rightarrow> error_carrier \<Rightarrow> bool" where
  "match_error T err \<longleftrightarrow> is_type T err"

definition match_value :: "payload_type \<Rightarrow> error_carrier \<Rightarrow> error" where
  "match_value T err = the (data T err)"

definition match_errors :: "payload_type list \<Rightarrow> error_carrier \<Rightarrow> bool" where
  "match_errors Ts err \<longleftrightarrow> list_ex (\<lambda>T. is_type T err) Ts"

section \<open>Failures and handlers\<close>

text \<open>
  What a block can fail with: an error carried through leaf, an exception, or something else, with
  an \<open>error_code\<close> or without.
\<close>

datatype failure =
    Lab_Failure error_carrier
  | Exception_Failure string
  | Code_Failure error_code
  | Other_Failure

type_synonym 'a leaf_result = "failure + 'a"

definition new_leaf_error :: "error \<Rightarrow> source_location \<Rightarrow> 'a leaf_result" where
  "new_leaf_error payload loc = Inl (Lab_Failure (make_error payload loc))"

definition new_leaf_error_code :: "error_code \<Rightarrow> string option \<Rightarrow> source_location \<Rightarrow> 'a leaf_result" where
  "new_leaf_error_code ec txt loc = new_leaf_error (Generic_Error ec txt) loc"

text \<open>A handler accepts a failure or passes it on to the next.\<close>

type_synonym 'a handler = "failure \<Rightarrow> 'a option"

fun run_handlers :: "'a handler list \<Rightarrow> failure \<Rightarrow> 'a option" where
  "run_handlers [] f = None"
| "run_handlers (h # hs) f = (case h f of Some x \<Rightarrow> Some x | None \<Rightarrow> run_handlers hs f)"

text \<open>
  \<open>try_handle_all\<close> itself is a parameter; its documented behaviour is that a value is passed on and that of
  a failure the first handler accepting it makes the result.
\<close>

type_synonym 'a handling = "'a leaf_result \<Rightarrow> 'a handler list \<Rightarrow> 'a"

definition leaf_law :: "'a handling \<Rightarrow> bool" where
  "leaf_law handle_all \<longleftrightarrow> (\<forall>x hs. handle_all (Inr x) hs = x) \<and>
     (\<forall>f hs x. run_handlers hs f = Some x \<longrightarrow> handle_all (Inl f) hs = x)"

definition first_match :: "'a handling" where
  "first_match r hs = (case r of Inr x \<Rightarrow> x | Inl f \<Rightarrow> the (run_handlers hs f))"

lemma leaf_law_first_match: "leaf_law first_match"
  by (simp add: leaf_law_def first_match_def)

lemma leaf_lawD:
  assumes "leaf_law handle_all"
  shows "handle_all (Inr x) hs = x" "run_handlers hs f = Some x \<Longrightarrow> handle_all (Inl f) hs = x"
  using assms by (simp_all add: leaf_law_def)

text \<open>Handlers by what their parameter is.\<close>

fun on_match_error :: "payload_type \<Rightarrow> (error \<Rightarrow> 'a) \<Rightarrow> 'a handler" where
  "on_match_error T h (Lab_Failure err) = (if match_error T err then Some (h (match_value T err)) else None)"
| "on_match_error T h f = None"

fun on_lab_error :: "(error_carrier \<Rightarrow> 'a) \<Rightarrow> 'a handler" where
  "on_lab_error h (Lab_Failure err) = Some (h err)"
| "on_lab_error h f = None"

fun on_exception :: "(string \<Rightarrow> 'a) \<Rightarrow> 'a handler" where
  "on_exception h (Exception_Failure what) = Some (h what)"
| "on_exception h f = None"

fun on_code_or_none :: "(error_code option \<Rightarrow> 'a) \<Rightarrow> 'a handler" where
  "on_code_or_none h (Code_Failure ec) = Some (h (Some ec))"
| "on_code_or_none h f = Some (h None)"

definition on_anything :: "'a \<Rightarrow> 'a handler" where
  "on_anything x f = Some x"

section \<open>The macros\<close>

definition newline :: string where
  "newline = [CHR 0x0A]"

text \<open>The lines of the three handlers of \<open>LAB_RESULT_CATCH_ALL\<close>.\<close>

definition lab_error_line :: "error_carrier \<Rightarrow> string" where
  "lab_error_line err = ''unhandled lab::error | '' @ full_details err @ newline"

definition exception_line :: "string \<Rightarrow> string" where
  "exception_line what = ''unhandled exception | '' @ what @ newline"

definition error_code_line :: "error_code option \<Rightarrow> string" where
  "error_code_line ec =
     (case ec of
        Some c \<Rightarrow> ''unhandled error | error_code: '' @ decimal (nat (code_value c)) @ '':'' @ category_name c @ newline
      | None \<Rightarrow> ''unhandled error'' @ newline)"

text \<open>
  \<open>code_block\<close> runs after the line has been written to standard error; it is a function of what has
  been written there.
\<close>

definition catch_all :: "string \<Rightarrow> (string \<Rightarrow> 'a) \<Rightarrow> 'a handler list" where
  "catch_all err code_block =
     [on_lab_error (\<lambda>e. code_block (err @ lab_error_line e)),
      on_exception (\<lambda>what. code_block (err @ exception_line what)),
      on_code_or_none (\<lambda>ec. code_block (err @ error_code_line ec))]"

text \<open>\<open>LAB_RESULT_TO_BOOL\<close> and \<open>LAB_EXIT_ON_ERROR\<close>: the latter yields the exit status the function returns with, if it does.\<close>

definition result_to_bool :: "(bool \<times> string) handling \<Rightarrow> 'a leaf_result \<Rightarrow> string \<Rightarrow> bool \<times> string" where
  "result_to_bool handle_all r err =
     handle_all (case r of Inl f \<Rightarrow> Inl f | Inr _ \<Rightarrow> Inr (True, err)) (catch_all err (Pair False))"

definition exit_on_error :: "(bool \<times> string) handling \<Rightarrow> 'a leaf_result \<Rightarrow> string \<Rightarrow> int option \<times> string" where
  "exit_on_error handle_all r err =
     (case result_to_bool handle_all r err of (ok, err') \<Rightarrow> (if ok then None else Some 1, err'))"

text \<open>The \<open>fmt\<close> formatter of leaf's diagnostics: every newline becomes a separator.\<close>

fun fold_newlines :: "string \<Rightarrow> string" where
  "fold_newlines [] = []"
| "fold_newlines (c # cs) = (if c = CHR 0x0A then '' -- '' @ fold_newlines cs else c # fold_newlines cs)"

section \<open>Facts\<close>

lemma data_Some: "data T err = Some p \<longleftrightarrow> p = ec_payload err \<and> dynamic_type p = T"
  by (auto simp: data_def is_type_def)

lemma match_value_payload: "match_error T err \<Longrightarrow> match_value T err = ec_payload err"
  by (simp add: match_error_def match_value_def data_def)

lemma catch_all_total: "run_handlers (catch_all err k) f = Some (k (err @ (case f of
    Lab_Failure e \<Rightarrow> lab_error_line e | Exception_Failure what \<Rightarrow> exception_line what
  | Code_Failure ec \<Rightarrow> error_code_line (Some ec) | Other_Failure \<Rightarrow> error_code_line None)))"
  by (cases f) (simp_all add: catch_all_def)

definition failure_line :: "failure \<Rightarrow> string" where
  "failure_line f = (case f of
    Lab_Failure e \<Rightarrow> lab_error_line e | Exception_Failure what \<Rightarrow> exception_line what
  | Code_Failure ec \<Rightarrow> error_code_line (Some ec) | Other_Failure \<Rightarrow> error_code_line None)"

lemma try_catch_all:
  assumes "leaf_law handle_all"
  shows "handle_all r (catch_all err k) = (case r of Inr x \<Rightarrow> x | Inl f \<Rightarrow> k (err @ failure_line f))"
  by (cases r) (simp_all add: leaf_lawD(1) [OF assms] leaf_lawD(2) [OF assms catch_all_total] failure_line_def)

lemma exit_on_error_eq:
  assumes "leaf_law handle_all"
  shows "exit_on_error handle_all r err = (case r of Inr _ \<Rightarrow> (None, err) | Inl f \<Rightarrow> (Some 1, err @ failure_line f))"
  by (cases r) (simp_all add: exit_on_error_def result_to_bool_def try_catch_all [OF assms])

lemma fold_newlines_no_newline: "CHR 0x0A \<notin> set (fold_newlines s)"
  by (induction s rule: fold_newlines.induct) auto

lemma fold_newlines_id: "CHR 0x0A \<notin> set s \<Longrightarrow> fold_newlines s = s"
  by (induction s rule: fold_newlines.induct) auto

section \<open>The session's handlers\<close>

text \<open>\<open>session::send\<close>: the handlers it gives to \<open>try_handle_all\<close>, in their order.\<close>

definition session_handlers :: "string \<Rightarrow> (rejection + request) handler list" where
  "session_handlers packet =
     [on_match_error T_Invalid_Field (\<lambda>e. Inl (make_rejection (payload_what e) packet)),
      on_match_error T_Missing_Field (\<lambda>e. Inl (make_rejection (payload_what e) packet)),
      on_match_error T_Parser_Error (\<lambda>e. Inl (make_rejection (payload_what e) packet)),
      on_lab_error (\<lambda>err. Inl \<lparr>rj_raw_payload = packet, rj_reason = carrier_what err\<rparr>),
      on_exception (\<lambda>what. Inl \<lparr>rj_raw_payload = packet, rj_reason = what\<rparr>),
      on_anything (Inl \<lparr>rj_raw_payload = packet, rj_reason = ''unknown decoder failure''\<rparr>)]"

text \<open>What the decoder's call is to leaf; \<open>loc\<close> is where its error was made.\<close>

fun decoder_failure :: "source_location \<Rightarrow> decoder_outcome \<Rightarrow> (rejection + request) leaf_result" where
  "decoder_failure loc (Returned (Inr r)) = Inr (Inr r)"
| "decoder_failure loc (Returned (Inl e)) = new_leaf_error e loc"
| "decoder_failure loc (Threw_Exception what) = Inl (Exception_Failure what)"
| "decoder_failure loc Threw_Unknown = Inl Other_Failure"

lemma session_handlers_first:
  "(case decoder_failure loc (decode packet) of Inr x \<Rightarrow> Some x | Inl f \<Rightarrow> run_handlers (session_handlers packet) f) =
     Some (packet_outcome decode packet)"
proof (cases "decode packet")
  case (Returned r)
  show ?thesis
  proof (cases r)
    case (Inl e)
    show ?thesis
      by (cases e) (simp_all add: Returned Inl session_handlers_def new_leaf_error_def packet_outcome_def
        match_error_def match_value_def data_def is_type_def make_error_def make_rejection_def carrier_what_def
        carrier_error_code_def error_what_def)
  qed (simp add: Returned packet_outcome_def)
qed (simp_all add: session_handlers_def packet_outcome_def on_anything_def make_rejection_def)

text \<open>
  C40: The handlers of the session, given to leaf with the carrier the decoder's error travels in,
  yield for every decoder and every way it can fail exactly the outcome the session is modelled
  with: a structured error is recovered from the type-erased carrier unchanged and gives its own
  text, any other error its full text, an exception its own, and no failure is left unhandled.
\<close>
theorem session_handlers_complete:
  assumes "leaf_law handle_all"
  shows "handle_all (decoder_failure loc (decode packet)) (session_handlers packet) = packet_outcome decode packet \<and>
   (\<forall>T e. data T (make_error e loc) = Some e \<longleftrightarrow> dynamic_type e = T)"
  using session_handlers_first [where loc = loc and decode = decode and packet = packet]
  by (auto simp: leaf_lawD [OF assms] data_Some make_error_def split: sum.splits)

lemma session_handlers_complete_witness:
  "first_match (decoder_failure \<lparr>loc_file = ''json_decoder.cpp'', loc_line = 30\<rparr> (Returned (Inl (Missing_Field ''symbol''))))
     (session_handlers ''{}'') = Inl \<lparr>rj_raw_payload = ''{}'', rj_reason = payload_what (Missing_Field ''symbol'')\<rparr>"
  using session_handlers_complete [OF leaf_law_first_match, of _ "\<lambda>_. Returned (Inl (Missing_Field ''symbol''))" "''{}''"]
  by (simp add: packet_outcome_def make_rejection_def)

end
