(* ===== verification/Market_Data_Publisher.thy ===== *)
theory Market_Data_Publisher
  imports Pipeline_Shutdown Leaf
begin

text \<open>
  Where the records go: the publisher (\<open>market_data/src/publisher.cpp\<close>), its composer
  (\<open>market_data/src/runtime/publisher.cpp\<close>) and the sink that writes to standard output
  (\<open>market_data/src/spdlog_sink.cpp\<close>). The spdlog library is a parameter with its documented rule.
\<close>

section \<open>The sink\<close>

datatype spdlog_level = Spd_Trace | Spd_Debug | Spd_Info | Spd_Warn | Spd_Err | Spd_Critical | Spd_Off

record spdlog_logger =
  sl_name :: string
  sl_pattern :: string
  sl_level :: spdlog_level
  sl_flush_on :: spdlog_level

text \<open>
  The library: what a call of a logger on standard output puts there. Under the pattern \<open>%v\<close>, at a
  level that is not filtered out and is flushed, that is the text and an end of line.
\<close>

type_synonym spdlog = "spdlog_logger \<Rightarrow> spdlog_level \<Rightarrow> string \<Rightarrow> string"

definition spdlog_law :: "spdlog \<Rightarrow> bool" where
  "spdlog_law log \<longleftrightarrow> (\<forall>lg level text. sl_pattern lg = ''%v'' \<and> sl_level lg = level \<and> sl_flush_on lg = level \<longrightarrow>
     log lg level text = text @ newline)"

definition spdlog_sink_init :: spdlog_logger where
  "spdlog_sink_init = \<lparr>sl_name = ''market_data'', sl_pattern = ''%v'', sl_level = Spd_Info, sl_flush_on = Spd_Info\<rparr>"

definition spdlog_sink_write :: "spdlog \<Rightarrow> string \<Rightarrow> string \<Rightarrow> string" where
  "spdlog_sink_write log record out = out @ log spdlog_sink_init Spd_Info record"

section \<open>The publisher\<close>

text \<open>An encoder maps messages to records, a sink a record and what was written before to what is written after.\<close>

type_synonym md_encoder = "message \<Rightarrow> string"
type_synonym md_sink = "string \<Rightarrow> string \<Rightarrow> string"

definition publisher_send :: "md_encoder \<Rightarrow> md_sink \<Rightarrow> message \<Rightarrow> string \<Rightarrow> string" where
  "publisher_send msg_encoder output_sink msg out = output_sink (msg_encoder msg) out"

fun setup_encoder :: "('j, 'z) json_lib_scheme \<Rightarrow> encoder_config \<Rightarrow> md_encoder" where
  "setup_encoder L Json_Encoder_Config = md_encode L"

fun setup_sink :: "spdlog \<Rightarrow> sink_config \<Rightarrow> md_sink" where
  "setup_sink log Spdlog_Sink_Config = spdlog_sink_write log"

definition runtime_publisher_send ::
  "('j, 'z) json_lib_scheme \<Rightarrow> spdlog \<Rightarrow> publisher_config \<Rightarrow> message \<Rightarrow> string \<Rightarrow> string" where
  "runtime_publisher_send L log config msg out =
     publisher_send (setup_encoder L (pc_encoder config)) (setup_sink log (pc_sink config)) msg out"

section \<open>Standard output of the running server\<close>

text \<open>What the sink has left there after the records of a state.\<close>

definition standard_output :: "spdlog \<Rightarrow> pipeline \<Rightarrow> string" where
  "standard_output log st = fold (spdlog_sink_write log) (pl_records st) []"

lemma runtime_publisher_send_eq:
  "runtime_publisher_send L log config msg out = spdlog_sink_write log (md_encode L msg) out"
  by (cases "pc_encoder config"; cases "pc_sink config") (simp add: runtime_publisher_send_def publisher_send_def)

text \<open>The output thread's step is the publisher, called for the tasks it runs; no other step writes.\<close>

lemma output_thread_publishes:
  assumes "pipeline_step L a st st'"
  shows "standard_output log st' =
    (if a = Output_Thread
     then fold (runtime_publisher_send L log config) (tasks_run (ap_output (pl_app st)) (ap_output (pl_app st'))) (standard_output log st)
     else standard_output log st)"
proof -
  have sends: "fold (runtime_publisher_send L log config) ms out = fold (spdlog_sink_write log) (map (md_encode L) ms) out" for ms out
    by (induction ms arbitrary: out) (simp_all add: runtime_publisher_send_eq)
  from assms show ?thesis
    by (cases rule: pipeline_step.cases) (simp_all add: standard_output_def sends on_datagram_eq)
qed

text \<open>Documents are dumped without an end of line inside; every record can be read back as a line.\<close>

definition one_line_law :: "('j, 'z) json_lib_scheme \<Rightarrow> bool" where
  "one_line_law L \<longleftrightarrow> (\<forall>v. CHR 0x0A \<notin> set (js_dump L v))"

lemma get_lines_line: "CHR 0x0A \<notin> set r \<Longrightarrow> get_lines line (r @ newline @ rest) = (line @ r) # get_lines [] rest"
  by (induction r arbitrary: line) (auto simp: newline_def)

lemma written_lines:
  assumes "spdlog_law log"
  shows "fold (spdlog_sink_write log) rs out = out @ concat (map (\<lambda>r. r @ newline) rs)"
proof -
  have "log spdlog_sink_init Spd_Info s = s @ newline" for s
    using assms [unfolded spdlog_law_def, rule_format, of spdlog_sink_init Spd_Info s] by (simp add: spdlog_sink_init_def)
  then show ?thesis by (induction rs arbitrary: out) (simp_all add: spdlog_sink_write_def)
qed

lemma standard_output_lines:
  assumes "spdlog_law log" "one_line_law L" "pl_records st = map (md_encode L) ms"
  shows "get_lines [] (standard_output log st) = map (md_encode L) ms"
proof -
  have "CHR 0x0A \<notin> set (md_encode L m)" for m using assms(2) by (simp add: md_encode_def one_line_law_def)
  then have "get_lines [] (concat (map (\<lambda>r. r @ newline) (map (md_encode L) ms))) = map (md_encode L) ms"
    by (induction ms) (simp_all add: get_lines_line)
  then show ?thesis by (simp add: standard_output_def written_lines [OF assms(1)] assms(3))
qed

definition sample_spdlog :: spdlog where
  "sample_spdlog lg level text = text @ newline"

lemma sample_spdlog_law: "spdlog_law sample_spdlog"
  by (simp add: spdlog_law_def sample_spdlog_def)

lemma sample_one_line_law: "one_line_law sample_json"
  by (simp add: one_line_law_def sample_one_line)

end
