(* ===== verification/Client_Main.thy ===== *)
theory Client_Main
  imports Config Order_Entry_Session
begin

text \<open>
  The client program (\<open>client/src/main.cpp\<close>) with its configuration (\<open>order_client/client.hpp\<close>,
  \<open>udp_sender.hpp\<close>): it reads commands, one JSON document per line, from a file or standard input,
  decodes each with the server's own decoder and sends it as a datagram.
\<close>

section \<open>Configuration\<close>

record udp_sender_config =
  usc_endpoint :: endpoint_config
  usc_max_datagram_size :: u64

definition udp_sender_config_to_json :: "('j, 'z) config_lib_scheme \<Rightarrow> udp_sender_config \<Rightarrow> 'j" where
  "udp_sender_config_to_json L c = write_described_object L
     [(''endpoint'', endpoint_to_json L (usc_endpoint c)),
      (''max_datagram_size'', js_number L (usc_max_datagram_size c))]"

definition udp_sender_config_from_json :: "('j, 'z) config_lib_scheme \<Rightarrow> 'j \<Rightarrow> string + udp_sender_config" where
  "udp_sender_config_from_json L = read_described_object L [''endpoint'', ''max_datagram_size''] (\<lambda>j.
     rbind (read_field L (endpoint_from_json L) j ''endpoint'') (\<lambda>endpoint.
     rbind (read_field L (js_get_unsigned L) j ''max_datagram_size'') (\<lambda>n.
     Inr \<lparr>usc_endpoint = endpoint, usc_max_datagram_size = n\<rparr>)))"

text \<open>\<open>client_config\<close> has one member, the sender's configuration.\<close>

record client_config =
  cc_sender :: udp_sender_config

definition default_client_config :: client_config where
  "default_client_config =
     \<lparr>cc_sender = \<lparr>usc_endpoint = \<lparr>ep_address = ''127.0.0.1'', ep_port = 1234\<rparr>, usc_max_datagram_size = 65535\<rparr>\<rparr>"

definition client_config_to_json :: "('j, 'z) config_lib_scheme \<Rightarrow> client_config \<Rightarrow> 'j" where
  "client_config_to_json L c = write_described_object L [(''sender'', udp_sender_config_to_json L (cc_sender c))]"

text \<open>A \<open>sender\<close> member hides the short form with \<open>endpoint\<close> and \<open>max_datagram_size\<close> beside it.\<close>

definition client_config_from_json :: "('j, 'z) config_lib_scheme \<Rightarrow> client_config \<Rightarrow> 'j \<Rightarrow> string + client_config" where
  "client_config_from_json L config j =
     (if json_contains L j ''sender''
      then rbind (read_field L (udp_sender_config_from_json L) j ''sender'') (\<lambda>s. Inr (config\<lparr>cc_sender := s\<rparr>))
      else
        rbind (read_defaulted_field L (endpoint_from_json L) j ''endpoint'' (usc_endpoint (cc_sender config))) (\<lambda>endpoint.
        rbind (read_defaulted_field L (js_get_unsigned L) j ''max_datagram_size'' (usc_max_datagram_size (cc_sender config))) (\<lambda>n.
        Inr (config\<lparr>cc_sender := \<lparr>usc_endpoint = endpoint, usc_max_datagram_size = n\<rparr>\<rparr>))))"

datatype input_config =
    Stdin_Input_Config
  | File_Input_Config string

fun input_config_to_json :: "('j, 'z) config_lib_scheme \<Rightarrow> input_config \<Rightarrow> 'j" where
  "input_config_to_json L Stdin_Input_Config = js_object L (write_member ''type'' (js_string L ''stdin'') [])"
| "input_config_to_json L (File_Input_Config path) = js_object L
     (write_member ''type'' (js_string L ''file'') [(''path'', js_string L path)])"

definition input_config_from_json :: "('j, 'z) config_lib_scheme \<Rightarrow> 'j \<Rightarrow> string + input_config" where
  "input_config_from_json L j =
     rbind (read_type L j) (\<lambda>type.
       if type = ''stdin'' then Inr Stdin_Input_Config
       else if type = ''file''
       then rbind (read_field L (js_get_string L) j ''path'') (\<lambda>path. Inr (File_Input_Config path))
       else Inl (''unknown client input type '' @ quoted_name type))"

record client_app_config =
  cac_order_client :: client_config
  cac_input :: input_config

definition client_app_config_to_json :: "('j, 'z) config_lib_scheme \<Rightarrow> client_app_config \<Rightarrow> 'j" where
  "client_app_config_to_json L c = write_described_object L
     [(''order_client'', client_config_to_json L (cac_order_client c)), (''input'', input_config_to_json L (cac_input c))]"

definition client_app_config_from_json :: "('j, 'z) config_lib_scheme \<Rightarrow> 'j \<Rightarrow> string + client_app_config" where
  "client_app_config_from_json L = read_described_object L [''order_client'', ''input''] (\<lambda>j.
     rbind (read_field L (client_config_from_json L default_client_config) j ''order_client'') (\<lambda>order_client.
     rbind (read_field L (input_config_from_json L) j ''input'') (\<lambda>input.
     Inr \<lparr>cac_order_client = order_client, cac_input = input\<rparr>)))"

lemma udp_sender_config_round_trip [config_round_trip]:
  "config_laws L \<Longrightarrow> udp_sender_config_from_json L (udp_sender_config_to_json L c) = Inr c"
  by (simp add: udp_sender_config_from_json_def udp_sender_config_to_json_def config_read config_values config_round_trip)

lemma client_config_round_trip [config_round_trip]:
  "config_laws L \<Longrightarrow> client_config_from_json L d (client_config_to_json L c) = Inr c"
  by (simp add: client_config_from_json_def client_config_to_json_def json_contains_def find_object config_read config_values
      config_round_trip)

lemma input_config_round_trip [config_round_trip]:
  "config_laws L \<Longrightarrow> input_config_from_json L (input_config_to_json L c) = Inr c"
  by (cases c) (simp_all add: input_config_from_json_def config_read config_values config_round_trip)

lemma client_app_config_round_trip:
  "config_laws L \<Longrightarrow> client_app_config_from_json L (client_app_config_to_json L c) = Inr c"
  by (simp add: client_app_config_from_json_def client_app_config_to_json_def config_read config_values config_round_trip)

section \<open>Arguments and input\<close>

text \<open>\<open>argv\<close> includes the program's name. An empty path means that help was asked for.\<close>

definition parse_config_path :: "string list \<Rightarrow> string result" where
  "parse_config_path argv =
     (if length argv = 2
      then (if argv ! 1 = ''--help'' \<or> argv ! 1 = ''-h'' then Inr [] else Inr (argv ! 1))
      else make_leaf_error (Lab_Code Code_Configuration_Error) ''expected one config file path'')"

fun input_path :: "input_config \<Rightarrow> string option" where
  "input_path (File_Input_Config path) = Some path"
| "input_path Stdin_Input_Config = None"

text \<open>
  \<open>send_commands\<close> on the lines \<open>getline\<close> returns. The network may answer differently at each line:
  \<open>nets i\<close> are its answers at line \<open>i\<close>.
\<close>

fun send_commands ::
  "('j, 'z) json_lib_scheme \<Rightarrow> (string \<Rightarrow> string + 'a) \<Rightarrow> (nat \<Rightarrow> 'a network_answers) \<Rightarrow> nat \<Rightarrow> string list \<Rightarrow> 'a udp_sender \<Rightarrow>
   unit result \<times> 'a udp_sender" where
  "send_commands L make_address nets i [] st = (Inr (), st)"
| "send_commands L make_address nets i (line # lines) st =
     (if line = [] then send_commands L make_address nets (Suc i) lines st
      else (case json_decode L 65535 line of
              Inl e \<Rightarrow> (Inl e, st)
            | Inr request \<Rightarrow>
                (case client_send L make_address (nets i) request st of
                   (Inl e, st) \<Rightarrow> (Inl e, st)
                 | (Inr _, st) \<Rightarrow> send_commands L make_address nets (Suc i) lines st)))"

definition client_of_config :: "client_config \<Rightarrow> 'a \<times> u16 \<Rightarrow> 'a udp_sender" where
  "client_of_config c unset =
     udp_sender_init (ep_address (usc_endpoint (cc_sender c))) (ep_port (usc_endpoint (cc_sender c)))
       (unat (usc_max_datagram_size (cc_sender c))) unset"

definition run_client ::
  "('j, 'z) json_lib_scheme \<Rightarrow> (string \<Rightarrow> string + 'a) \<Rightarrow> (nat \<Rightarrow> 'a network_answers) \<Rightarrow> 'a \<times> u16 \<Rightarrow> files \<Rightarrow> string \<Rightarrow>
   client_app_config \<Rightarrow> unit result \<times> 'a udp_sender" where
  "run_client L make_address nets unset fs stdin config =
     (let client = client_of_config (cac_order_client config) unset
      in (case client_connect make_address (nets 0) client of
            (Inl e, client) \<Rightarrow> (Inl e, client)
          | (Inr _, client) \<Rightarrow>
              (case input_path (cac_input config) of
                 Some path \<Rightarrow>
                   (case fs path of
                      None \<Rightarrow> (make_leaf_error (Lab_Code Code_Configuration_Error) ''could not open input file'', client)
                    | Some contents \<Rightarrow> send_commands L make_address nets 1 (get_lines [] contents) client)
               | None \<Rightarrow> send_commands L make_address nets 1 (get_lines [] stdin) client)))"

text \<open>\<open>main\<close>, up to the exit status and the client that was run, if one was.\<close>

definition client_main ::
  "('j, 'z) config_lib_scheme \<Rightarrow> (string \<Rightarrow> string + 'a) \<Rightarrow> (nat \<Rightarrow> 'a network_answers) \<Rightarrow> 'a \<times> u16 \<Rightarrow> files \<Rightarrow> string \<Rightarrow>
   string list \<Rightarrow> int \<times> 'a udp_sender option" where
  "client_main L make_address nets unset fs stdin argv =
     (case parse_config_path argv of
        Inl e \<Rightarrow> (1, None)
      | Inr config_path \<Rightarrow>
          (if config_path = [] then (0, None)
           else (case read_from_file L fs (client_app_config_from_json L) config_path True of
                   Inl e \<Rightarrow> (1, None)
                 | Inr config \<Rightarrow>
                     (case run_client L make_address nets unset fs stdin config of
                        (Inl e, client) \<Rightarrow> (1, Some client)
                      | (Inr _, client) \<Rightarrow> (0, Some client)))))"

section \<open>From the commands to the server\<close>

text \<open>The requests a list of lines denotes.\<close>

definition command_requests :: "('j, 'z) json_lib_scheme \<Rightarrow> string list \<Rightarrow> request list" where
  "command_requests L lines = map (\<lambda>l. projr (json_decode L 65535 l)) (filter (\<lambda>l. l \<noteq> []) lines)"

lemma client_send_reaches:
  assumes "json_laws L" "request_json_ok r" "sender_ok mk st" "client_send L mk net r st = (Inr u, st')"
    and "us_max_datagram_size st \<le> n"
  shows "(\<exists>d. us_sent st' = us_sent st @ [d] \<and> json_session L n (snd d) = [On_Request r]) \<and>
    sender_ok mk st' \<and> us_max_datagram_size st' = us_max_datagram_size st"
  using client_reaches_session [of L r mk st net st' n] assms
    udp_send_ok [OF assms(4) [unfolded client_send_def] assms(3)] by auto

lemma send_commands_reach:
  assumes "json_laws L"
  shows "send_commands L mk nets i lines st = (Inr u, st') \<Longrightarrow> sender_ok mk st \<Longrightarrow> us_max_datagram_size st \<le> n \<Longrightarrow>
    list_all request_json_ok (command_requests L lines) \<Longrightarrow>
    \<exists>ds. us_sent st' = us_sent st @ ds \<and>
      map (\<lambda>d. json_session L n (snd d)) ds = map (\<lambda>r. [On_Request r]) (command_requests L lines)"
proof (induction lines arbitrary: i st)
  case Nil
  then show ?case by (simp add: command_requests_def)
next
  case (Cons line lines)
  show ?case
  proof (cases "line = []")
    case True
    with Cons show ?thesis by (simp add: command_requests_def)
  next
    case False
    from Cons.prems(1) False obtain r where r: "json_decode L 65535 line = Inr r"
      by (auto split: sum.splits)
    from Cons.prems(1) False r obtain st1 v where s: "client_send L mk (nets i) r st = (Inr v, st1)"
      "send_commands L mk nets (Suc i) lines st1 = (Inr u, st')"
      by (auto split: prod.splits sum.splits)
    have rs: "command_requests L (line # lines) = r # command_requests L lines"
      using False r by (simp add: command_requests_def)
    from Cons.prems(4) have ok: "request_json_ok r" "list_all request_json_ok (command_requests L lines)"
      by (simp_all add: rs)
    from client_send_reaches [OF assms ok(1) Cons.prems(2) s(1) Cons.prems(3)] obtain d where
      d: "us_sent st1 = us_sent st @ [d]" "json_session L n (snd d) = [On_Request r]"
      "sender_ok mk st1" "us_max_datagram_size st1 = us_max_datagram_size st" by blast
    from Cons.IH [OF s(2) d(3) _ ok(2)] Cons.prems(3) d(4) obtain ds where
      "us_sent st' = us_sent st1 @ ds"
      "map (\<lambda>d. json_session L n (snd d)) ds = map (\<lambda>r. [On_Request r]) (command_requests L lines)" by auto
    then show ?thesis by (intro exI [of _ "d # ds"]) (simp add: d rs)
  qed
qed

lemma client_of_config_ok: "sender_ok mk (client_of_config c unset)" "us_sent (client_of_config c unset) = []"
  "us_max_datagram_size (client_of_config c unset) = unat (usc_max_datagram_size (cc_sender c))"
  by (simp_all add: client_of_config_def udp_sender_init_def sender_ok_def)

text \<open>
  When a client run on a command file succeeds, the datagrams it sent are, one for one and in
  order, read by the server's session as exactly the requests the non-empty lines of the file
  denote; no command is lost, doubled or reordered on the client's side.
\<close>
lemma client_commands_reach_server:
  assumes "json_laws L" "cac_input config = File_Input_Config path" "fs path = Some contents"
    and "run_client L make_address nets unset fs stdin config = (Inr (), client)"
    and "list_all request_json_ok (command_requests L (get_lines [] contents))"
    and "unat (usc_max_datagram_size (cc_sender (cac_order_client config))) \<le> n"
  shows "concat (map (\<lambda>d. json_session L n (snd d)) (us_sent client)) =
      map On_Request (command_requests L (get_lines [] contents)) \<and>
    length (us_sent client) = length (command_requests L (get_lines [] contents))"
proof -
  let ?c0 = "client_of_config (cac_order_client config) unset"
  obtain r c1 where connect: "client_connect make_address (nets 0) ?c0 = (r, c1)"
    by (cases "client_connect make_address (nets 0) ?c0")
  note c1 = udp_connect_ok [OF connect [unfolded client_connect_def] client_of_config_ok(1)]
  from assms(2-4) connect obtain u where "r = Inr u"
    and send: "send_commands L make_address nets 1 (get_lines [] contents) c1 = (Inr (), client)"
    by (cases r) (auto simp: run_client_def)
  have "us_max_datagram_size c1 \<le> n" using c1 assms(6) by (simp add: client_of_config_ok)
  from send_commands_reach [OF assms(1) send _ this assms(5)] c1 obtain ds where
    ds: "us_sent client = ds"
    "map (\<lambda>d. json_session L n (snd d)) ds = map (\<lambda>r. [On_Request r]) (command_requests L (get_lines [] contents))"
    by (auto simp: client_of_config_ok)
  have "concat (map (\<lambda>r. [On_Request r]) rs) = map On_Request rs" for rs by (induction rs) simp_all
  with ds show ?thesis by (metis length_map)
qed

definition sample_client_config :: client_app_config where
  "sample_client_config = \<lparr>cac_order_client = default_client_config, cac_input = File_Input_Config ''commands''\<rparr>"

definition sample_command :: "request \<Rightarrow> string" where
  "sample_command r = client_encode sample_json r"

definition sample_cancel_command :: request where
  "sample_cancel_command = Cancel_Order \<lparr>co_client_id = 1, co_cl_ord_id = 2, co_orig_cl_ord_id = 3\<rparr>"

definition sample_commands :: string where
  "sample_commands = sample_command Flush @ [CHR 0x0A, CHR 0x0A] @ sample_command sample_cancel_command"

lemma sample_lines: "get_lines [] sample_commands = [sample_command Flush, [], sample_command sample_cancel_command]"
  by code_simp

lemma sample_command_length: "length (sample_command Flush) \<le> 100" "length (sample_command sample_cancel_command) \<le> 100"
  "sample_command Flush \<noteq> []" "sample_command sample_cancel_command \<noteq> []"
  by code_simp+

lemma sample_decode:
  "json_decode sample_json 65535 (sample_command Flush) = Inr Flush"
  "json_decode sample_json 65535 (sample_command sample_cancel_command) = Inr sample_cancel_command"
  using decode_document_encode [OF sample_json_laws, of Flush] decode_document_encode [OF sample_json_laws, of sample_cancel_command]
    sample_command_length
  by (simp_all add: json_decode_def sample_command_def sample_cancel_command_def)

lemma client_commands_reach_server_witness:
  "concat (map (\<lambda>d. json_session sample_json 65535 (snd d))
     (us_sent (snd (run_client sample_json (\<lambda>s. Inr s) (\<lambda>_. \<lparr>na_open_error = \<lambda>_. None, na_send_error = \<lambda>_ _. None\<rparr>)
        ([], 0) [''commands'' \<mapsto> sample_commands] [] sample_client_config)))) =
   [On_Request Flush, On_Request sample_cancel_command]"
proof -
  let ?nets = "\<lambda>_::nat. \<lparr>na_open_error = \<lambda>_. None, na_send_error = \<lambda>_ _. None\<rparr> :: string network_answers"
  let ?run = "run_client sample_json (\<lambda>s. Inr s) ?nets ([], 0) [''commands'' \<mapsto> sample_commands] [] sample_client_config"
  have cfg: "cac_input sample_client_config = File_Input_Config ''commands''" by (simp add: sample_client_config_def)
  have "fst ?run = Inr ()"
    using sample_command_length sample_decode
    by (simp add: run_client_def sample_client_config_def client_of_config_def client_connect_def udp_connect_def
        parse_address_def udp_sender_init_def sample_lines client_send_def udp_send_def sample_command_def default_client_config_def)
  then have run: "?run = (Inr (), snd ?run)" by (metis prod.collapse)
  have rs: "command_requests sample_json (get_lines [] sample_commands) = [Flush, sample_cancel_command]"
    using sample_command_length sample_decode by (simp add: command_requests_def sample_lines)
  have ok: "list_all request_json_ok (command_requests sample_json (get_lines [] sample_commands))"
    by (simp add: rs sample_cancel_command_def)
  have limit: "unat (usc_max_datagram_size (cc_sender (cac_order_client sample_client_config))) \<le> 65535"
    by (simp add: sample_client_config_def default_client_config_def)
  have stored: "[''commands'' \<mapsto> sample_commands] ''commands'' = Some sample_commands" by simp
  from client_commands_reach_server [OF sample_json_laws cfg stored run ok limit] show ?thesis by (simp add: rs)
qed

end
