(* ===== verification/Server_Main.thy ===== *)
theory Server_Main
  imports Market_Data_Publisher Client_Main
begin

text \<open>
  The server program (\<open>server/src/main.cpp\<close>): its arguments, its configuration file, starting the
  application, the wait for a signal, \<open>stop\<close>, and the exit status; and the way of an order through
  both programs, from the client's command file to the records the server writes.
\<close>

section \<open>Up to the running application\<close>

text \<open>What \<open>main\<close> itself writes to standard output and standard error.\<close>

record terminal =
  tm_out :: string
  tm_err :: string

definition print_usage :: string where
  "print_usage = ''usage: server CONFIG_FILE'' @ newline"

text \<open>\<open>site\<close>: where in the sources an error was made.\<close>

type_synonym sites = "error \<Rightarrow> source_location"

definition at_site :: "sites \<Rightarrow> 'a result \<Rightarrow> 'a leaf_result" where
  "at_site site r = (case r of Inl e \<Rightarrow> new_leaf_error e (site e) | Inr x \<Rightarrow> Inr x)"

definition server_config_path :: "sites \<Rightarrow> string list \<Rightarrow> terminal \<Rightarrow> string leaf_result \<times> terminal" where
  "server_config_path site argv t =
     (if length argv = 2
      then let argument = argv ! 1
        in if argument = ''--help'' \<or> argument = ''-h''
           then (Inr [], t\<lparr>tm_out := tm_out t @ print_usage\<rparr>)
           else (Inr argument, t)
      else (at_site site (make_leaf_error (Lab_Code Code_Configuration_Error) ''expected one config file path''), t))"

text \<open>An exception out of \<open>start\<close> ends the block like an error does; \<open>what\<close> is its text.\<close>

definition start_result :: "sites \<Rightarrow> (fault \<Rightarrow> string) \<Rightarrow> (start_error + unit) \<Rightarrow> unit leaf_result" where
  "start_result site what r =
     (case r of
        Inl (Leaf_Error e) \<Rightarrow> new_leaf_error e (site e)
      | Inl (Thrown f) \<Rightarrow> Inl (Exception_Failure (what f))
      | Inr u \<Rightarrow> Inr u)"

text \<open>The block \<open>main\<close> tries, up to the wait: the exit status it returns early with, or the started application.\<close>

definition server_block ::
  "('j, 'z) config_lib_scheme \<Rightarrow> files \<Rightarrow> startup_answers \<Rightarrow> sites \<Rightarrow> (fault \<Rightarrow> string) \<Rightarrow> string list \<Rightarrow> terminal \<Rightarrow>
   (int + application) leaf_result \<times> terminal" where
  "server_block L fs ans site what argv t =
     (case server_config_path site argv t of
        (Inl f, t) \<Rightarrow> (Inl f, t)
      | (Inr config_path, t) \<Rightarrow>
          (if config_path = [] then (Inr (Inl 0), t)
           else
             (rbind (at_site site (read_from_file L fs (app_config_from_json L) config_path True)) (\<lambda>config.
                case application_start ans (application_init (make_runtime_config config)) of
                  (r, app) \<Rightarrow> rbind (start_result site what r) (\<lambda>_. Inr (Inr app))), t)))"

definition server_boot ::
  "((int + application) \<times> terminal) handling \<Rightarrow> ('j, 'z) config_lib_scheme \<Rightarrow> files \<Rightarrow> startup_answers \<Rightarrow> sites \<Rightarrow>
   (fault \<Rightarrow> string) \<Rightarrow> string list \<Rightarrow> (int + application) \<times> terminal" where
  "server_boot handle_all L fs ans site what argv =
     (case server_block L fs ans site what argv \<lparr>tm_out = [], tm_err = []\<rparr> of
        (r, t) \<Rightarrow>
          handle_all (rbind r (\<lambda>x. Inr (x, t)))
            (catch_all (tm_err t) (\<lambda>err. (Inl 1, t\<lparr>tm_err := err @ print_usage\<rparr>))))"

section \<open>How \<open>main\<close> ends before it waits\<close>

definition help_arguments :: "string set" where
  "help_arguments = {[], ''--help'', ''-h''}"

definition boots ::
  "('j, 'z) config_lib_scheme \<Rightarrow> files \<Rightarrow> startup_answers \<Rightarrow> string list \<Rightarrow> app_config \<Rightarrow> bool" where
  "boots L fs ans argv config \<longleftrightarrow> length argv = 2 \<and> argv ! 1 \<notin> help_arguments \<and>
     read_from_file L fs (app_config_from_json L) (argv ! 1) True = Inr config \<and>
     startable ans (make_runtime_config config)"

lemma boot_cases:
  assumes "leaf_law handle_all"
  obtains "length argv = 2" "argv ! 1 \<in> help_arguments"
    "server_boot handle_all L fs ans site what argv = (Inl 0, \<lparr>tm_out = (if argv ! 1 = [] then [] else print_usage), tm_err = []\<rparr>)"
  | config app where "boots L fs ans argv config" "ready app" "ap_config app = make_runtime_config config"
    "server_boot handle_all L fs ans site what argv = (Inr app, \<lparr>tm_out = [], tm_err = []\<rparr>)"
  | f where "length argv = 2 \<longrightarrow> argv ! 1 \<notin> help_arguments" "\<nexists>config. boots L fs ans argv config"
    "server_boot handle_all L fs ans site what argv = (Inl 1, \<lparr>tm_out = [], tm_err = failure_line f @ print_usage\<rparr>)"
proof -
  note defs = server_boot_def server_block_def server_config_path_def try_catch_all [OF assms] help_arguments_def
  show thesis
  proof (cases "length argv = 2")
    case False
    then show thesis
      by (intro that(3) [of "Lab_Failure (make_error (Generic_Error (Lab_Code Code_Configuration_Error) (Some ''expected one config file path''))
          (site (Generic_Error (Lab_Code Code_Configuration_Error) (Some ''expected one config file path''))))"])
        (simp_all add: defs at_site_def make_leaf_error_def new_leaf_error_def boots_def)
  next
    case two: True
    show thesis
    proof (cases "argv ! 1 \<in> help_arguments")
      case True
      with two show thesis by (intro that(1)) (auto simp: defs)
    next
      case path: False
      show thesis
      proof (cases "read_from_file L fs (app_config_from_json L) (argv ! 1) True")
        case (Inl e)
        with two path show thesis
          by (intro that(3) [of "Lab_Failure (make_error e (site e))"]) (simp_all add: defs at_site_def new_leaf_error_def boots_def)
      next
        case (Inr config)
        obtain r app where start: "application_start ans (application_init (make_runtime_config config)) = (r, app)"
          by (metis prod.collapse)
        note sc = start_cases [OF start]
        show thesis
        proof (cases r)
          case (Inr u)
          with two path \<open>read_from_file L fs _ _ _ = _\<close> sc start show thesis
            by (intro that(2) [of config app]) (simp_all add: defs at_site_def boots_def start_result_def)
        next
          case err: (Inl e)
          with sc Inr have "\<nexists>config. boots L fs ans argv config" by (auto simp: boots_def)
          with two path Inr err start show thesis
            by (cases e; intro that(3) [of "case e of Leaf_Error e \<Rightarrow> Lab_Failure (make_error e (site e)) | Thrown f \<Rightarrow> Exception_Failure (what f)"])
              (simp_all add: defs at_site_def start_result_def new_leaf_error_def)
        qed
      qed
    qed
  qed
qed

text \<open>
  C21: \<open>main\<close> comes to run a server exactly when it is given one path that is not a request for help,
  the file is read and accepted, and the application can be started with it; then every stage is
  in place and \<open>main\<close> has written nothing. It returns success without starting anything exactly for
  a request for help or an empty path. In every other case it returns failure, having written
  exactly one diagnostic line and the usage to standard error.
\<close>
theorem server_main_outcome:
  fixes L :: "('j, 'z) config_lib_scheme"
  assumes "leaf_law handle_all" and "server_boot handle_all L fs ans site what argv = (r, t)"
  shows "((\<exists>app. r = Inr app) \<longleftrightarrow> (\<exists>config. boots L fs ans argv config)) \<and>
    (\<forall>app. r = Inr app \<longrightarrow> ready app \<and> t = \<lparr>tm_out = [], tm_err = []\<rparr>) \<and>
    (r = Inl 0 \<longleftrightarrow> length argv = 2 \<and> argv ! 1 \<in> help_arguments) \<and>
    (r = Inl 0 \<longrightarrow> tm_err t = [] \<and> tm_out t = (if argv ! 1 = [] then [] else print_usage)) \<and>
    (\<forall>code. r = Inl code \<and> code \<noteq> 0 \<longrightarrow> code = 1 \<and> tm_out t = [] \<and> (\<exists>f. tm_err t = failure_line f @ print_usage))"
  by (rule boot_cases [OF assms(1), of argv L fs ans site what]) (use assms in \<open>auto simp: boots_def\<close>)

section \<open>The running process\<close>

text \<open>
  \<open>main\<close> polls \<open>g_stop_requested\<close>, which only the signal handler sets, and calls \<open>stop\<close> when it is set;
  it returns when \<open>stop\<close> has returned. The threads and the network go on meanwhile.
\<close>

record server_process =
  sp_stop_requested :: bool
  sp_pipeline :: pipeline
  sp_status :: "int option"

definition process_init :: "application \<Rightarrow> server_process" where
  "process_init app = \<lparr>sp_stop_requested = False, sp_pipeline = pipeline_init app, sp_status = None\<rparr>"

inductive process_step :: "('j, 'z) json_lib_scheme \<Rightarrow> server_process \<Rightarrow> server_process \<Rightarrow> bool"
  for L :: "('j, 'z) json_lib_scheme" where
  signal: "sp_status p = None \<Longrightarrow> process_step L p (p\<lparr>sp_stop_requested := True\<rparr>)"
| threads: "sp_status p = None \<Longrightarrow> a \<noteq> Stop_Caller \<Longrightarrow> pipeline_step L a (sp_pipeline p) st \<Longrightarrow>
    process_step L p (p\<lparr>sp_pipeline := st\<rparr>)"
| stopping: "sp_status p = None \<Longrightarrow> sp_stop_requested p \<Longrightarrow> pipeline_step L Stop_Caller (sp_pipeline p) st \<Longrightarrow>
    process_step L p (p\<lparr>sp_pipeline := st\<rparr>)"
| main_returns: "sp_status p = None \<Longrightarrow> sp_stop_requested p \<Longrightarrow> pl_control (sp_pipeline p) = Down \<Longrightarrow>
    process_step L p (p\<lparr>sp_status := Some 0\<rparr>)"

inductive_cases process_step_cases: "process_step L p p'"

inductive process_run :: "('j, 'z) json_lib_scheme \<Rightarrow> application \<Rightarrow> server_process \<Rightarrow> bool"
  for L :: "('j, 'z) json_lib_scheme" and app0 :: application where
  process_start: "ready app0 \<Longrightarrow> process_run L app0 (process_init app0)"
| process_more: "process_run L app0 p \<Longrightarrow> process_step L p p' \<Longrightarrow> process_run L app0 p'"

definition process_ok :: "('j, 'z) json_lib_scheme \<Rightarrow> application \<Rightarrow> server_process \<Rightarrow> bool" where
  "process_ok L app0 p \<longleftrightarrow> pipeline_run L app0 (sp_pipeline p) \<and>
     (\<not> sp_stop_requested p \<longrightarrow> pl_control (sp_pipeline p) = Up) \<and>
     (sp_status p \<noteq> None \<longrightarrow> sp_status p = Some 0 \<and> sp_stop_requested p \<and> pl_control (sp_pipeline p) = Down)"

lemma control_kept:
  assumes "pipeline_step L a st t" "a \<noteq> Stop_Caller"
  shows "pl_control t = pl_control st"
  using assms by (cases rule: pipeline_step.cases) (simp_all add: on_datagram_eq)

lemma process_step_ok:
  assumes "process_step L p p'" "process_ok L app0 p"
  shows "process_ok L app0 p'"
  using assms
proof (cases rule: process_step.cases)
  case (threads a st)
  with assms(2) control_kept [OF threads(4,3)] show ?thesis by (auto simp: process_ok_def intro: run_step)
qed (auto simp: process_ok_def intro: run_step)

lemma process_run_ok: "process_run L app0 p \<Longrightarrow> process_ok L app0 p"
proof (induction rule: process_run.induct)
  case process_start
  then show ?case by (auto simp: process_ok_def process_init_def pipeline_init_def intro: run_start [unfolded pipeline_init_def])
next
  case (process_more p p')
  with process_step_ok show ?case by blast
qed


section \<open>From the client's commands to the server's records\<close>

lemma requests_of_on_request [simp]: "requests_of (map On_Request rs) = rs"
  by (induction rs) simp_all

lemma rejections_of_on_request [simp]: "rejections_of (map On_Request rs) = []"
  by (induction rs) simp_all

lemma session_outputs_concat: "session_outputs L n (map snd ds) = concat (map (\<lambda>d. json_session L n (snd d)) ds)"
  by (simp add: session_outputs_def comp_def)


section \<open>A run of both programs\<close>

lemma process_of_pipeline:
  assumes "pipeline_run L app0 st"
  shows "process_run L app0 \<lparr>sp_stop_requested = True, sp_pipeline = st, sp_status = None\<rparr>"
  using assms
proof (induction rule: pipeline_run.induct)
  case run_start
  from process_more [OF process_start [OF run_start] signal] show ?case by (simp add: process_init_def)
next
  case (run_step st a st')
  let ?p = "\<lparr>sp_stop_requested = True, sp_pipeline = st, sp_status = None\<rparr>"
  have "process_step L ?p (?p\<lparr>sp_pipeline := st'\<rparr>)"
  proof (cases "a = Stop_Caller")
    case True
    with run_step.hyps(2) show ?thesis by (intro stopping) simp_all
  next
    case False
    with run_step.hyps(2) show ?thesis by (intro threads) simp_all
  qed
  from process_more [OF run_step.IH this] show ?case by simp
qed

lemma sample_exit:
  obtains p where "process_run sample_json sample_application p" "sp_status p = Some 0"
    "pl_read (sp_pipeline p) = [sample_datagram]"
proof -
  obtain st where st: "pipeline_run sample_json sample_application st" "pl_control st = Down" "pl_read st = [sample_datagram]"
    by (rule sample_stopped)
  let ?p = "\<lparr>sp_stop_requested = True, sp_pipeline = st, sp_status = None\<rparr>"
  from process_more [OF process_of_pipeline [OF st(1)] main_returns] st(2) have
    "process_run sample_json sample_application (?p\<lparr>sp_status := Some 0\<rparr>)" by simp
  with that [of "?p\<lparr>sp_status := Some 0\<rparr>"] st(3) show thesis by simp
qed

text \<open>A library whose files hold the sample configuration.\<close>

definition sample_file_lib :: "json_value config_lib" where
  "sample_file_lib = sample_config_lib\<lparr>js_parse_file := \<lambda>_ txt.
     if txt = ''sample'' then Inr (app_config_to_json sample_config_lib sample_app_config) else Inl ''syntax error''\<rparr>"

lemma config_laws_parse_file: "config_laws (L\<lparr>js_parse_file := g\<rparr>) = config_laws L"
proof -
  have "json_lib.truncate (L\<lparr>js_parse_file := g\<rparr>) = json_lib.truncate L" by (simp add: json_lib.truncate_def)
  then have "json_laws (L\<lparr>js_parse_file := g\<rparr>) = json_laws L" by (metis json_laws_truncate)
  then show ?thesis by (simp add: config_laws_def)
qed

lemma sample_file_boots:
  "boots sample_file_lib [''server.json'' \<mapsto> ''sample''] sample_answers [''server'', ''server.json''] sample_app_config"
proof -
  have laws: "config_laws sample_file_lib"
    using sample_config_laws by (simp add: sample_file_lib_def config_laws_parse_file)
  have "app_config_to_json sample_config_lib sample_app_config = app_config_to_json sample_file_lib sample_app_config"
    by code_simp
  with app_config_round_trip [OF laws sample_app_config_ok] have
    "app_config_from_json sample_file_lib (app_config_to_json sample_config_lib sample_app_config) = Inr sample_app_config" by simp
  then show ?thesis
    using sample_startable by (simp add: boots_def help_arguments_def read_from_file_def) (simp add: sample_file_lib_def)
qed

lemma server_main_outcome_witness:
  "\<exists>app. fst (server_boot first_match sample_file_lib [''server.json'' \<mapsto> ''sample''] sample_answers
     (\<lambda>_. \<lparr>loc_file = ''main.cpp'', loc_line = 1\<rparr>) (\<lambda>_. ''std::bad_alloc'') [''server'', ''server.json'']) = Inr app \<and> ready app"
proof -
  let ?boot = "server_boot first_match sample_file_lib [''server.json'' \<mapsto> ''sample''] sample_answers
     (\<lambda>_. \<lparr>loc_file = ''main.cpp'', loc_line = 1\<rparr>) (\<lambda>_. ''std::bad_alloc'') [''server'', ''server.json'']"
  have boot: "?boot = (fst ?boot, snd ?boot)" by simp
  from server_main_outcome [OF leaf_law_first_match boot] sample_file_boots show ?thesis by blast
qed

definition sample_order_commands :: client_app_config where
  "sample_order_commands = \<lparr>cac_order_client = default_client_config, cac_input = File_Input_Config ''orders''\<rparr>"

lemma sample_datagram_line: "get_lines [] sample_datagram = [sample_datagram]" "sample_datagram \<noteq> []"
  by code_simp+

lemma sample_datagram_decoded: "json_decode sample_json 65535 sample_datagram = Inr sample_pipeline_order"
proof -
  have "request_json_ok sample_pipeline_order"
    by (simp add: sample_pipeline_order_def sample_json_order_def symbol_ok_def exchange_ok_def symbol_size_def
        security_exchange_size_def ascii_def)
  from decode_document_encode [OF sample_json_laws this] sample_datagram_length show ?thesis
    by (simp add: json_decode_def sample_datagram_def)
qed



end
