(* ===== verification/Client_Process.thy ===== *)
theory Client_Process
  imports Server_Main
begin

text \<open>
  The client's \<open>main\<close> with its handlers and what it writes (\<open>client/src/main.cpp\<close>), and that it comes
  to the exit status of \<open>client_main\<close>.
\<close>

definition client_print_usage :: string where
  "client_print_usage = ''usage: client CONFIG_FILE'' @ newline"

definition client_config_path :: "sites \<Rightarrow> string list \<Rightarrow> terminal \<Rightarrow> string leaf_result \<times> terminal" where
  "client_config_path site argv t =
     (if length argv = 2
      then let argument = argv ! 1
        in if argument = ''--help'' \<or> argument = ''-h''
           then (Inr [], t\<lparr>tm_out := tm_out t @ client_print_usage\<rparr>)
           else (Inr argument, t)
      else (at_site site (make_leaf_error (Lab_Code Code_Configuration_Error) ''expected one config file path''), t))"

text \<open>The block \<open>main\<close> tries: the exit status, and the client as it was left, if one was made.\<close>

definition client_block ::
  "('j, 'z) config_lib_scheme \<Rightarrow> (string \<Rightarrow> string + 'a) \<Rightarrow> (nat \<Rightarrow> 'a network_answers) \<Rightarrow> 'a \<times> u16 \<Rightarrow> files \<Rightarrow> string \<Rightarrow>
   sites \<Rightarrow> string list \<Rightarrow> terminal \<Rightarrow> int leaf_result \<times> 'a udp_sender option \<times> terminal" where
  "client_block L make_address nets unset fs stdin site argv t =
     (case client_config_path site argv t of
        (Inl f, t) \<Rightarrow> (Inl f, None, t)
      | (Inr config_path, t) \<Rightarrow>
          (if config_path = [] then (Inr 0, None, t)
           else (case at_site site (read_from_file L fs (client_app_config_from_json L) config_path True) of
                   Inl f \<Rightarrow> (Inl f, None, t)
                 | Inr config \<Rightarrow>
                     (case run_client L make_address nets unset fs stdin config of
                        (r, client) \<Rightarrow> (rbind (at_site site r) (\<lambda>_. Inr 0), Some client, t)))))"

definition client_process ::
  "(int \<times> terminal) handling \<Rightarrow> ('j, 'z) config_lib_scheme \<Rightarrow> (string \<Rightarrow> string + 'a) \<Rightarrow> (nat \<Rightarrow> 'a network_answers) \<Rightarrow>
   'a \<times> u16 \<Rightarrow> files \<Rightarrow> string \<Rightarrow> sites \<Rightarrow> string list \<Rightarrow> int \<times> 'a udp_sender option \<times> terminal" where
  "client_process handle_all L make_address nets unset fs stdin site argv =
     (case client_block L make_address nets unset fs stdin site argv \<lparr>tm_out = [], tm_err = []\<rparr> of
        (r, client, t) \<Rightarrow>
          (case handle_all (rbind r (\<lambda>code. Inr (code, t)))
                  (catch_all (tm_err t) (\<lambda>err. (1, t\<lparr>tm_err := err @ client_print_usage\<rparr>))) of
             (code, t) \<Rightarrow> (code, client, t)))"

text \<open>
  The status and the client are those of \<open>client_main\<close>; a failure leaves one diagnostic line and the
  usage on standard error, a success nothing there.
\<close>
lemma client_process_main:
  assumes "leaf_law handle_all" "client_process handle_all L mk nets unset fs stdin site argv = (code, client, t)"
  shows "(code, client) = client_main L mk nets unset fs stdin argv"
    and "code = 0 \<longrightarrow> tm_err t = []" "code \<noteq> 0 \<longrightarrow> code = 1 \<and> (\<exists>f. tm_err t = failure_line f @ client_print_usage)"
  using assms(2)
  by (auto simp: client_process_def client_block_def client_config_path_def client_main_def parse_config_path_def
      try_catch_all [OF assms(1)] at_site_def make_leaf_error_def new_leaf_error_def Let_def
      split: if_splits sum.splits prod.splits)

end
