(* ===== verification/Receiver_Example.thy ===== *)
theory Receiver_Example
  imports Server_Main
begin

text \<open>
  The receiver's example program (\<open>lab/libs/network/examples/src/asio_udp_receiver_example.cpp\<close>): its
  arguments, the line it prints for a datagram, and its two threads as a step relation: \<open>main\<close>, and
  the thread that runs the \<open>io_context\<close> until no receive is outstanding.
\<close>

section \<open>Arguments and lines\<close>

record example_config =
  xc_address :: string
  xc_port :: u16

definition parse_args :: "string list \<Rightarrow> example_config result" where
  "parse_args argv =
     (let config = \<lparr>xc_address = ''127.0.0.1'', xc_port = 9001\<rparr>;
          config = (if length argv \<ge> 2 then config\<lparr>xc_address := argv ! 1\<rparr> else config)
      in if length argv \<ge> 3
         then (case std_from_chars (2 ^ 16) (argv ! 2) of
                 Inr (parsed_port, []) \<Rightarrow> Inr (config\<lparr>xc_port := of_nat parsed_port\<rparr>)
               | _ \<Rightarrow> make_leaf_error (Lab_Code Code_Configuration_Error) (''invalid port '' @ quoted_name (argv ! 2)))
         else Inr config)"

definition hex_digit :: "nat \<Rightarrow> char" where
  "hex_digit n = (if n < 10 then char_of (48 + n) else char_of (87 + n))"

definition hex_byte :: "char \<Rightarrow> string" where
  "hex_byte byte = [hex_digit (of_char byte div 16), hex_digit (of_char byte mod 16), CHR '' '']"

definition pad_left :: "nat \<Rightarrow> string \<Rightarrow> string" where
  "pad_left width s = replicate (width - length s) (CHR '' '') @ s"

definition preview_byte_count :: nat where
  "preview_byte_count = 32"

definition print_datagram :: "u64 \<Rightarrow> string \<Rightarrow> string" where
  "print_datagram sequence payload =
     ''datagram '' @ pad_left 6 (format_unsigned sequence) @ '': '' @ pad_left 5 (decimal (length payload)) @ '' bytes  '' @
     concat (map hex_byte (take preview_byte_count payload)) @
     (if length payload > preview_byte_count then ''...'' else []) @ newline"

section \<open>The threads\<close>

text \<open>
  The receiving thread waits for the outstanding receive, runs the handler of one that completed, or
  has returned because none is outstanding.
\<close>

datatype receive_thread = Receiving | Handling string | Returned_From_Run

datatype main_thread = Announcing nat | Awaiting_Enter | Joining | Ended

datatype printer = Main_Prints | Receiver_Prints

record example_state =
  xs_config :: example_config
  xs_thread :: receive_thread
  xs_main :: main_thread
  xs_received_count :: u64
  xs_out :: "(printer \<times> string) list"
  xs_handled :: "string list"

definition announcements :: "example_config \<Rightarrow> string list" where
  "announcements c =
     [''listening on '' @ xc_address c @ '':'' @ format_unsigned (xc_port c) @ newline,
      ''send datagrams with: echo -n hello | nc -u -w1 '' @ xc_address c @ '' '' @ format_unsigned (xc_port c) @ newline,
      ''press enter to stop'' @ newline]"

definition received_line :: "u64 \<Rightarrow> string" where
  "received_line n = ''received '' @ format_unsigned n @ '' datagram(s)'' @ newline"

definition example_init :: "example_config \<Rightarrow> example_state" where
  "example_init c = \<lparr>xs_config = c, xs_thread = Receiving, xs_main = Announcing 0, xs_received_count = 0, xs_out = [], xs_handled = []\<rparr>"

text \<open>\<open>on_datagram\<close>: counts and prints.\<close>

definition example_on_datagram :: "string \<Rightarrow> example_state \<Rightarrow> example_state" where
  "example_on_datagram bytes st =
     (let sequence = xs_received_count st + 1
      in st\<lparr>xs_received_count := sequence, xs_out := xs_out st @ [(Receiver_Prints, print_datagram sequence bytes)],
            xs_handled := xs_handled st @ [bytes]\<rparr>)"

text \<open>\<open>stop\<close> cancels a receive that is outstanding; while a handler runs there is none.\<close>

fun cancel_receive :: "receive_thread \<Rightarrow> receive_thread" where
  "cancel_receive Receiving = Returned_From_Run"
| "cancel_receive th = th"

inductive example_step :: "example_state \<Rightarrow> example_state \<Rightarrow> bool" where
  completed: "xs_thread st = Receiving \<Longrightarrow> example_step st (st\<lparr>xs_thread := Handling bytes\<rparr>)"
| failed: "xs_thread st = Receiving \<Longrightarrow> example_step st (st\<lparr>xs_thread := Returned_From_Run\<rparr>)"
| handled: "xs_thread st = Handling bytes \<Longrightarrow> example_step st ((example_on_datagram bytes st)\<lparr>xs_thread := Receiving\<rparr>)"
| announce: "xs_main st = Announcing i \<Longrightarrow> i < length (announcements (xs_config st)) \<Longrightarrow>
    example_step st (st\<lparr>xs_main := Announcing (Suc i), xs_out := xs_out st @ [(Main_Prints, announcements (xs_config st) ! i)]\<rparr>)"
| announced: "xs_main st = Announcing (length (announcements (xs_config st))) \<Longrightarrow> example_step st (st\<lparr>xs_main := Awaiting_Enter\<rparr>)"
| enter: "xs_main st = Awaiting_Enter \<Longrightarrow>
    example_step st (st\<lparr>xs_main := Joining, xs_thread := cancel_receive (xs_thread st)\<rparr>)"
| join: "xs_main st = Joining \<Longrightarrow> xs_thread st = Returned_From_Run \<Longrightarrow>
    example_step st (st\<lparr>xs_main := Ended, xs_out := xs_out st @ [(Main_Prints, received_line (xs_received_count st))]\<rparr>)"

inductive example_run :: "example_config \<Rightarrow> example_state \<Rightarrow> bool" for c :: example_config where
  example_start: "example_run c (example_init c)"
| example_more: "example_run c st \<Longrightarrow> example_step st st' \<Longrightarrow> example_run c st'"

text \<open>\<open>main\<close> up to the threads: the exit status and what was written to standard error, or the running program.\<close>

definition example_block :: "startup_answers \<Rightarrow> sites \<Rightarrow> string list \<Rightarrow> (int + example_state) leaf_result" where
  "example_block ans site argv =
     rbind (at_site site (parse_args argv)) (\<lambda>config.
       case asio_start ans (asio_init \<lparr>ep_address = xc_address config, ep_port = xc_port config\<rparr>) of
         (r, receiver) \<Rightarrow> rbind (at_site site r) (\<lambda>_. Inr (Inr (example_init config))))"

definition example_boot ::
  "((int + example_state) \<times> string) handling \<Rightarrow> startup_answers \<Rightarrow> sites \<Rightarrow> string list \<Rightarrow> (int + example_state) \<times> string" where
  "example_boot handle_all ans site argv =
     handle_all (rbind (example_block ans site argv) (\<lambda>x. Inr (x, []))) (catch_all [] (\<lambda>err. (Inl 1, err)))"

section \<open>What it prints\<close>

text \<open>The lines of the datagrams, numbered from one.\<close>

fun datagram_lines :: "u64 \<Rightarrow> string list \<Rightarrow> string list" where
  "datagram_lines n [] = []"
| "datagram_lines n (d # ds) = print_datagram (n + 1) d # datagram_lines (n + 1) ds"

lemma datagram_lines_snoc: "datagram_lines n (ds @ [d]) = datagram_lines n ds @ [print_datagram (n + of_nat (length ds) + 1) d]"
  by (induction ds arbitrary: n) (simp_all add: algebra_simps)

definition printed_by :: "printer \<Rightarrow> example_state \<Rightarrow> string list" where
  "printed_by p st = map snd (filter (\<lambda>x. fst x = p) (xs_out st))"

definition main_lines :: "example_state \<Rightarrow> string list" where
  "main_lines st =
     (case xs_main st of
        Announcing i \<Rightarrow> take i (announcements (xs_config st))
      | Ended \<Rightarrow> announcements (xs_config st) @ [received_line (xs_received_count st)]
      | _ \<Rightarrow> announcements (xs_config st))"

definition example_ok :: "example_config \<Rightarrow> example_state \<Rightarrow> bool" where
  "example_ok c st \<longleftrightarrow> xs_config st = c \<and> xs_received_count st = of_nat (length (xs_handled st)) \<and>
     printed_by Receiver_Prints st = datagram_lines 0 (xs_handled st) \<and> printed_by Main_Prints st = main_lines st \<and>
     (xs_main st = Ended \<longrightarrow> xs_thread st = Returned_From_Run)"

lemma example_step_ok: "example_step st st' \<Longrightarrow> example_ok c st \<Longrightarrow> example_ok c st'"
  by (induction rule: example_step.induct)
    (auto simp: example_ok_def printed_by_def main_lines_def example_on_datagram_def Let_def datagram_lines_snoc
      take_Suc_conv_app_nth split: main_thread.splits)

text \<open>
  However the threads interleave, the program prints a line for every datagram it handled, in order and
  numbered from one, and ends with their number; nothing is printed after it has ended.
\<close>
lemma example_prints:
  assumes "example_run c st"
  shows "printed_by Receiver_Prints st = datagram_lines 0 (xs_handled st)"
    "xs_main st = Ended \<Longrightarrow> printed_by Main_Prints st = announcements c @ [received_line (of_nat (length (xs_handled st)))]"
proof -
  have "example_ok c st"
    using assms
  proof (induction rule: example_run.induct)
    case example_start
    show ?case by (simp add: example_ok_def printed_by_def main_lines_def example_init_def)
  next
    case (example_more st st')
    with example_step_ok show ?case by blast
  qed
  then show "printed_by Receiver_Prints st = datagram_lines 0 (xs_handled st)"
    "xs_main st = Ended \<Longrightarrow> printed_by Main_Prints st = announcements c @ [received_line (of_nat (length (xs_handled st)))]"
    by (auto simp: example_ok_def main_lines_def)
qed

section \<open>Stopping\<close>

text \<open>
  The cancellation is lost when it comes while a handler runs: the handler posts the next receive and
  \<open>join\<close> waits for it. Only a receive error lets the program end then.
\<close>

lemma cancel_can_be_lost: "\<exists>st. example_run c st \<and> xs_main st = Joining \<and> xs_thread st = Receiving"
proof -
  let ?a = "\<lambda>i os. \<lparr>xs_config = c, xs_thread = Receiving, xs_main = Announcing i, xs_received_count = 0, xs_out = os, xs_handled = []\<rparr>"
  have 0: "example_run c (?a 0 [])" using example_start by (simp add: example_init_def)
  have len: "length (announcements c) = 3" by (simp add: announcements_def)
  have say: "\<exists>os'. example_run c (?a (Suc i) os')" if "example_run c (?a i os)" "i < 3" for i os
    using example_more [OF that(1) announce [of _ i]] that(2) len by auto
  obtain o1 where "example_run c (?a 1 o1)" using say [OF 0] by auto
  then obtain o2 where "example_run c (?a 2 o2)" using say [of 1 o1] by (auto simp: numeral_2_eq_2)
  then obtain o3 where "example_run c (?a 3 o3)" using say [of 2 o2] by (auto simp: numeral_3_eq_3 numeral_2_eq_2)
  from example_more [OF this announced] len have
    "example_run c ((?a 3 o3)\<lparr>xs_main := Awaiting_Enter\<rparr>)" by simp
  from example_more [OF this completed [of _ "[]"]] have
    "example_run c ((?a 3 o3)\<lparr>xs_main := Awaiting_Enter, xs_thread := Handling []\<rparr>)" by simp
  from example_more [OF this enter] have
    "example_run c ((?a 3 o3)\<lparr>xs_main := Joining, xs_thread := Handling []\<rparr>)" by simp
  from example_more [OF this handled] show ?thesis by (auto simp: example_on_datagram_def Let_def)
qed

lemma lost_cancel_waits:
  assumes "example_step st st'" "xs_main st = Joining" "xs_thread st \<noteq> Returned_From_Run"
  shows "xs_main st' = Joining \<and> (xs_thread st' \<noteq> Returned_From_Run \<or> st' = st\<lparr>xs_thread := Returned_From_Run\<rparr>)"
  using assms by (cases rule: example_step.cases) (auto simp: example_on_datagram_def Let_def)

end
