(* ===== verification/Logging.thy ===== *)
theory Logging
  imports Config
begin

text \<open>
  The logging facade (\<open>lab/log.hpp\<close>): the selected backend, the form of a line and where it goes. The
  process-wide logger is a state; the mutex around each access makes every operation one step.
  Market data goes to the standard output, which no backend writes.
\<close>

datatype log_level = Trace | Debug | Info | Warn | Error | Critical

fun log_level_text :: "log_level \<Rightarrow> string" where
  "log_level_text Trace = ''trace''"
| "log_level_text Debug = ''debug''"
| "log_level_text Info = ''info''"
| "log_level_text Warn = ''warn''"
| "log_level_text Error = ''error''"
| "log_level_text Critical = ''critical''"

datatype logger =
    Console_Logger
  | Null_Logger
  | File_Logger string

record log_state =
  lg_logger :: logger
  lg_stderr :: "string list"
  lg_files :: "string \<Rightarrow> string list"

definition log_init :: "(string \<Rightarrow> string list) \<Rightarrow> log_state" where
  "log_init fs = \<lparr>lg_logger = Console_Logger, lg_stderr = [], lg_files = fs\<rparr>"

text \<open>A file is opened for appending: what it holds stays.\<close>

fun install_logger :: "logger_config \<Rightarrow> log_state \<Rightarrow> log_state" where
  "install_logger Console_Logger_Config st = st\<lparr>lg_logger := Console_Logger\<rparr>"
| "install_logger Null_Logger_Config st = st\<lparr>lg_logger := Null_Logger\<rparr>"
| "install_logger (File_Logger_Config path) st = st\<lparr>lg_logger := File_Logger path\<rparr>"

definition format_log_line :: "log_level \<Rightarrow> string \<Rightarrow> nat \<Rightarrow> string \<Rightarrow> string" where
  "format_log_line level file_name line message =
     ''['' @ log_level_text level @ ''] '' @ file_name @ '':'' @ decimal line @ '' | '' @ message"

fun logger_write :: "logger \<Rightarrow> string \<Rightarrow> log_state \<Rightarrow> log_state" where
  "logger_write Console_Logger line st = st\<lparr>lg_stderr := lg_stderr st @ [line]\<rparr>"
| "logger_write Null_Logger line st = st"
| "logger_write (File_Logger path) line st = st\<lparr>lg_files := (lg_files st)(path := lg_files st path @ [line])\<rparr>"

definition log_message :: "log_level \<Rightarrow> string \<Rightarrow> nat \<Rightarrow> string \<Rightarrow> log_state \<Rightarrow> log_state" where
  "log_message level file_name line message st = logger_write (lg_logger st) (format_log_line level file_name line message) st"

definition log_all :: "(log_level \<times> string \<times> nat \<times> string) list \<Rightarrow> log_state \<Rightarrow> log_state" where
  "log_all calls st = fold (\<lambda>(level, file_name, line, message). log_message level file_name line message) calls st"

definition lines_of :: "(log_level \<times> string \<times> nat \<times> string) list \<Rightarrow> string list" where
  "lines_of calls = map (\<lambda>(level, file_name, line, message). format_log_line level file_name line message) calls"

text \<open>After a backend is installed, the lines logged reach it, in order, and nothing else.\<close>

lemma log_all_eq:
  "log_all calls st =
     (case lg_logger st of
        Console_Logger \<Rightarrow> st\<lparr>lg_stderr := lg_stderr st @ lines_of calls\<rparr>
      | Null_Logger \<Rightarrow> st
      | File_Logger path \<Rightarrow> st\<lparr>lg_files := (lg_files st)(path := lg_files st path @ lines_of calls)\<rparr>)"
proof (induction calls arbitrary: st)
  case (Cons c calls)
  obtain level file_name line message where c: "c = (level, file_name, line, message)" by (cases c)
  show ?case
    using Cons.IH [of "log_message level file_name line message st"]
    by (cases "lg_logger st") (simp_all add: log_all_def lines_of_def c log_message_def)
qed (simp_all add: log_all_def lines_of_def fun_upd_idem split: logger.split)

lemma logged_lines_reach_backend:
  "lg_stderr (log_all calls (install_logger c st)) =
     lg_stderr st @ (if c = Console_Logger_Config then lines_of calls else [])"
  "lg_files (log_all calls (install_logger c st)) p =
     lg_files st p @ (if c = File_Logger_Config p then lines_of calls else [])"
  by (cases c; simp add: log_all_eq)+

end
