(* ===== verification/Ospec_B3.thy ===== *)
theory Ospec_B3
  imports Errors Order_Entry Market_Data
begin

text \<open>
  The B3 field specification (\<open>ospec/ospec/b3.hpp\<close>, \<open>ospec/src/b3.cpp\<close>): tag numbers and names,
  and the wire value of every enumerator. \<open>normalize\<close> writes a value, the \<open>parse\<close> functions read it.
\<close>

section \<open>Fields\<close>

type_synonym tag = u16

record field_spec =
  fd_number :: tag
  fd_name :: string

definition spec_account :: field_spec where "spec_account = \<lparr>fd_number = 1, fd_name = ''Account''\<rparr>"
definition spec_avg_px :: field_spec where "spec_avg_px = \<lparr>fd_number = 6, fd_name = ''AvgPx''\<rparr>"
definition spec_cum_qty :: field_spec where "spec_cum_qty = \<lparr>fd_number = 14, fd_name = ''CumQty''\<rparr>"
definition spec_cl_ord_id :: field_spec where "spec_cl_ord_id = \<lparr>fd_number = 11, fd_name = ''ClOrdID''\<rparr>"
definition spec_last_px :: field_spec where "spec_last_px = \<lparr>fd_number = 31, fd_name = ''LastPx''\<rparr>"
definition spec_last_qty :: field_spec where "spec_last_qty = \<lparr>fd_number = 32, fd_name = ''LastQty''\<rparr>"
definition spec_order_id :: field_spec where "spec_order_id = \<lparr>fd_number = 37, fd_name = ''OrderID''\<rparr>"
definition spec_orig_cl_ord_id :: field_spec where "spec_orig_cl_ord_id = \<lparr>fd_number = 41, fd_name = ''OrigClOrdID''\<rparr>"
definition spec_order_qty :: field_spec where "spec_order_qty = \<lparr>fd_number = 38, fd_name = ''OrderQty''\<rparr>"
definition spec_ord_status :: field_spec where "spec_ord_status = \<lparr>fd_number = 39, fd_name = ''OrdStatus''\<rparr>"
definition spec_ord_type :: field_spec where "spec_ord_type = \<lparr>fd_number = 40, fd_name = ''OrdType''\<rparr>"
definition spec_price :: field_spec where "spec_price = \<lparr>fd_number = 44, fd_name = ''Price''\<rparr>"
definition spec_security_id :: field_spec where "spec_security_id = \<lparr>fd_number = 48, fd_name = ''SecurityID''\<rparr>"
definition spec_text :: field_spec where "spec_text = \<lparr>fd_number = 58, fd_name = ''Text''\<rparr>"
definition spec_side :: field_spec where "spec_side = \<lparr>fd_number = 54, fd_name = ''Side''\<rparr>"
definition spec_symbol :: field_spec where "spec_symbol = \<lparr>fd_number = 55, fd_name = ''Symbol''\<rparr>"
definition spec_time_in_force :: field_spec where "spec_time_in_force = \<lparr>fd_number = 59, fd_name = ''TimeInForce''\<rparr>"
definition spec_transact_time :: field_spec where "spec_transact_time = \<lparr>fd_number = 60, fd_name = ''TransactTime''\<rparr>"
definition spec_cxl_rej_reason :: field_spec where "spec_cxl_rej_reason = \<lparr>fd_number = 102, fd_name = ''CxlRejReason''\<rparr>"
definition spec_leaves_qty :: field_spec where "spec_leaves_qty = \<lparr>fd_number = 151, fd_name = ''LeavesQty''\<rparr>"
definition spec_security_exchange :: field_spec where "spec_security_exchange = \<lparr>fd_number = 207, fd_name = ''SecurityExchange''\<rparr>"
definition spec_exec_id :: field_spec where "spec_exec_id = \<lparr>fd_number = 17, fd_name = ''ExecID''\<rparr>"
definition spec_exec_type :: field_spec where "spec_exec_type = \<lparr>fd_number = 150, fd_name = ''ExecType''\<rparr>"
definition spec_md_update_action :: field_spec where "spec_md_update_action = \<lparr>fd_number = 279, fd_name = ''MDUpdateAction''\<rparr>"
definition spec_md_entry_type :: field_spec where "spec_md_entry_type = \<lparr>fd_number = 269, fd_name = ''MDEntryType''\<rparr>"
definition spec_trade_condition :: field_spec where "spec_trade_condition = \<lparr>fd_number = 277, fd_name = ''TradeCondition''\<rparr>"

lemmas spec_defs =
  spec_account_def
  spec_avg_px_def
  spec_cum_qty_def
  spec_cl_ord_id_def
  spec_last_px_def
  spec_last_qty_def
  spec_order_id_def
  spec_orig_cl_ord_id_def
  spec_order_qty_def
  spec_ord_status_def
  spec_ord_type_def
  spec_price_def
  spec_security_id_def
  spec_text_def
  spec_side_def
  spec_symbol_def
  spec_time_in_force_def
  spec_transact_time_def
  spec_cxl_rej_reason_def
  spec_leaves_qty_def
  spec_security_exchange_def
  spec_exec_id_def
  spec_exec_type_def
  spec_md_update_action_def
  spec_md_entry_type_def
  spec_trade_condition_def

definition all_specs :: "field_spec list" where
  "all_specs =
    [spec_account, spec_avg_px, spec_cum_qty, spec_cl_ord_id, spec_last_px, spec_last_qty, spec_order_id, spec_orig_cl_ord_id, spec_order_qty, spec_ord_status, spec_ord_type, spec_price, spec_security_id, spec_text, spec_side, spec_symbol, spec_time_in_force, spec_transact_time, spec_cxl_rej_reason, spec_leaves_qty, spec_security_exchange, spec_exec_id, spec_exec_type, spec_md_update_action, spec_md_entry_type, spec_trade_condition]"

definition entrypoint_reference :: string where
  "entrypoint_reference = ''b3-entrypoint-messages-8.4.2.xml''"

definition market_data_reference :: string where
  "market_data_reference = ''b3-market-data-messages-2.2.0.xml''"

section \<open>Writing values\<close>

fun normalize_side :: "side \<Rightarrow> char" where
  "normalize_side Buy = CHR ''1''"
| "normalize_side Sell = CHR ''2''"

fun normalize_ord_type :: "ord_type \<Rightarrow> char" where
  "normalize_ord_type Market = CHR ''1''"
| "normalize_ord_type Limit = CHR ''2''"

fun normalize_time_in_force :: "time_in_force \<Rightarrow> char" where
  "normalize_time_in_force Day = CHR ''0''"
| "normalize_time_in_force Ioc = CHR ''3''"

fun normalize_exec_type :: "exec_type \<Rightarrow> char" where
  "normalize_exec_type Exec_New_Order = CHR ''0''"
| "normalize_exec_type Exec_Replaced = CHR ''5''"
| "normalize_exec_type Exec_Canceled = CHR ''4''"
| "normalize_exec_type Exec_Trade = CHR ''F''"
| "normalize_exec_type Exec_Rejected = CHR ''8''"
| "normalize_exec_type Exec_Expired = CHR ''C''"

fun normalize_ord_status :: "ord_status \<Rightarrow> char" where
  "normalize_ord_status Status_New_Order = CHR ''0''"
| "normalize_ord_status Status_Partially_Filled = CHR ''1''"
| "normalize_ord_status Status_Filled = CHR ''2''"
| "normalize_ord_status Status_Canceled = CHR ''4''"
| "normalize_ord_status Status_Replaced = CHR ''5''"
| "normalize_ord_status Status_Rejected = CHR ''8''"
| "normalize_ord_status Status_Expired = CHR ''C''"

fun normalize_reject_reason :: "reject_reason \<Rightarrow> u16" where
  "normalize_reject_reason Unknown_Order = 1"
| "normalize_reject_reason Duplicate_Order = 6"
| "normalize_reject_reason Unknown_Symbol = 1"
| "normalize_reject_reason Unsupported_Request = 99"

fun normalize_md_side :: "md_side \<Rightarrow> char" where
  "normalize_md_side Md_Buy = CHR ''0''"
| "normalize_md_side Md_Sell = CHR ''1''"

fun normalize_update_action :: "update_action \<Rightarrow> char" where
  "normalize_update_action Action_New_Order = CHR ''0''"
| "normalize_update_action Action_Change = CHR ''1''"
| "normalize_update_action Action_Delete_Order = CHR ''2''"

fun normalize_trade_condition :: "trade_condition \<Rightarrow> char" where
  "normalize_trade_condition Condition_Regular = CHR ''0''"

section \<open>Reading values\<close>

definition invalid_value :: "string \<Rightarrow> string \<Rightarrow> 'a result" where
  "invalid_value field_name v =
     invalid_argument (''invalid B3 '' @ field_name @ '' value '' @ [CHR 0x27] @ v @ [CHR 0x27])"

definition parse_side :: "char \<Rightarrow> side result" where
  "parse_side v =
    (if v = CHR ''1'' then Inr Buy
     else if v = CHR ''2'' then Inr Sell
     else invalid_value ''Side'' [v])"

definition parse_ord_type :: "char \<Rightarrow> ord_type result" where
  "parse_ord_type v =
    (if v = CHR ''1'' then Inr Market
     else if v = CHR ''2'' then Inr Limit
     else invalid_value ''OrdType'' [v])"

definition parse_time_in_force :: "char \<Rightarrow> time_in_force result" where
  "parse_time_in_force v =
    (if v = CHR ''0'' then Inr Day
     else if v = CHR ''3'' then Inr Ioc
     else invalid_value ''TimeInForce'' [v])"

definition parse_exec_type :: "char \<Rightarrow> exec_type result" where
  "parse_exec_type v =
    (if v = CHR ''0'' then Inr Exec_New_Order
     else if v = CHR ''5'' then Inr Exec_Replaced
     else if v = CHR ''4'' then Inr Exec_Canceled
     else if v = CHR ''F'' then Inr Exec_Trade
     else if v = CHR ''8'' then Inr Exec_Rejected
     else if v = CHR ''C'' then Inr Exec_Expired
     else invalid_value ''ExecType'' [v])"

definition parse_ord_status :: "char \<Rightarrow> ord_status result" where
  "parse_ord_status v =
    (if v = CHR ''0'' then Inr Status_New_Order
     else if v = CHR ''1'' then Inr Status_Partially_Filled
     else if v = CHR ''2'' then Inr Status_Filled
     else if v = CHR ''4'' then Inr Status_Canceled
     else if v = CHR ''5'' then Inr Status_Replaced
     else if v = CHR ''8'' then Inr Status_Rejected
     else if v = CHR ''C'' then Inr Status_Expired
     else invalid_value ''OrdStatus'' [v])"

definition parse_reject_reason :: "u16 \<Rightarrow> reject_reason result" where
  "parse_reject_reason v =
    (if v = 1 then Inr Unknown_Order
     else if v = 6 then Inr Duplicate_Order
     else if v = 99 then Inr Unsupported_Request
     else invalid_value ''RejectReason'' (format_unsigned v))"

named_theorems b3_simps \<open>reading back a normalized value\<close>

lemma parse_normalize_side [simp, b3_simps]: "parse_side (normalize_side x) = Inr x"
  by (cases x) (simp_all add: parse_side_def)

lemma parse_side_iff: "parse_side c = Inr x \<longleftrightarrow> normalize_side x = c"
  by (cases x) (auto simp: parse_side_def invalid_value_def make_leaf_error_def)

lemma parse_normalize_ord_type [simp, b3_simps]: "parse_ord_type (normalize_ord_type x) = Inr x"
  by (cases x) (simp_all add: parse_ord_type_def)

lemma parse_ord_type_iff: "parse_ord_type c = Inr x \<longleftrightarrow> normalize_ord_type x = c"
  by (cases x) (auto simp: parse_ord_type_def invalid_value_def make_leaf_error_def)

lemma parse_normalize_time_in_force [simp, b3_simps]: "parse_time_in_force (normalize_time_in_force x) = Inr x"
  by (cases x) (simp_all add: parse_time_in_force_def)

lemma parse_time_in_force_iff: "parse_time_in_force c = Inr x \<longleftrightarrow> normalize_time_in_force x = c"
  by (cases x) (auto simp: parse_time_in_force_def invalid_value_def make_leaf_error_def)

lemma parse_normalize_exec_type [simp, b3_simps]: "parse_exec_type (normalize_exec_type x) = Inr x"
  by (cases x) (simp_all add: parse_exec_type_def)

lemma parse_exec_type_iff: "parse_exec_type c = Inr x \<longleftrightarrow> normalize_exec_type x = c"
  by (cases x) (auto simp: parse_exec_type_def invalid_value_def make_leaf_error_def)

lemma parse_normalize_ord_status [simp, b3_simps]: "parse_ord_status (normalize_ord_status x) = Inr x"
  by (cases x) (simp_all add: parse_ord_status_def)

lemma parse_ord_status_iff: "parse_ord_status c = Inr x \<longleftrightarrow> normalize_ord_status x = c"
  by (cases x) (auto simp: parse_ord_status_def invalid_value_def make_leaf_error_def)

text \<open>The one value that does not survive: an unknown symbol is written as an unknown order.\<close>

definition wire_reason :: "reject_reason \<Rightarrow> reject_reason" where
  "wire_reason r = (if r = Unknown_Symbol then Unknown_Order else r)"

lemma parse_normalize_reject_reason [simp, b3_simps]:
  "parse_reject_reason (normalize_reject_reason r) = Inr (wire_reason r)"
  by (cases r) (simp_all add: parse_reject_reason_def wire_reason_def)

text \<open>
  Every enumerator of the B3 wire format but the reject reasons is read back from its wire
  value, and nothing else is accepted: a parse function returns a value exactly for the
  character that value is written as.
\<close>
lemma b3_enums_roundtrip:
  "(parse_side c = Inr s \<longleftrightarrow> normalize_side s = c) \<and>
   (parse_ord_type c = Inr ot \<longleftrightarrow> normalize_ord_type ot = c) \<and>
   (parse_time_in_force c = Inr tif \<longleftrightarrow> normalize_time_in_force tif = c) \<and>
   (parse_exec_type c = Inr et \<longleftrightarrow> normalize_exec_type et = c) \<and>
   (parse_ord_status c = Inr os \<longleftrightarrow> normalize_ord_status os = c)"
  by (simp add: parse_side_iff parse_ord_type_iff parse_time_in_force_iff parse_exec_type_iff parse_ord_status_iff)

text \<open>
  A reject reason is read back from its wire code, except that an unknown symbol shares the
  code of an unknown order and is read back as one; no two other reasons share a code.
\<close>
lemma reject_reason_collision:
  "parse_reject_reason (normalize_reject_reason r) = Inr (if r = Unknown_Symbol then Unknown_Order else r) \<and>
   (normalize_reject_reason r = normalize_reject_reason r' \<longleftrightarrow>
      r = r' \<or> {r, r'} = {Unknown_Symbol, Unknown_Order})"
  by (cases r; cases r') (auto simp: parse_reject_reason_def wire_reason_def)

lemma spec_numbers_distinct: "distinct (map fd_number all_specs) \<and> 35 \<notin> set (map fd_number all_specs)"
  by (simp add: all_specs_def spec_defs)

end
