(* ===== verification/Mor.thy ===== *)
theory Mor
  imports Order_Entry
begin

text \<open>
  The order-routing vocabulary (\<open>mor/messages.hpp\<close>) and its conversions from and to order entry
  (\<open>mor/src/conversions.cpp\<close>). The routing messages are nominally distinct structs with the
  fields of their order-entry counterparts; the event variant also carries parser rejects.
\<close>

section \<open>Messages\<close>

record mor_new_order_single =
  mno_client_id :: client_id
  mno_cl_ord_id :: cl_ord_id
  mno_security_id :: security_id
  mno_symbol :: symbol
  mno_security_exchange :: security_exchange
  mno_side :: side
  mno_ord_type :: ord_type
  mno_time_in_force :: time_in_force
  mno_order_qty :: quantity
  mno_price :: price

record mor_replace_request =
  mrr_client_id :: client_id
  mrr_cl_ord_id :: cl_ord_id
  mrr_orig_cl_ord_id :: orig_cl_ord_id
  mrr_security_id :: security_id
  mrr_symbol :: symbol
  mrr_security_exchange :: security_exchange
  mrr_side :: side
  mrr_ord_type :: ord_type
  mrr_time_in_force :: time_in_force
  mrr_order_qty :: quantity
  mrr_price :: price

record mor_cancel_request =
  mcq_client_id :: client_id
  mcq_cl_ord_id :: cl_ord_id
  mcq_orig_cl_ord_id :: orig_cl_ord_id

datatype mor_request =
    Mor_New_Order_Single mor_new_order_single
  | Mor_Replace_Request mor_replace_request
  | Mor_Cancel_Request mor_cancel_request
  | Mor_Flush_Request

record mor_execution_report =
  mer_client_id :: client_id
  mer_cl_ord_id :: cl_ord_id
  mer_orig_cl_ord_id :: "orig_cl_ord_id option"
  mer_order_id :: order_id
  mer_exec_id :: exec_id
  mer_security_id :: security_id
  mer_symbol :: symbol
  mer_security_exchange :: security_exchange
  mer_side :: side
  mer_ord_type :: ord_type
  mer_time_in_force :: time_in_force
  mer_exec_type :: exec_type
  mer_ord_status :: ord_status
  mer_order_qty :: quantity
  mer_cum_qty :: quantity
  mer_leaves_qty :: quantity
  mer_last_qty :: "quantity option"
  mer_last_px :: "price option"
  mer_avg_px :: "price option"
  mer_transact_time :: timestamp
  mer_reject_reason :: "reject_reason option"
  mer_text :: string

record mor_cancel_reject =
  mcr_client_id :: client_id
  mcr_cl_ord_id :: cl_ord_id
  mcr_orig_cl_ord_id :: orig_cl_ord_id
  mcr_reject_reason :: reject_reason
  mcr_text :: string
  mcr_transact_time :: timestamp

record parser_reject =
  pr_raw_payload :: string
  pr_reason :: string

datatype mor_event =
    Mor_Execution_Report mor_execution_report
  | Mor_Cancel_Reject mor_cancel_reject
  | Mor_Parser_Reject parser_reject

section \<open>To routing\<close>

definition to_mor_new_order :: "new_order_single \<Rightarrow> mor_new_order_single" where
  "to_mor_new_order r =
    \<lparr>mno_client_id = nos_client_id r,
     mno_cl_ord_id = nos_cl_ord_id r,
     mno_security_id = nos_security_id r,
     mno_symbol = nos_symbol r,
     mno_security_exchange = nos_security_exchange r,
     mno_side = nos_side r,
     mno_ord_type = nos_ord_type r,
     mno_time_in_force = nos_time_in_force r,
     mno_order_qty = nos_order_qty r,
     mno_price = nos_price r\<rparr>"

definition to_mor_replace :: "replace_order \<Rightarrow> mor_replace_request" where
  "to_mor_replace r =
    \<lparr>mrr_client_id = ro_client_id r,
     mrr_cl_ord_id = ro_cl_ord_id r,
     mrr_orig_cl_ord_id = ro_orig_cl_ord_id r,
     mrr_security_id = ro_security_id r,
     mrr_symbol = ro_symbol r,
     mrr_security_exchange = ro_security_exchange r,
     mrr_side = ro_side r,
     mrr_ord_type = ro_ord_type r,
     mrr_time_in_force = ro_time_in_force r,
     mrr_order_qty = ro_order_qty r,
     mrr_price = ro_price r\<rparr>"

definition to_mor_cancel :: "cancel_order \<Rightarrow> mor_cancel_request" where
  "to_mor_cancel r =
    \<lparr>mcq_client_id = co_client_id r,
     mcq_cl_ord_id = co_cl_ord_id r,
     mcq_orig_cl_ord_id = co_orig_cl_ord_id r\<rparr>"

fun to_mor_request :: "request \<Rightarrow> mor_request" where
  "to_mor_request (New_Order_Single r) = Mor_New_Order_Single (to_mor_new_order r)"
| "to_mor_request (Replace_Order r) = Mor_Replace_Request (to_mor_replace r)"
| "to_mor_request (Cancel_Order r) = Mor_Cancel_Request (to_mor_cancel r)"
| "to_mor_request Flush = Mor_Flush_Request"

definition to_mor_execution_report :: "execution_report \<Rightarrow> mor_execution_report" where
  "to_mor_execution_report e =
    \<lparr>mer_client_id = er_client_id e,
     mer_cl_ord_id = er_cl_ord_id e,
     mer_orig_cl_ord_id = er_orig_cl_ord_id e,
     mer_order_id = er_order_id e,
     mer_exec_id = er_exec_id e,
     mer_security_id = er_security_id e,
     mer_symbol = er_symbol e,
     mer_security_exchange = er_security_exchange e,
     mer_side = er_side e,
     mer_ord_type = er_ord_type e,
     mer_time_in_force = er_time_in_force e,
     mer_exec_type = er_exec_type e,
     mer_ord_status = er_ord_status e,
     mer_order_qty = er_order_qty e,
     mer_cum_qty = er_cum_qty e,
     mer_leaves_qty = er_leaves_qty e,
     mer_last_qty = er_last_qty e,
     mer_last_px = er_last_px e,
     mer_avg_px = er_avg_px e,
     mer_transact_time = er_transact_time e,
     mer_reject_reason = er_reject_reason e,
     mer_text = er_text e\<rparr>"

definition to_mor_cancel_reject :: "cancel_reject \<Rightarrow> mor_cancel_reject" where
  "to_mor_cancel_reject e =
    \<lparr>mcr_client_id = cr_client_id e,
     mcr_cl_ord_id = cr_cl_ord_id e,
     mcr_orig_cl_ord_id = cr_orig_cl_ord_id e,
     mcr_reject_reason = cr_reject_reason e,
     mcr_text = cr_text e,
     mcr_transact_time = cr_transact_time e\<rparr>"

definition to_mor_rejection :: "rejection \<Rightarrow> parser_reject" where
  "to_mor_rejection e =
    \<lparr>pr_raw_payload = rj_raw_payload e,
     pr_reason = rj_reason e\<rparr>"

fun to_mor_event :: "event \<Rightarrow> mor_event" where
  "to_mor_event (Execution_Report e) = Mor_Execution_Report (to_mor_execution_report e)"
| "to_mor_event (Cancel_Reject e) = Mor_Cancel_Reject (to_mor_cancel_reject e)"

section \<open>To order entry\<close>

definition to_order_entry_new_order :: "mor_new_order_single \<Rightarrow> new_order_single" where
  "to_order_entry_new_order r =
    \<lparr>nos_client_id = mno_client_id r,
     nos_cl_ord_id = mno_cl_ord_id r,
     nos_security_id = mno_security_id r,
     nos_symbol = mno_symbol r,
     nos_security_exchange = mno_security_exchange r,
     nos_side = mno_side r,
     nos_ord_type = mno_ord_type r,
     nos_time_in_force = mno_time_in_force r,
     nos_order_qty = mno_order_qty r,
     nos_price = mno_price r\<rparr>"

definition to_order_entry_replace :: "mor_replace_request \<Rightarrow> replace_order" where
  "to_order_entry_replace r =
    \<lparr>ro_client_id = mrr_client_id r,
     ro_cl_ord_id = mrr_cl_ord_id r,
     ro_orig_cl_ord_id = mrr_orig_cl_ord_id r,
     ro_security_id = mrr_security_id r,
     ro_symbol = mrr_symbol r,
     ro_security_exchange = mrr_security_exchange r,
     ro_side = mrr_side r,
     ro_ord_type = mrr_ord_type r,
     ro_time_in_force = mrr_time_in_force r,
     ro_order_qty = mrr_order_qty r,
     ro_price = mrr_price r\<rparr>"

definition to_order_entry_cancel :: "mor_cancel_request \<Rightarrow> cancel_order" where
  "to_order_entry_cancel r =
    \<lparr>co_client_id = mcq_client_id r,
     co_cl_ord_id = mcq_cl_ord_id r,
     co_orig_cl_ord_id = mcq_orig_cl_ord_id r\<rparr>"

fun to_order_entry_request :: "mor_request \<Rightarrow> request" where
  "to_order_entry_request (Mor_New_Order_Single r) = New_Order_Single (to_order_entry_new_order r)"
| "to_order_entry_request (Mor_Replace_Request r) = Replace_Order (to_order_entry_replace r)"
| "to_order_entry_request (Mor_Cancel_Request r) = Cancel_Order (to_order_entry_cancel r)"
| "to_order_entry_request Mor_Flush_Request = Flush"

definition to_order_entry_execution_report :: "mor_execution_report \<Rightarrow> execution_report" where
  "to_order_entry_execution_report e =
    \<lparr>er_client_id = mer_client_id e,
     er_cl_ord_id = mer_cl_ord_id e,
     er_orig_cl_ord_id = mer_orig_cl_ord_id e,
     er_order_id = mer_order_id e,
     er_exec_id = mer_exec_id e,
     er_security_id = mer_security_id e,
     er_symbol = mer_symbol e,
     er_security_exchange = mer_security_exchange e,
     er_side = mer_side e,
     er_ord_type = mer_ord_type e,
     er_time_in_force = mer_time_in_force e,
     er_exec_type = mer_exec_type e,
     er_ord_status = mer_ord_status e,
     er_order_qty = mer_order_qty e,
     er_cum_qty = mer_cum_qty e,
     er_leaves_qty = mer_leaves_qty e,
     er_last_qty = mer_last_qty e,
     er_last_px = mer_last_px e,
     er_avg_px = mer_avg_px e,
     er_transact_time = mer_transact_time e,
     er_reject_reason = mer_reject_reason e,
     er_text = mer_text e\<rparr>"

definition to_order_entry_cancel_reject :: "mor_cancel_reject \<Rightarrow> cancel_reject" where
  "to_order_entry_cancel_reject e =
    \<lparr>cr_client_id = mcr_client_id e,
     cr_cl_ord_id = mcr_cl_ord_id e,
     cr_orig_cl_ord_id = mcr_orig_cl_ord_id e,
     cr_reject_reason = mcr_reject_reason e,
     cr_text = mcr_text e,
     cr_transact_time = mcr_transact_time e\<rparr>"

definition to_order_entry_rejection :: "parser_reject \<Rightarrow> rejection" where
  "to_order_entry_rejection e =
    \<lparr>rj_raw_payload = pr_raw_payload e,
     rj_reason = pr_reason e\<rparr>"

section \<open>The conversions are inverse\<close>

named_theorems mor_defs \<open>the struct conversions between the order vocabularies\<close>

declare to_mor_new_order_def [mor_defs] to_mor_replace_def [mor_defs] to_mor_cancel_def [mor_defs]
  to_mor_execution_report_def [mor_defs] to_mor_cancel_reject_def [mor_defs] to_mor_rejection_def [mor_defs]
  to_order_entry_new_order_def [mor_defs] to_order_entry_replace_def [mor_defs] to_order_entry_cancel_def [mor_defs]
  to_order_entry_execution_report_def [mor_defs] to_order_entry_cancel_reject_def [mor_defs]
  to_order_entry_rejection_def [mor_defs]

lemma order_entry_of_mor_request [simp]: "to_order_entry_request (to_mor_request r) = r"
  by (cases r) (simp_all add: mor_defs)

lemma mor_of_order_entry_request [simp]: "to_mor_request (to_order_entry_request r) = r"
  by (cases r) (simp_all add: mor_defs)

lemma order_entry_of_mor_event [simp]:
  "to_order_entry_execution_report (to_mor_execution_report x) = x"
  "to_order_entry_cancel_reject (to_mor_cancel_reject y) = y"
  "to_order_entry_rejection (to_mor_rejection z) = z"
  by (simp_all add: mor_defs)

lemma mor_of_order_entry_event [simp]:
  "to_mor_execution_report (to_order_entry_execution_report x') = x'"
  "to_mor_cancel_reject (to_order_entry_cancel_reject y') = y'"
  "to_mor_rejection (to_order_entry_rejection z') = z'"
  by (simp_all add: mor_defs)

end
