(* ===== verification/Morfix.thy ===== *)
theory Morfix
  imports Mor
begin

text \<open>
  The FIX vocabulary of the router (\<open>morfix/messages.hpp\<close>), its conversions
  (\<open>morfix/src/conversions.cpp\<close>), and the request memory of a session (\<open>morfix/src/session.cpp\<close>).
  A flush request and a parser reject have no FIX counterpart.
\<close>

section \<open>Messages\<close>

datatype msg_type =
    Msg_New_Order_Single | Msg_Order_Cancel_Replace_Request | Msg_Order_Cancel_Request
  | Msg_Execution_Report | Msg_Order_Cancel_Reject

record fix_new_order_single =
  fno_account :: client_id
  fno_cl_ord_id :: cl_ord_id
  fno_security_id :: security_id
  fno_symbol :: symbol
  fno_security_exchange :: security_exchange
  fno_side :: side
  fno_ord_type :: ord_type
  fno_time_in_force :: time_in_force
  fno_order_qty :: quantity
  fno_price :: price

record fix_order_cancel_replace_request =
  frr_account :: client_id
  frr_cl_ord_id :: cl_ord_id
  frr_orig_cl_ord_id :: orig_cl_ord_id
  frr_security_id :: security_id
  frr_symbol :: symbol
  frr_security_exchange :: security_exchange
  frr_side :: side
  frr_ord_type :: ord_type
  frr_time_in_force :: time_in_force
  frr_order_qty :: quantity
  frr_price :: price

record fix_order_cancel_request =
  fcq_account :: client_id
  fcq_cl_ord_id :: cl_ord_id
  fcq_orig_cl_ord_id :: orig_cl_ord_id

datatype fix_request =
    Fix_New_Order_Single fix_new_order_single
  | Fix_Order_Cancel_Replace_Request fix_order_cancel_replace_request
  | Fix_Order_Cancel_Request fix_order_cancel_request

record fix_execution_report =
  fer_account :: client_id
  fer_cl_ord_id :: cl_ord_id
  fer_orig_cl_ord_id :: "orig_cl_ord_id option"
  fer_order_id :: order_id
  fer_exec_id :: exec_id
  fer_security_id :: security_id
  fer_symbol :: symbol
  fer_security_exchange :: security_exchange
  fer_side :: side
  fer_ord_type :: ord_type
  fer_time_in_force :: time_in_force
  fer_exec_type :: exec_type
  fer_ord_status :: ord_status
  fer_order_qty :: quantity
  fer_cum_qty :: quantity
  fer_leaves_qty :: quantity
  fer_last_qty :: "quantity option"
  fer_last_px :: "price option"
  fer_avg_px :: "price option"
  fer_transact_time :: timestamp
  fer_reject_reason :: "reject_reason option"
  fer_text :: string

record fix_order_cancel_reject =
  fcr_account :: client_id
  fcr_cl_ord_id :: cl_ord_id
  fcr_orig_cl_ord_id :: orig_cl_ord_id
  fcr_reject_reason :: reject_reason
  fcr_text :: string
  fcr_transact_time :: timestamp

datatype fix_event =
    Fix_Execution_Report fix_execution_report
  | Fix_Order_Cancel_Reject fix_order_cancel_reject

section \<open>To FIX\<close>

definition to_fix_new_order :: "mor_new_order_single \<Rightarrow> fix_new_order_single" where
  "to_fix_new_order r =
    \<lparr>fno_account = mno_client_id r,
     fno_cl_ord_id = mno_cl_ord_id r,
     fno_security_id = mno_security_id r,
     fno_symbol = mno_symbol r,
     fno_security_exchange = mno_security_exchange r,
     fno_side = mno_side r,
     fno_ord_type = mno_ord_type r,
     fno_time_in_force = mno_time_in_force r,
     fno_order_qty = mno_order_qty r,
     fno_price = mno_price r\<rparr>"

definition to_fix_replace :: "mor_replace_request \<Rightarrow> fix_order_cancel_replace_request" where
  "to_fix_replace r =
    \<lparr>frr_account = mrr_client_id r,
     frr_cl_ord_id = mrr_cl_ord_id r,
     frr_orig_cl_ord_id = mrr_orig_cl_ord_id r,
     frr_security_id = mrr_security_id r,
     frr_symbol = mrr_symbol r,
     frr_security_exchange = mrr_security_exchange r,
     frr_side = mrr_side r,
     frr_ord_type = mrr_ord_type r,
     frr_time_in_force = mrr_time_in_force r,
     frr_order_qty = mrr_order_qty r,
     frr_price = mrr_price r\<rparr>"

definition to_fix_cancel :: "mor_cancel_request \<Rightarrow> fix_order_cancel_request" where
  "to_fix_cancel r =
    \<lparr>fcq_account = mcq_client_id r,
     fcq_cl_ord_id = mcq_cl_ord_id r,
     fcq_orig_cl_ord_id = mcq_orig_cl_ord_id r\<rparr>"

fun to_fix_request :: "mor_request \<Rightarrow> fix_request option" where
  "to_fix_request (Mor_New_Order_Single r) = Some (Fix_New_Order_Single (to_fix_new_order r))"
| "to_fix_request (Mor_Replace_Request r) = Some (Fix_Order_Cancel_Replace_Request (to_fix_replace r))"
| "to_fix_request (Mor_Cancel_Request r) = Some (Fix_Order_Cancel_Request (to_fix_cancel r))"
| "to_fix_request Mor_Flush_Request = None"

definition to_fix_execution_report :: "mor_execution_report \<Rightarrow> fix_execution_report" where
  "to_fix_execution_report e =
    \<lparr>fer_account = mer_client_id e,
     fer_cl_ord_id = mer_cl_ord_id e,
     fer_orig_cl_ord_id = mer_orig_cl_ord_id e,
     fer_order_id = mer_order_id e,
     fer_exec_id = mer_exec_id e,
     fer_security_id = mer_security_id e,
     fer_symbol = mer_symbol e,
     fer_security_exchange = mer_security_exchange e,
     fer_side = mer_side e,
     fer_ord_type = mer_ord_type e,
     fer_time_in_force = mer_time_in_force e,
     fer_exec_type = mer_exec_type e,
     fer_ord_status = mer_ord_status e,
     fer_order_qty = mer_order_qty e,
     fer_cum_qty = mer_cum_qty e,
     fer_leaves_qty = mer_leaves_qty e,
     fer_last_qty = mer_last_qty e,
     fer_last_px = mer_last_px e,
     fer_avg_px = mer_avg_px e,
     fer_transact_time = mer_transact_time e,
     fer_reject_reason = mer_reject_reason e,
     fer_text = mer_text e\<rparr>"

definition to_fix_cancel_reject :: "mor_cancel_reject \<Rightarrow> fix_order_cancel_reject" where
  "to_fix_cancel_reject e =
    \<lparr>fcr_account = mcr_client_id e,
     fcr_cl_ord_id = mcr_cl_ord_id e,
     fcr_orig_cl_ord_id = mcr_orig_cl_ord_id e,
     fcr_reject_reason = mcr_reject_reason e,
     fcr_text = mcr_text e,
     fcr_transact_time = mcr_transact_time e\<rparr>"

fun to_fix_event :: "mor_event \<Rightarrow> fix_event option" where
  "to_fix_event (Mor_Execution_Report e) = Some (Fix_Execution_Report (to_fix_execution_report e))"
| "to_fix_event (Mor_Cancel_Reject e) = Some (Fix_Order_Cancel_Reject (to_fix_cancel_reject e))"
| "to_fix_event (Mor_Parser_Reject e) = None"

section \<open>From FIX\<close>

definition fix_to_mor_new_order :: "fix_new_order_single \<Rightarrow> mor_new_order_single" where
  "fix_to_mor_new_order r =
    \<lparr>mno_client_id = fno_account r,
     mno_cl_ord_id = fno_cl_ord_id r,
     mno_security_id = fno_security_id r,
     mno_symbol = fno_symbol r,
     mno_security_exchange = fno_security_exchange r,
     mno_side = fno_side r,
     mno_ord_type = fno_ord_type r,
     mno_time_in_force = fno_time_in_force r,
     mno_order_qty = fno_order_qty r,
     mno_price = fno_price r\<rparr>"

definition fix_to_mor_replace :: "fix_order_cancel_replace_request \<Rightarrow> mor_replace_request" where
  "fix_to_mor_replace r =
    \<lparr>mrr_client_id = frr_account r,
     mrr_cl_ord_id = frr_cl_ord_id r,
     mrr_orig_cl_ord_id = frr_orig_cl_ord_id r,
     mrr_security_id = frr_security_id r,
     mrr_symbol = frr_symbol r,
     mrr_security_exchange = frr_security_exchange r,
     mrr_side = frr_side r,
     mrr_ord_type = frr_ord_type r,
     mrr_time_in_force = frr_time_in_force r,
     mrr_order_qty = frr_order_qty r,
     mrr_price = frr_price r\<rparr>"

definition fix_to_mor_cancel :: "fix_order_cancel_request \<Rightarrow> mor_cancel_request" where
  "fix_to_mor_cancel r =
    \<lparr>mcq_client_id = fcq_account r,
     mcq_cl_ord_id = fcq_cl_ord_id r,
     mcq_orig_cl_ord_id = fcq_orig_cl_ord_id r\<rparr>"

fun fix_to_mor_request :: "fix_request \<Rightarrow> mor_request" where
  "fix_to_mor_request (Fix_New_Order_Single r) = Mor_New_Order_Single (fix_to_mor_new_order r)"
| "fix_to_mor_request (Fix_Order_Cancel_Replace_Request r) = Mor_Replace_Request (fix_to_mor_replace r)"
| "fix_to_mor_request (Fix_Order_Cancel_Request r) = Mor_Cancel_Request (fix_to_mor_cancel r)"

definition fix_to_mor_execution_report :: "fix_execution_report \<Rightarrow> mor_execution_report" where
  "fix_to_mor_execution_report e =
    \<lparr>mer_client_id = fer_account e,
     mer_cl_ord_id = fer_cl_ord_id e,
     mer_orig_cl_ord_id = fer_orig_cl_ord_id e,
     mer_order_id = fer_order_id e,
     mer_exec_id = fer_exec_id e,
     mer_security_id = fer_security_id e,
     mer_symbol = fer_symbol e,
     mer_security_exchange = fer_security_exchange e,
     mer_side = fer_side e,
     mer_ord_type = fer_ord_type e,
     mer_time_in_force = fer_time_in_force e,
     mer_exec_type = fer_exec_type e,
     mer_ord_status = fer_ord_status e,
     mer_order_qty = fer_order_qty e,
     mer_cum_qty = fer_cum_qty e,
     mer_leaves_qty = fer_leaves_qty e,
     mer_last_qty = fer_last_qty e,
     mer_last_px = fer_last_px e,
     mer_avg_px = fer_avg_px e,
     mer_transact_time = fer_transact_time e,
     mer_reject_reason = fer_reject_reason e,
     mer_text = fer_text e\<rparr>"

definition fix_to_mor_cancel_reject :: "fix_order_cancel_reject \<Rightarrow> mor_cancel_reject" where
  "fix_to_mor_cancel_reject e =
    \<lparr>mcr_client_id = fcr_account e,
     mcr_cl_ord_id = fcr_cl_ord_id e,
     mcr_orig_cl_ord_id = fcr_orig_cl_ord_id e,
     mcr_reject_reason = fcr_reject_reason e,
     mcr_text = fcr_text e,
     mcr_transact_time = fcr_transact_time e\<rparr>"

fun fix_to_mor_event :: "fix_event \<Rightarrow> mor_event" where
  "fix_to_mor_event (Fix_Execution_Report e) = Mor_Execution_Report (fix_to_mor_execution_report e)"
| "fix_to_mor_event (Fix_Order_Cancel_Reject e) = Mor_Cancel_Reject (fix_to_mor_cancel_reject e)"

section \<open>The conversions are inverse where FIX has the message\<close>

declare to_fix_new_order_def [mor_defs] to_fix_replace_def [mor_defs] to_fix_cancel_def [mor_defs]
  to_fix_execution_report_def [mor_defs] to_fix_cancel_reject_def [mor_defs]
  fix_to_mor_new_order_def [mor_defs] fix_to_mor_replace_def [mor_defs] fix_to_mor_cancel_def [mor_defs]
  fix_to_mor_execution_report_def [mor_defs] fix_to_mor_cancel_reject_def [mor_defs]

lemma to_fix_request_iff: "to_fix_request r = Some f \<longleftrightarrow> r = fix_to_mor_request f"
  by (cases r; cases f) (auto simp: mor_defs)

lemma to_fix_event_iff: "to_fix_event e = Some f \<longleftrightarrow> e = fix_to_mor_event f"
  by (cases e; cases f) (auto simp: mor_defs)

section \<open>lifecycle_state\<close>

record lifecycle_state =
  lc_next_exec_id_value :: u64
  lc_requests :: "cl_ord_id \<rightharpoonup> mor_request"

definition initial_lifecycle :: lifecycle_state where
  "initial_lifecycle = \<lparr>lc_next_exec_id_value = 1, lc_requests = Map.empty\<rparr>"

definition next_exec_id :: "lifecycle_state \<Rightarrow> exec_id \<times> lifecycle_state" where
  "next_exec_id st =
     (lc_next_exec_id_value st, st\<lparr>lc_next_exec_id_value := lc_next_exec_id_value st + 1\<rparr>)"

fun remember :: "mor_request \<Rightarrow> lifecycle_state \<Rightarrow> lifecycle_state" where
  "remember (Mor_New_Order_Single r) st =
     st\<lparr>lc_requests := (lc_requests st)(mno_cl_ord_id r \<mapsto> Mor_New_Order_Single r)\<rparr>"
| "remember (Mor_Replace_Request r) st =
     st\<lparr>lc_requests := (lc_requests st)(mrr_cl_ord_id r \<mapsto> Mor_Replace_Request r)\<rparr>"
| "remember (Mor_Cancel_Request r) st =
     st\<lparr>lc_requests := (lc_requests st)(mcq_cl_ord_id r \<mapsto> Mor_Cancel_Request r)\<rparr>"
| "remember Mor_Flush_Request st = st"

definition find_request :: "cl_ord_id \<Rightarrow> lifecycle_state \<Rightarrow> mor_request option" where
  "find_request i st = lc_requests st i"

text \<open>What a session's requests are remembered under; a flush is not.\<close>

fun request_id :: "mor_request \<Rightarrow> cl_ord_id option" where
  "request_id (Mor_New_Order_Single r) = Some (mno_cl_ord_id r)"
| "request_id (Mor_Replace_Request r) = Some (mrr_cl_ord_id r)"
| "request_id (Mor_Cancel_Request r) = Some (mcq_cl_ord_id r)"
| "request_id Mor_Flush_Request = None"

lemma find_remember:
  "find_request i (remember r st) = (if request_id r = Some i then Some r else find_request i st)"
  by (cases r) (simp_all add: find_request_def)

fun drawn_exec_ids :: "nat \<Rightarrow> lifecycle_state \<Rightarrow> exec_id list" where
  "drawn_exec_ids 0 st = []"
| "drawn_exec_ids (Suc n) st = (let (i, st') = next_exec_id st in i # drawn_exec_ids n st')"

lemma find_foldl:
  "find_request i (foldl (\<lambda>s r. remember r s) st rs) =
     (case find (\<lambda>r. request_id r = Some i) (rev rs) of Some r \<Rightarrow> Some r | None \<Rightarrow> find_request i st)"
proof (induction rs rule: rev_induct)
  case (snoc r rs)
  then show ?case by (simp add: find_remember)
qed simp

lemma drawn_exec_ids_eq:
  "drawn_exec_ids n st = map (\<lambda>k. lc_next_exec_id_value st + of_nat k) [0..<n]"
proof (induction n arbitrary: st)
  case (Suc n)
  have "map (\<lambda>k. lc_next_exec_id_value st + 1 + of_nat k) [0..<n] =
      map (\<lambda>k. lc_next_exec_id_value st + of_nat k) (map Suc [0..<n])"
    by (simp add: algebra_simps)
  with Suc show ?case by (simp add: next_exec_id_def map_Suc_upt upt_conv_Cons del: upt_Suc)
qed simp

text \<open>
  A session remembers, under each client order id, the last request that carried it: after
  any sequence of requests a lookup finds the latest request with that id, and nothing for an id
  no request carried; a flush is never found. The execution ids it hands out count up from one.
\<close>
lemma lifecycle_finds_latest_request:
  "find_request i (foldl (\<lambda>s r. remember r s) initial_lifecycle rs) =
     find (\<lambda>r. request_id r = Some i) (rev rs) \<and>
   drawn_exec_ids n initial_lifecycle = map of_nat [1..<Suc n]"
proof
  show "find_request i (foldl (\<lambda>s r. remember r s) initial_lifecycle rs) = find (\<lambda>r. request_id r = Some i) (rev rs)"
  proof -
    have "find_request i initial_lifecycle = None" by (simp add: initial_lifecycle_def find_request_def)
    then show ?thesis unfolding find_foldl by (simp split: option.split)
  qed
  have "map of_nat [1..<Suc n] = map (\<lambda>k. 1 + of_nat k :: u64) [0..<n]"
    by (simp add: map_Suc_upt [symmetric] del: upt_Suc)
  then show "drawn_exec_ids n initial_lifecycle = map of_nat [1..<Suc n]"
    by (simp add: drawn_exec_ids_eq initial_lifecycle_def)
qed

end
