(* ===== verification/Quickfix.thy ===== *)
theory Quickfix
  imports Errors
begin

text \<open>
  FIX messages, their text form and the in-memory session pair (\<open>quickfix_fix/message.hpp\<close>,
  \<open>codec.hpp\<close>, \<open>session.hpp\<close>, \<open>src/codec.cpp\<close>, \<open>src/session.cpp\<close>).
\<close>

section \<open>Messages\<close>

type_synonym fix_tag = u16

record fix_message =
  mg_type :: string
  mg_fields :: "(fix_tag \<times> string) list"

definition fix_message_of :: "string \<Rightarrow> fix_message" where
  "fix_message_of msg_type = \<lparr>mg_type = msg_type, mg_fields = []\<rparr>"

fun set_in :: "fix_tag \<Rightarrow> string \<Rightarrow> (fix_tag \<times> string) list \<Rightarrow> (fix_tag \<times> string) list" where
  "set_in number v [] = [(number, v)]"
| "set_in number v ((n, w) # fs) = (if n = number then (n, v) # fs else (n, w) # set_in number v fs)"

definition msg_set :: "fix_tag \<Rightarrow> string \<Rightarrow> fix_message \<Rightarrow> fix_message" where
  "msg_set number v m = m\<lparr>mg_fields := set_in number v (mg_fields m)\<rparr>"

fun get_in :: "fix_tag \<Rightarrow> (fix_tag \<times> string) list \<Rightarrow> string option" where
  "get_in number [] = None"
| "get_in number ((n, w) # fs) = (if n = number then Some w else get_in number fs)"

definition msg_get :: "fix_tag \<Rightarrow> fix_message \<Rightarrow> string option" where
  "msg_get number m = get_in number (mg_fields m)"

named_theorems fix_simps \<open>reading back what was set in a message\<close>

lemma get_set_in [simp]: "get_in n (set_in k v fs) = (if n = k then Some v else get_in n fs)"
  by (induction fs) auto

lemma msg_type_set [simp, fix_simps]: "mg_type (msg_set k v m) = mg_type m"
  by (simp add: msg_set_def)

lemma msg_get_set [simp, fix_simps]: "msg_get n (msg_set k v m) = (if n = k then Some v else msg_get n m)"
  by (simp add: msg_get_def msg_set_def)

lemma msg_of [simp, fix_simps]: "mg_type (fix_message_of t) = t" "msg_get n (fix_message_of t) = None"
  by (simp_all add: fix_message_of_def msg_get_def)

lemma tags_set_in: "map fst (set_in k v fs) = (if k \<in> fst ` set fs then map fst fs else map fst fs @ [k])"
proof (induction fs)
  case (Cons f fs)
  then show ?case by (cases f) auto
qed simp

lemma set_tags_set_in: "fst ` set (set_in k v fs) = insert k (fst ` set fs)"
proof -
  have "set (map fst (set_in k v fs)) = insert k (fst ` set fs)" by (auto simp: tags_set_in)
  then show ?thesis by simp
qed

lemma distinct_set_in: "distinct (map fst fs) \<Longrightarrow> distinct (map fst (set_in k v fs))"
  by (simp add: tags_set_in)

lemma set_in_new: "k \<notin> set (map fst fs) \<Longrightarrow> set_in k v fs = fs @ [(k, v)]"
  by (induction fs) auto

section \<open>Text form\<close>

definition soh :: char where "soh = CHR 0x01"
definition printable_delimiter :: char where "printable_delimiter = CHR ''|''"
definition msg_type_tag :: fix_tag where "msg_type_tag = 35"

definition encode_field :: "char \<Rightarrow> fix_tag \<Rightarrow> string \<Rightarrow> string" where
  "encode_field delimiter number v = format_unsigned number @ [CHR ''=''] @ v @ [delimiter]"

definition encode_message :: "fix_message \<Rightarrow> char \<Rightarrow> string" where
  "encode_message m delimiter =
     encode_field delimiter msg_type_tag (mg_type m) @
     concat (map (\<lambda>(number, v). encode_field delimiter number v) (mg_fields m))"

definition decode_field :: "string \<Rightarrow> string \<times> fix_message \<Rightarrow> (string \<times> fix_message) result" where
  "decode_field field out =
     (case find_char (CHR ''='') field of
        None \<Rightarrow> Inl (Malformed_Message (''malformed FIX field '' @ [CHR 0x27] @ field @ [CHR 0x27]))
      | Some separator \<Rightarrow>
          (if separator = 0 then Inl (Malformed_Message (''malformed FIX field '' @ [CHR 0x27] @ field @ [CHR 0x27]))
           else rbind (from_chars Match_Exact (take separator field)) (\<lambda>number.
             let v = drop (separator + 1) field
             in if number = msg_type_tag then Inr (v, snd out)
                else Inr (fst out, msg_set number v (snd out)))))"

text \<open>The loop consumes the payload one delimited field at a time; empty fields are skipped.\<close>

function decode_loop :: "char \<Rightarrow> string \<Rightarrow> string \<times> fix_message \<Rightarrow> (string \<times> fix_message) result" where
  "decode_loop delimiter payload out =
     (if payload = [] then Inr out
      else (case find_char delimiter payload of
              None \<Rightarrow> decode_field payload out
            | Some end_index \<Rightarrow>
                rbind (if end_index = 0 then Inr out else decode_field (take end_index payload) out) (\<lambda>out'.
                decode_loop delimiter (drop (end_index + 1) payload) out')))"
  by pat_completeness auto
termination
  by (relation "measure (\<lambda>(d, payload, out). length payload)") auto

declare decode_loop.simps [simp del]

definition decode_message :: "string \<Rightarrow> char \<Rightarrow> fix_message result" where
  "decode_message payload delimiter =
     rbind (decode_loop delimiter payload ([], fix_message_of [])) (\<lambda>(msg_type, output).
       if msg_type = [] then Inl Missing_Msg_Type
       else Inr (foldl (\<lambda>m (number, v). msg_set number v m) (fix_message_of msg_type) (mg_fields output)))"

text \<open>Which messages have a faithful text form under a delimiter.\<close>

definition message_ok :: "char \<Rightarrow> fix_message \<Rightarrow> bool" where
  "message_ok delimiter m \<longleftrightarrow>
     mg_type m \<noteq> [] \<and> delimiter \<notin> set (mg_type m) \<and>
     distinct (map fst (mg_fields m)) \<and> msg_type_tag \<notin> set (map fst (mg_fields m)) \<and>
     (\<forall>f\<in>set (mg_fields m). delimiter \<notin> set (snd f))"

definition delimiter_ok :: "char \<Rightarrow> bool" where
  "delimiter_ok delimiter \<longleftrightarrow> delimiter \<noteq> CHR ''='' \<and> \<not> is_digit delimiter"

lemma delimiters_ok [simp]: "delimiter_ok soh" "delimiter_ok printable_delimiter"
  by (simp_all add: delimiter_ok_def soh_def printable_delimiter_def is_digit_def)

lemma equals_not_digit: "\<not> is_digit (CHR ''='')"
  by (simp add: is_digit_def)

lemma decode_field_encoded:
  "decode_field (format_unsigned number @ [CHR ''=''] @ v) out =
     (if number = msg_type_tag then Inr (v, snd out) else Inr (fst out, msg_set number v (snd out)))"
proof -
  have "CHR ''='' \<notin> set (format_unsigned number)" using format_unsigned_digits equals_not_digit by blast
  from find_char_append [OF this, of v] show ?thesis
    by (simp add: decode_field_def Let_def)
qed

lemma decode_loop_field:
  assumes "delimiter_ok delimiter" "delimiter \<notin> set v"
  shows "decode_loop delimiter (encode_field delimiter number v @ rest) out =
     decode_loop delimiter rest
       (if number = msg_type_tag then (v, snd out) else (fst out, msg_set number v (snd out)))"
proof -
  let ?f = "format_unsigned number @ [CHR ''=''] @ v"
  have notin: "delimiter \<notin> set ?f"
    using assms format_unsigned_digits by (auto simp: delimiter_ok_def)
  have ne: "?f \<noteq> []" by simp
  have enc: "encode_field delimiter number v @ rest = ?f @ delimiter # rest"
    by (simp add: encode_field_def)
  have fc: "find_char delimiter (?f @ delimiter # rest) = Some (length ?f)"
    using find_char_append [OF notin] .
  have tk: "take (length ?f) (?f @ delimiter # rest) = ?f" "drop (length ?f + 1) (?f @ delimiter # rest) = rest"
    by simp_all
  show ?thesis
    unfolding enc decode_loop.simps [of delimiter "?f @ delimiter # rest"] fc option.case tk
    unfolding decode_field_encoded using ne by simp
qed

lemma decode_loop_fields:
  assumes "delimiter_ok delimiter" "\<forall>f\<in>set fs. delimiter \<notin> set (snd f)" "msg_type_tag \<notin> set (map fst fs)"
  shows "decode_loop delimiter (concat (map (\<lambda>(number, v). encode_field delimiter number v) fs)) (t, m) =
     Inr (t, foldl (\<lambda>m (number, v). msg_set number v m) m fs)"
  using assms(2,3)
proof (induction fs arbitrary: m)
  case Nil
  then show ?case by (simp add: decode_loop.simps)
next
  case (Cons f fs)
  obtain number v where f: "f = (number, v)" by (cases f)
  from Cons.prems have "number \<noteq> msg_type_tag" "delimiter \<notin> set v" by (auto simp: f)
  with Cons show ?case by (simp add: f decode_loop_field [OF assms(1)])
qed

lemma foldl_set_new:
  "distinct (map fst fs) \<Longrightarrow> set (map fst (mg_fields m)) \<inter> set (map fst fs) = {} \<Longrightarrow>
   foldl (\<lambda>m (number, v). msg_set number v m) m fs = m\<lparr>mg_fields := mg_fields m @ fs\<rparr>"
proof (induction fs arbitrary: m)
  case (Cons f fs)
  obtain number v where f: "f = (number, v)" by (cases f)
  from Cons.prems have "number \<notin> set (map fst (mg_fields m))" by (auto simp: f)
  then have "msg_set number v m = m\<lparr>mg_fields := mg_fields m @ [(number, v)]\<rparr>"
    by (simp add: msg_set_def set_in_new)
  with Cons show ?case by (auto simp: f)
qed simp

lemma decode_encode_message:
  assumes "delimiter_ok delimiter" "message_ok delimiter m"
  shows "decode_message (encode_message m delimiter) delimiter = Inr m"
proof -
  from assms(2) have m: "mg_type m \<noteq> []" "delimiter \<notin> set (mg_type m)" "distinct (map fst (mg_fields m))"
    "msg_type_tag \<notin> set (map fst (mg_fields m))" "\<forall>f\<in>set (mg_fields m). delimiter \<notin> set (snd f)"
    by (simp_all add: message_ok_def)
  have "foldl (\<lambda>m (number, v). msg_set number v m) (fix_message_of t) (mg_fields m) =
      \<lparr>mg_type = t, mg_fields = mg_fields m\<rparr>" for t
    using foldl_set_new [OF m(3), of "fix_message_of t"] by (simp add: fix_message_of_def)
  then show ?thesis
    using m(1) by (simp add: decode_message_def encode_message_def decode_loop_field [OF assms(1) m(2)]
        decode_loop_fields [OF assms(1) m(5,4)])
qed

text \<open>
  C29: Decoding the text form of a message gives the message back, with its type and every field
  in order, for any delimiter that is neither a digit nor the equals sign, as long as the
  message has a type, no repeated tag, no field numbered 35 and no value containing the
  delimiter; values may contain equals signs.
\<close>
theorem fix_text_roundtrip:
  assumes "delimiter_ok delimiter" "message_ok delimiter m"
  shows "decode_message (encode_message m delimiter) delimiter = Inr m"
  using assms by (rule decode_encode_message)

definition sample_message :: fix_message where
  "sample_message = \<lparr>mg_type = ''D'', mg_fields = [(1, ''7''), (58, ''a=b''), (55, ''PETR4'')]\<rparr>"

lemma fix_text_roundtrip_witness:
  "decode_message (encode_message sample_message soh) soh = Inr sample_message"
  by (rule fix_text_roundtrip) (simp, code_simp)

text \<open>The invariant of the decoder's output.\<close>

lemma decode_field_tags:
  assumes "decode_field field out = Inr out'" "distinct (map fst (mg_fields (snd out)))"
    "msg_type_tag \<notin> set (map fst (mg_fields (snd out)))"
  shows "distinct (map fst (mg_fields (snd out'))) \<and> msg_type_tag \<notin> set (map fst (mg_fields (snd out')))"
proof -
  from assms(1) consider v where "out' = (v, snd out)"
    | number v where "out' = (fst out, msg_set number v (snd out))" "number \<noteq> msg_type_tag"
    by (auto simp: decode_field_def Let_def rbind_eq_Inr_iff split: option.splits if_splits)
  then show ?thesis
  proof cases
    case 1
    with assms(2,3) show ?thesis by simp
  next
    case 2
    with assms(2,3) show ?thesis
      unfolding msg_set_def set_map by (simp add: set_tags_set_in distinct_set_in)
  qed
qed

lemma decode_loop_tags:
  "decode_loop delimiter payload out = Inr out' \<Longrightarrow> distinct (map fst (mg_fields (snd out))) \<Longrightarrow>
   msg_type_tag \<notin> set (map fst (mg_fields (snd out))) \<Longrightarrow>
   distinct (map fst (mg_fields (snd out'))) \<and> msg_type_tag \<notin> set (map fst (mg_fields (snd out')))"
proof (induction delimiter payload out rule: decode_loop.induct)
  case (1 delimiter payload out)
  show ?case
  proof (cases "payload = []")
    case True
    with "1.prems" show ?thesis by (simp add: decode_loop.simps)
  next
    case ne: False
    show ?thesis
    proof (cases "find_char delimiter payload")
      case None
      with ne "1.prems" decode_field_tags show ?thesis by (simp add: decode_loop.simps [of delimiter payload])
    next
      case (Some i)
      with ne "1.prems"(1) obtain out1 where
        s: "(if i = 0 then Inr out else decode_field (take i payload) out) = Inr out1"
        "decode_loop delimiter (drop (i + 1) payload) out1 = Inr out'"
        unfolding decode_loop.simps [of delimiter payload] by (auto simp: rbind_eq_Inr_iff)
      have "distinct (map fst (mg_fields (snd out1))) \<and> msg_type_tag \<notin> set (map fst (mg_fields (snd out1)))"
        using s(1) "1.prems"(2,3) decode_field_tags by (auto split: if_splits)
      with "1.IH" [OF ne Some s(1) s(2)] show ?thesis by blast
    qed
  qed
qed

text \<open>
  C30: Whatever text the decoder accepts, the message it returns has a non-empty type, no field
  numbered 35 and no repeated tag; a text with no type is refused as such.
\<close>
theorem decoded_message_well_formed:
  assumes "decode_message payload delimiter = Inr m"
  shows "mg_type m \<noteq> [] \<and> distinct (map fst (mg_fields m)) \<and> msg_type_tag \<notin> set (map fst (mg_fields m))"
proof -
  from assms obtain t out where loop: "decode_loop delimiter payload ([], fix_message_of []) = Inr (t, out)"
    and t: "t \<noteq> []" and m: "m = foldl (\<lambda>m (number, v). msg_set number v m) (fix_message_of t) (mg_fields out)"
    unfolding decode_message_def rbind_eq_Inr_iff by (auto split: if_splits)
  from decode_loop_tags [OF loop] have tags: "distinct (map fst (mg_fields out))" "msg_type_tag \<notin> set (map fst (mg_fields out))"
    by (auto simp: fix_message_of_def)
  with t show ?thesis
    using foldl_set_new [OF tags(1), of "fix_message_of t"] by (simp add: m fix_message_of_def)
qed

lemma decoded_message_well_formed_witness:
  "\<exists>m. decode_message ''11=5|35=F|11=6|'' printable_delimiter = Inr m \<and> mg_type m \<noteq> [] \<and> distinct (map fst (mg_fields m))"
proof -
  have d: "delimiter_ok printable_delimiter" "printable_delimiter \<notin> set ''5''" "printable_delimiter \<notin> set ''F''"
    "printable_delimiter \<notin> set ''6''" by (simp_all only: delimiters_ok) (simp_all add: printable_delimiter_def)
  have bytes: "''11=5|35=F|11=6|'' = encode_field printable_delimiter 11 ''5'' @
      encode_field printable_delimiter msg_type_tag ''F'' @ encode_field printable_delimiter 11 ''6'' @ []"
    by (simp add: encode_field_def format_unsigned_def printable_delimiter_def msg_type_tag_def decimal.simps) code_simp
  have "decode_message ''11=5|35=F|11=6|'' printable_delimiter = Inr \<lparr>mg_type = ''F'', mg_fields = [(11, ''6'')]\<rparr>"
    unfolding bytes decode_message_def decode_loop_field [OF d(1) d(2)] decode_loop_field [OF d(1) d(3)]
      decode_loop_field [OF d(1) d(4)]
    by (simp add: decode_loop.simps msg_type_tag_def fix_message_of_def msg_set_def)
  from decoded_message_well_formed [OF this] this show ?thesis by blast
qed

section \<open>Sessions\<close>

text \<open>
  The two endpoints of a pair. An endpoint's \<open>peer_\<close> is the other one or null; its
  \<open>on_message\<close> and \<open>on_reject\<close> may be unset, and a delivery to a set callback is recorded.
\<close>

datatype endpoint = Initiator | Acceptor

datatype delivery = Delivered_Message endpoint fix_message | Delivered_Reject endpoint string

record sessions =
  peer_of :: "endpoint \<Rightarrow> endpoint option"
  has_on_message :: "endpoint \<Rightarrow> bool"
  has_on_reject :: "endpoint \<Rightarrow> bool"
  deliveries :: "delivery list"

definition connect :: "endpoint \<Rightarrow> endpoint \<Rightarrow> sessions \<Rightarrow> sessions" where
  "connect s peer st = st\<lparr>peer_of := (peer_of st)(s := Some peer)\<rparr>"

definition receive :: "endpoint \<Rightarrow> fix_message \<Rightarrow> sessions \<Rightarrow> sessions" where
  "receive s m st =
     (if has_on_message st s then st\<lparr>deliveries := deliveries st @ [Delivered_Message s m]\<rparr> else st)"

definition receive_reject :: "endpoint \<Rightarrow> string \<Rightarrow> sessions \<Rightarrow> sessions" where
  "receive_reject s reason st =
     (if has_on_reject st s then st\<lparr>deliveries := deliveries st @ [Delivered_Reject s reason]\<rparr> else st)"

definition session_send :: "endpoint \<Rightarrow> fix_message \<Rightarrow> sessions \<Rightarrow> sessions result" where
  "session_send s m st =
     (case peer_of st s of
        None \<Rightarrow> Inl Not_Connected
      | Some peer \<Rightarrow> Inr (receive peer m st))"

definition session_pair :: "(endpoint \<Rightarrow> bool) \<Rightarrow> (endpoint \<Rightarrow> bool) \<Rightarrow> sessions" where
  "session_pair on_message on_reject =
     connect Acceptor Initiator (connect Initiator Acceptor
       \<lparr>peer_of = (\<lambda>_. None), has_on_message = on_message, has_on_reject = on_reject, deliveries = []\<rparr>)"

fun other_end :: "endpoint \<Rightarrow> endpoint" where
  "other_end Initiator = Acceptor"
| "other_end Acceptor = Initiator"

fun send_all :: "endpoint \<Rightarrow> fix_message list \<Rightarrow> sessions \<Rightarrow> sessions result" where
  "send_all s [] st = Inr st"
| "send_all s (m # ms) st = rbind (session_send s m st) (send_all s ms)"

lemma send_all_pair:
  "peer_of st = (\<lambda>s. Some (other_end s)) \<Longrightarrow>
   send_all s ms st = Inr (if has_on_message st (other_end s)
                           then st\<lparr>deliveries := deliveries st @ map (Delivered_Message (other_end s)) ms\<rparr> else st)"
  by (induction ms arbitrary: st) (simp_all add: session_send_def receive_def)

text \<open>
  C31: Over a connected pair, whatever one end sends arrives at the other end, once, unchanged
  and in the order sent, if that end listens; a session without a peer refuses to send.
\<close>
theorem session_pair_delivers_in_order:
  "send_all s ms (session_pair on_message on_reject) =
     Inr ((session_pair on_message on_reject)
            \<lparr>deliveries := (if on_message (other_end s) then map (Delivered_Message (other_end s)) ms else [])\<rparr>) \<and>
   session_send s m ((session_pair on_message on_reject)\<lparr>peer_of := \<lambda>_. None\<rparr>) = Inl Not_Connected"
proof -
  have p: "peer_of (session_pair on_message on_reject) = (\<lambda>s. Some (other_end s))"
    by (rule ext) (auto simp: session_pair_def connect_def elim: other_end.elims split: endpoint.split,
        metis other_end.simps endpoint.exhaust)
  have "has_on_message (session_pair on_message on_reject) = on_message" "deliveries (session_pair on_message on_reject) = []"
    by (simp_all add: session_pair_def connect_def)
  with send_all_pair [OF p, of s ms] show ?thesis by (auto simp: session_send_def)
qed

end
