(* ===== verification/Codec.thy ===== *)
theory Codec
  imports Errors
begin

text \<open>
  The contract every encoder/decoder pair of the program keeps: what the encoder makes of a
  valid value is well formed on the wire and decodes to that value. Pairs that share a wire
  type compose; the codec theories interpret these locales on their own definitions.
\<close>

locale codec =
  fixes enc :: "'a \<Rightarrow> 'b result"
    and dec :: "'b \<Rightarrow> 'a result"
    and valid :: "'a \<Rightarrow> bool"
    and wire_ok :: "'b \<Rightarrow> bool"
  assumes enc_valid: "valid x \<Longrightarrow> \<exists>y. enc x = Inr y \<and> wire_ok y \<and> dec y = Inr x"
begin

lemma decodes: "valid x \<Longrightarrow> enc x = Inr y \<Longrightarrow> dec y = Inr x"
  using enc_valid [of x] by auto

lemma on_wire: "valid x \<Longrightarrow> enc x = Inr y \<Longrightarrow> wire_ok y"
  using enc_valid [of x] by auto

lemma encoder_injective:
  assumes "valid x" "valid x'" "enc x = enc x'"
  shows "x = x'"
proof -
  from enc_valid [OF assms(1)] obtain y where y: "enc x = Inr y" "dec y = Inr x" by blast
  from enc_valid [OF assms(2)] assms(3) y have "dec y = Inr x'" by auto
  with y show ?thesis by simp
qed

lemma roundtrip: "valid x \<Longrightarrow> rbind (enc x) dec = Inr x"
  using enc_valid [of x] by auto

lemma map_decodes: "list_all valid xs \<Longrightarrow> map (\<lambda>x. rbind (enc x) dec) xs = map Inr xs"
  by (induction xs) (simp_all add: roundtrip)

end

text \<open>Two pairs in a row: what the outer pair carries is what the inner pair encodes.\<close>

locale codec_chain =
  outer: codec enc dec valid wire_ok + inner: codec enc' dec' valid' wire_ok'
  for enc :: "'a \<Rightarrow> 'b result" and dec valid wire_ok
    and enc' :: "'b \<Rightarrow> 'c result" and dec' valid' wire_ok' +
  fixes fits :: "'a \<Rightarrow> bool"
  assumes wire_valid: "valid x \<Longrightarrow> fits x \<Longrightarrow> enc x = Inr y \<Longrightarrow> valid' y"
begin

lemma chain_valid:
  assumes "valid x" "fits x"
  shows "\<exists>z. rbind (enc x) enc' = Inr z \<and> wire_ok' z \<and> rbind (dec' z) dec = Inr x"
proof -
  from outer.enc_valid [OF assms(1)] obtain y where y: "enc x = Inr y" "dec y = Inr x" by blast
  from inner.enc_valid [OF wire_valid [OF assms y(1)]] y show ?thesis by auto
qed

end

sublocale codec_chain \<subseteq> both: codec "\<lambda>x. rbind (enc x) enc'" "\<lambda>z. rbind (dec' z) dec" "\<lambda>x. valid x \<and> fits x" wire_ok'
  by unfold_locales (use chain_valid in blast)

end
