(* ===== verification/Morfix_Quickfix.thy ===== *)
theory Morfix_Quickfix
  imports Ospec_B3 Morfix Quickfix Fixed_String Codec
begin

text \<open>
  The B3 codecs (\<open>morfix_quickfix/src/codecs.cpp\<close>): the initiator writes requests and reads
  events, the acceptor reads requests and writes events. Fields are read in the order of the
  code, so the first field that is missing or malformed decides the error.
\<close>

section \<open>Field access\<close>

definition new_order_single_msg_type :: string where "new_order_single_msg_type = ''D''"
definition order_cancel_replace_request_msg_type :: string where "order_cancel_replace_request_msg_type = ''G''"
definition order_cancel_request_msg_type :: string where "order_cancel_request_msg_type = ''F''"
definition execution_report_msg_type :: string where "execution_report_msg_type = ''8''"
definition order_cancel_reject_msg_type :: string where "order_cancel_reject_msg_type = ''9''"

lemmas msg_type_defs =
  new_order_single_msg_type_def order_cancel_replace_request_msg_type_def order_cancel_request_msg_type_def
  execution_report_msg_type_def order_cancel_reject_msg_type_def

text \<open>
  \<open>as_field_value\<close> renders a number in decimal (\<open>format_unsigned\<close>), a character as itself and a
  string as it is; the caller of \<open>set_field\<close> passes the rendering.
\<close>

definition as_char_value :: "char \<Rightarrow> string" where
  "as_char_value c = [c]"

definition set_field :: "field_spec \<Rightarrow> string \<Rightarrow> fix_message \<Rightarrow> fix_message" where
  "set_field spec v m = msg_set (fd_number spec) v m"

definition set_optional_field :: "field_spec \<Rightarrow> string option \<Rightarrow> fix_message \<Rightarrow> fix_message" where
  "set_optional_field spec v m = (case v of None \<Rightarrow> m | Some x \<Rightarrow> set_field spec x m)"

definition get_required_view :: "fix_message \<Rightarrow> field_spec \<Rightarrow> string result" where
  "get_required_view m spec =
     (case msg_get (fd_number spec) m of
        Some v \<Rightarrow> if v = [] then invalid_argument (fd_name spec @ '' is empty'') else Inr v
      | None \<Rightarrow> invalid_argument (''missing required field '' @ fd_name spec))"

definition parse_integral :: "string \<Rightarrow> 'a::len word result" where
  "parse_integral v = from_chars Match_Exact v"

definition parse_fixed_string :: "nat \<Rightarrow> string \<Rightarrow> string result" where
  "parse_fixed_string n v = rbind (fs_from n v) (\<lambda>parsed. Inr (to_string_view parsed))"

text \<open>\<open>get_required<T>\<close>, with the field parser of \<open>T\<close>; a string is taken as it is.\<close>

definition get_required :: "(string \<Rightarrow> 'a result) \<Rightarrow> fix_message \<Rightarrow> field_spec \<Rightarrow> 'a result" where
  "get_required parse m spec = rbind (get_required_view m spec) parse"

definition get_required_char :: "fix_message \<Rightarrow> field_spec \<Rightarrow> char result" where
  "get_required_char m spec =
     rbind (get_required_view m spec) (\<lambda>v.
       if length v \<noteq> 1 then invalid_argument (fd_name spec @ '' must be one character'') else Inr (hd v))"

definition get_optional :: "(string \<Rightarrow> 'a result) \<Rightarrow> fix_message \<Rightarrow> field_spec \<Rightarrow> 'a option result" where
  "get_optional parse m spec =
     (case msg_get (fd_number spec) m of
        None \<Rightarrow> Inr None
      | Some _ \<Rightarrow> rbind (get_required parse m spec) (\<lambda>v. Inr (Some v)))"

section \<open>Decoding\<close>

definition decode_new_order_single :: "fix_message \<Rightarrow> fix_new_order_single result" where
  "decode_new_order_single m =
     rbind (get_required_char m spec_side) (\<lambda>side_value.
     rbind (parse_side side_value) (\<lambda>side'.
     rbind (get_required_char m spec_ord_type) (\<lambda>ord_type_value.
     rbind (parse_ord_type ord_type_value) (\<lambda>ord_type'.
     rbind (get_required_char m spec_time_in_force) (\<lambda>time_in_force_value.
     rbind (parse_time_in_force time_in_force_value) (\<lambda>time_in_force'.
     rbind (get_required parse_integral m spec_account) (\<lambda>account'.
     rbind (get_required parse_integral m spec_cl_ord_id) (\<lambda>cl_ord_id'.
     rbind (get_required parse_integral m spec_security_id) (\<lambda>security_id'.
     rbind (get_required (parse_fixed_string symbol_size) m spec_symbol) (\<lambda>symbol'.
     rbind (get_required (parse_fixed_string security_exchange_size) m spec_security_exchange) (\<lambda>security_exchange'.
     rbind (get_required parse_integral m spec_order_qty) (\<lambda>order_qty'.
     rbind (get_required parse_integral m spec_price) (\<lambda>price'.
     Inr \<lparr>fno_account = account',
       fno_cl_ord_id = cl_ord_id',
       fno_security_id = security_id',
       fno_symbol = symbol',
       fno_security_exchange = security_exchange',
       fno_side = side',
       fno_ord_type = ord_type',
       fno_time_in_force = time_in_force',
       fno_order_qty = order_qty',
       fno_price = price'\<rparr>)))))))))))))"

definition decode_order_cancel_replace_request :: "fix_message \<Rightarrow> fix_order_cancel_replace_request result" where
  "decode_order_cancel_replace_request m =
     rbind (decode_new_order_single m) (\<lambda>order.
     rbind (get_required parse_integral m spec_orig_cl_ord_id) (\<lambda>orig_cl_ord_id'.
     Inr \<lparr>frr_account = fno_account order,
       frr_cl_ord_id = fno_cl_ord_id order,
       frr_orig_cl_ord_id = orig_cl_ord_id',
       frr_security_id = fno_security_id order,
       frr_symbol = fno_symbol order,
       frr_security_exchange = fno_security_exchange order,
       frr_side = fno_side order,
       frr_ord_type = fno_ord_type order,
       frr_time_in_force = fno_time_in_force order,
       frr_order_qty = fno_order_qty order,
       frr_price = fno_price order\<rparr>))"

definition decode_order_cancel_request :: "fix_message \<Rightarrow> fix_order_cancel_request result" where
  "decode_order_cancel_request m =
     rbind (get_required parse_integral m spec_account) (\<lambda>account'.
     rbind (get_required parse_integral m spec_cl_ord_id) (\<lambda>cl_ord_id'.
     rbind (get_required parse_integral m spec_orig_cl_ord_id) (\<lambda>orig_cl_ord_id'.
     Inr \<lparr>fcq_account = account',
       fcq_cl_ord_id = cl_ord_id',
       fcq_orig_cl_ord_id = orig_cl_ord_id'\<rparr>)))"

definition decode_execution_report :: "fix_message \<Rightarrow> fix_execution_report result" where
  "decode_execution_report m =
     rbind (get_required_char m spec_side) (\<lambda>side_value.
     rbind (parse_side side_value) (\<lambda>side'.
     rbind (get_required_char m spec_ord_type) (\<lambda>ord_type_value.
     rbind (parse_ord_type ord_type_value) (\<lambda>ord_type'.
     rbind (get_required_char m spec_time_in_force) (\<lambda>time_in_force_value.
     rbind (parse_time_in_force time_in_force_value) (\<lambda>time_in_force'.
     rbind (get_required_char m spec_exec_type) (\<lambda>exec_type_value.
     rbind (parse_exec_type exec_type_value) (\<lambda>exec_type'.
     rbind (get_required_char m spec_ord_status) (\<lambda>ord_status_value.
     rbind (parse_ord_status ord_status_value) (\<lambda>ord_status'.
     rbind (get_optional parse_integral m spec_cxl_rej_reason) (\<lambda>reject_reason_code.
     rbind (get_required parse_integral m spec_account) (\<lambda>account'.
     rbind (get_required parse_integral m spec_cl_ord_id) (\<lambda>cl_ord_id'.
     rbind (get_optional parse_integral m spec_orig_cl_ord_id) (\<lambda>orig_cl_ord_id'.
     rbind (get_required parse_integral m spec_order_id) (\<lambda>order_id'.
     rbind (get_required parse_integral m spec_exec_id) (\<lambda>exec_id'.
     rbind (get_required parse_integral m spec_security_id) (\<lambda>security_id'.
     rbind (get_required (parse_fixed_string symbol_size) m spec_symbol) (\<lambda>symbol'.
     rbind (get_required (parse_fixed_string security_exchange_size) m spec_security_exchange) (\<lambda>security_exchange'.
     rbind (get_required parse_integral m spec_order_qty) (\<lambda>order_qty'.
     rbind (get_required parse_integral m spec_cum_qty) (\<lambda>cum_qty'.
     rbind (get_required parse_integral m spec_leaves_qty) (\<lambda>leaves_qty'.
     rbind (get_optional parse_integral m spec_last_qty) (\<lambda>last_qty'.
     rbind (get_optional parse_integral m spec_last_px) (\<lambda>last_px'.
     rbind (get_optional parse_integral m spec_avg_px) (\<lambda>avg_px'.
     rbind (get_required parse_integral m spec_transact_time) (\<lambda>transact_time'.
     rbind (get_optional Inr m spec_text) (\<lambda>text'.
     rbind (case reject_reason_code of None \<Rightarrow> Inr None
            | Some code \<Rightarrow> rbind (parse_reject_reason code) (\<lambda>r. Inr (Some r))) (\<lambda>reject_reason'.
     Inr \<lparr>fer_account = account',
       fer_cl_ord_id = cl_ord_id',
       fer_orig_cl_ord_id = orig_cl_ord_id',
       fer_order_id = order_id',
       fer_exec_id = exec_id',
       fer_security_id = security_id',
       fer_symbol = symbol',
       fer_security_exchange = security_exchange',
       fer_side = side',
       fer_ord_type = ord_type',
       fer_time_in_force = time_in_force',
       fer_exec_type = exec_type',
       fer_ord_status = ord_status',
       fer_order_qty = order_qty',
       fer_cum_qty = cum_qty',
       fer_leaves_qty = leaves_qty',
       fer_last_qty = last_qty',
       fer_last_px = last_px',
       fer_avg_px = avg_px',
       fer_transact_time = transact_time',
       fer_reject_reason = reject_reason',
       fer_text = (case text' of Some t \<Rightarrow> t | None \<Rightarrow> [])\<rparr>))))))))))))))))))))))))))))"

definition decode_order_cancel_reject :: "fix_message \<Rightarrow> fix_order_cancel_reject result" where
  "decode_order_cancel_reject m =
     rbind (get_required parse_integral m spec_cxl_rej_reason) (\<lambda>reject_reason_code.
     rbind (parse_reject_reason reject_reason_code) (\<lambda>reject_reason'.
     rbind (get_required parse_integral m spec_account) (\<lambda>account'.
     rbind (get_required parse_integral m spec_cl_ord_id) (\<lambda>cl_ord_id'.
     rbind (get_required parse_integral m spec_orig_cl_ord_id) (\<lambda>orig_cl_ord_id'.
     rbind (get_optional Inr m spec_text) (\<lambda>text'.
     rbind (get_required parse_integral m spec_transact_time) (\<lambda>transact_time'.
     Inr \<lparr>fcr_account = account',
       fcr_cl_ord_id = cl_ord_id',
       fcr_orig_cl_ord_id = orig_cl_ord_id',
       fcr_reject_reason = reject_reason',
       fcr_text = (case text' of Some t \<Rightarrow> t | None \<Rightarrow> []),
       fcr_transact_time = transact_time'\<rparr>)))))))"

section \<open>Encoding\<close>

text \<open>
  Each \<open>set_field\<close> mutates the local message: the successive values of \<open>m\<close>. An optional field and a
  non-empty text are set only when there is something to set.
\<close>

definition encode_new_order_single :: "fix_new_order_single \<Rightarrow> fix_message" where
  "encode_new_order_single r =
    (let m = fix_message_of new_order_single_msg_type;
         m = set_field spec_account (format_unsigned (fno_account r)) m;
         m = set_field spec_cl_ord_id (format_unsigned (fno_cl_ord_id r)) m;
         m = set_field spec_security_id (format_unsigned (fno_security_id r)) m;
         m = set_field spec_symbol (fno_symbol r) m;
         m = set_field spec_security_exchange (fno_security_exchange r) m;
         m = set_field spec_side (as_char_value (normalize_side (fno_side r))) m;
         m = set_field spec_ord_type (as_char_value (normalize_ord_type (fno_ord_type r))) m;
         m = set_field spec_time_in_force (as_char_value (normalize_time_in_force (fno_time_in_force r))) m;
         m = set_field spec_order_qty (format_unsigned (fno_order_qty r)) m;
         m = set_field spec_price (format_unsigned (fno_price r)) m
     in m)"

definition encode_order_cancel_replace_request :: "fix_order_cancel_replace_request \<Rightarrow> fix_message" where
  "encode_order_cancel_replace_request r =
    (let m = fix_message_of order_cancel_replace_request_msg_type;
         m = set_field spec_account (format_unsigned (frr_account r)) m;
         m = set_field spec_cl_ord_id (format_unsigned (frr_cl_ord_id r)) m;
         m = set_field spec_orig_cl_ord_id (format_unsigned (frr_orig_cl_ord_id r)) m;
         m = set_field spec_security_id (format_unsigned (frr_security_id r)) m;
         m = set_field spec_symbol (frr_symbol r) m;
         m = set_field spec_security_exchange (frr_security_exchange r) m;
         m = set_field spec_side (as_char_value (normalize_side (frr_side r))) m;
         m = set_field spec_ord_type (as_char_value (normalize_ord_type (frr_ord_type r))) m;
         m = set_field spec_time_in_force (as_char_value (normalize_time_in_force (frr_time_in_force r))) m;
         m = set_field spec_order_qty (format_unsigned (frr_order_qty r)) m;
         m = set_field spec_price (format_unsigned (frr_price r)) m
     in m)"

definition encode_order_cancel_request :: "fix_order_cancel_request \<Rightarrow> fix_message" where
  "encode_order_cancel_request r =
    (let m = fix_message_of order_cancel_request_msg_type;
         m = set_field spec_account (format_unsigned (fcq_account r)) m;
         m = set_field spec_cl_ord_id (format_unsigned (fcq_cl_ord_id r)) m;
         m = set_field spec_orig_cl_ord_id (format_unsigned (fcq_orig_cl_ord_id r)) m
     in m)"

definition encode_execution_report :: "fix_execution_report \<Rightarrow> fix_message" where
  "encode_execution_report e =
    (let m = fix_message_of execution_report_msg_type;
         m = set_field spec_account (format_unsigned (fer_account e)) m;
         m = set_field spec_cl_ord_id (format_unsigned (fer_cl_ord_id e)) m;
         m = set_optional_field spec_orig_cl_ord_id (map_option format_unsigned (fer_orig_cl_ord_id e)) m;
         m = set_field spec_order_id (format_unsigned (fer_order_id e)) m;
         m = set_field spec_exec_id (format_unsigned (fer_exec_id e)) m;
         m = set_field spec_security_id (format_unsigned (fer_security_id e)) m;
         m = set_field spec_symbol (fer_symbol e) m;
         m = set_field spec_security_exchange (fer_security_exchange e) m;
         m = set_field spec_side (as_char_value (normalize_side (fer_side e))) m;
         m = set_field spec_ord_type (as_char_value (normalize_ord_type (fer_ord_type e))) m;
         m = set_field spec_time_in_force (as_char_value (normalize_time_in_force (fer_time_in_force e))) m;
         m = set_field spec_exec_type (as_char_value (normalize_exec_type (fer_exec_type e))) m;
         m = set_field spec_ord_status (as_char_value (normalize_ord_status (fer_ord_status e))) m;
         m = set_field spec_order_qty (format_unsigned (fer_order_qty e)) m;
         m = set_field spec_cum_qty (format_unsigned (fer_cum_qty e)) m;
         m = set_field spec_leaves_qty (format_unsigned (fer_leaves_qty e)) m;
         m = set_optional_field spec_last_qty (map_option format_unsigned (fer_last_qty e)) m;
         m = set_optional_field spec_last_px (map_option format_unsigned (fer_last_px e)) m;
         m = set_optional_field spec_avg_px (map_option format_unsigned (fer_avg_px e)) m;
         m = set_field spec_transact_time (format_unsigned (fer_transact_time e)) m;
         m = set_optional_field spec_cxl_rej_reason (map_option (\<lambda>r. format_unsigned (normalize_reject_reason r)) (fer_reject_reason e)) m;
         m = set_optional_field spec_text (if fer_text e = [] then None else Some (fer_text e)) m
     in m)"

definition encode_order_cancel_reject :: "fix_order_cancel_reject \<Rightarrow> fix_message" where
  "encode_order_cancel_reject e =
    (let m = fix_message_of order_cancel_reject_msg_type;
         m = set_field spec_account (format_unsigned (fcr_account e)) m;
         m = set_field spec_cl_ord_id (format_unsigned (fcr_cl_ord_id e)) m;
         m = set_field spec_orig_cl_ord_id (format_unsigned (fcr_orig_cl_ord_id e)) m;
         m = set_field spec_cxl_rej_reason (format_unsigned (normalize_reject_reason (fcr_reject_reason e))) m;
         m = set_field spec_transact_time (format_unsigned (fcr_transact_time e)) m;
         m = set_optional_field spec_text (if fcr_text e = [] then None else Some (fcr_text e)) m
     in m)"

section \<open>The codecs\<close>

fun initiator_encode :: "fix_request \<Rightarrow> fix_message result" where
  "initiator_encode (Fix_New_Order_Single r) = Inr (encode_new_order_single r)"
| "initiator_encode (Fix_Order_Cancel_Replace_Request r) = Inr (encode_order_cancel_replace_request r)"
| "initiator_encode (Fix_Order_Cancel_Request r) = Inr (encode_order_cancel_request r)"

definition initiator_decode :: "fix_message \<Rightarrow> fix_event result" where
  "initiator_decode m =
     (if mg_type m = execution_report_msg_type
      then rbind (decode_execution_report m) (\<lambda>e. Inr (Fix_Execution_Report e))
      else if mg_type m = order_cancel_reject_msg_type
      then rbind (decode_order_cancel_reject m) (\<lambda>e. Inr (Fix_Order_Cancel_Reject e))
      else Inl (Unsupported_Message (mg_type m)))"

fun acceptor_encode :: "fix_event \<Rightarrow> fix_message result" where
  "acceptor_encode (Fix_Execution_Report e) = Inr (encode_execution_report e)"
| "acceptor_encode (Fix_Order_Cancel_Reject e) = Inr (encode_order_cancel_reject e)"

definition acceptor_decode :: "fix_message \<Rightarrow> fix_request result" where
  "acceptor_decode m =
     (if mg_type m = new_order_single_msg_type
      then rbind (decode_new_order_single m) (\<lambda>r. Inr (Fix_New_Order_Single r))
      else if mg_type m = order_cancel_replace_request_msg_type
      then rbind (decode_order_cancel_replace_request m) (\<lambda>r. Inr (Fix_Order_Cancel_Replace_Request r))
      else if mg_type m = order_cancel_request_msg_type
      then rbind (decode_order_cancel_request m) (\<lambda>r. Inr (Fix_Order_Cancel_Request r))
      else Inl (Unsupported_Message (mg_type m)))"

section \<open>Reading back a field\<close>

lemma get_set_field [simp]:
  "msg_get n (set_field spec v m) = (if n = fd_number spec then Some v else msg_get n m)"
  by (simp add: set_field_def)

lemma get_set_optional_field [simp]:
  "n \<noteq> fd_number spec \<Longrightarrow> msg_get n (set_optional_field spec v m) = msg_get n m"
  "n = fd_number spec \<Longrightarrow> msg_get n m = None \<Longrightarrow> msg_get n (set_optional_field spec v m) = v"
  by (simp_all add: set_optional_field_def split: option.split)

lemma type_set_field [simp]:
  "mg_type (set_field spec v m) = mg_type m"
  "mg_type (set_optional_field spec w m) = mg_type m"
  by (simp_all add: set_field_def set_optional_field_def split: option.split)

lemma get_required_Some [simp]:
  "msg_get (fd_number spec) m = Some v \<Longrightarrow> v \<noteq> [] \<Longrightarrow> get_required parse m spec = parse v"
  by (simp add: get_required_def get_required_view_def)

lemma get_required_char_Some [simp]:
  "msg_get (fd_number spec) m = Some (as_char_value c) \<Longrightarrow> get_required_char m spec = Inr c"
  by (simp add: get_required_char_def get_required_view_def as_char_value_def)

lemma get_optional_None [simp]: "msg_get (fd_number spec) m = None \<Longrightarrow> get_optional parse m spec = Inr None"
  by (simp add: get_optional_def)

lemma get_optional_Some [simp]:
  "msg_get (fd_number spec) m = Some v \<Longrightarrow> v \<noteq> [] \<Longrightarrow>
   get_optional parse m spec = rbind (parse v) (\<lambda>x. Inr (Some x))"
  by (simp add: get_optional_def)

lemma get_optional_integral [simp]:
  "msg_get (fd_number spec) m = map_option format_unsigned w \<Longrightarrow> get_optional parse_integral m spec = Inr w"
  by (cases w) (simp_all add: parse_integral_def)

lemma get_optional_text [simp]:
  "msg_get (fd_number spec) m = (if t = [] then None else Some t) \<Longrightarrow>
   get_optional Inr m spec = Inr (if t = [] then None else Some t)"
  by (cases "t = []") simp_all

lemma parse_integral_format [simp]: "parse_integral (format_unsigned w) = Inr w"
  by (simp add: parse_integral_def)

lemma parse_fixed_string_fits [simp]:
  "length v \<le> n \<Longrightarrow> n \<le> 127 \<Longrightarrow> parse_fixed_string n v = Inr v"
  by (simp add: parse_fixed_string_def fs_from_def from_string_view_def view_store)

lemma parse_fixed_string_Inr:
  "n \<le> 127 \<Longrightarrow> parse_fixed_string n v = Inr w \<Longrightarrow> w = v \<and> length v \<le> n"
  using view_store [of v n] by (auto simp: parse_fixed_string_def fs_from_def from_string_view_def make_leaf_error_def split: if_splits)

section \<open>What survives the wire\<close>

text \<open>
  The messages the codecs carry faithfully: a symbol and an exchange that are not empty (an
  empty required field is an error on the other side) and fit their \<open>fixed_string\<close>.
\<close>

definition instrument_ok :: "symbol \<Rightarrow> security_exchange \<Rightarrow> bool" where
  "instrument_ok s x \<longleftrightarrow> s \<noteq> [] \<and> x \<noteq> [] \<and> symbol_ok s \<and> exchange_ok x"

fun request_ok :: "fix_request \<Rightarrow> bool" where
  "request_ok (Fix_New_Order_Single r) = instrument_ok (fno_symbol r) (fno_security_exchange r)"
| "request_ok (Fix_Order_Cancel_Replace_Request r) = instrument_ok (frr_symbol r) (frr_security_exchange r)"
| "request_ok (Fix_Order_Cancel_Request r) = True"

fun event_ok :: "fix_event \<Rightarrow> bool" where
  "event_ok (Fix_Execution_Report e) = instrument_ok (fer_symbol e) (fer_security_exchange e)"
| "event_ok (Fix_Order_Cancel_Reject e) = True"

text \<open>An event as the other side sees it: the reject reasons have passed through their codes.\<close>

fun wire_event :: "fix_event \<Rightarrow> fix_event" where
  "wire_event (Fix_Execution_Report e) =
     Fix_Execution_Report (e\<lparr>fer_reject_reason := map_option wire_reason (fer_reject_reason e)\<rparr>)"
| "wire_event (Fix_Order_Cancel_Reject e) =
     Fix_Order_Cancel_Reject (e\<lparr>fcr_reject_reason := wire_reason (fcr_reject_reason e)\<rparr>)"

lemmas instrument_defs = instrument_ok_def symbol_ok_def exchange_ok_def symbol_size_def security_exchange_size_def

lemma decode_encode_new_order_single:
  "instrument_ok (fno_symbol r) (fno_security_exchange r) \<Longrightarrow>
   decode_new_order_single (encode_new_order_single r) = Inr r"
  by (simp add: decode_new_order_single_def encode_new_order_single_def Let_def spec_defs instrument_defs)

lemma decode_encode_replace:
  "instrument_ok (frr_symbol r) (frr_security_exchange r) \<Longrightarrow>
   decode_order_cancel_replace_request (encode_order_cancel_replace_request r) = Inr r"
  by (simp add: decode_order_cancel_replace_request_def decode_new_order_single_def
      encode_order_cancel_replace_request_def Let_def spec_defs instrument_defs)

lemma decode_encode_cancel:
  "decode_order_cancel_request (encode_order_cancel_request r) = Inr r"
  by (simp add: decode_order_cancel_request_def encode_order_cancel_request_def Let_def spec_defs)

lemma decode_encode_cancel_reject:
  "decode_order_cancel_reject (encode_order_cancel_reject e) =
     Inr (e\<lparr>fcr_reject_reason := wire_reason (fcr_reject_reason e)\<rparr>)"
  by (cases "fcr_text e = []") (simp_all add: decode_order_cancel_reject_def encode_order_cancel_reject_def Let_def spec_defs)

lemma rbind_weak_cong: "m = m' \<Longrightarrow> rbind m f = rbind m' f"
  by simp

lemma encoded_execution_report_fields:
  "msg_get (fd_number spec_account) (encode_execution_report e) = Some (format_unsigned (fer_account e))"
  "msg_get (fd_number spec_cl_ord_id) (encode_execution_report e) = (Some (format_unsigned (fer_cl_ord_id e)))"
  "msg_get (fd_number spec_orig_cl_ord_id) (encode_execution_report e) = (map_option format_unsigned (fer_orig_cl_ord_id e))"
  "msg_get (fd_number spec_order_id) (encode_execution_report e) = (Some (format_unsigned (fer_order_id e)))"
  "msg_get (fd_number spec_exec_id) (encode_execution_report e) = (Some (format_unsigned (fer_exec_id e)))"
  "msg_get (fd_number spec_security_id) (encode_execution_report e) = (Some (format_unsigned (fer_security_id e)))"
  "msg_get (fd_number spec_symbol) (encode_execution_report e) = (Some (fer_symbol e))"
  "msg_get (fd_number spec_security_exchange) (encode_execution_report e) = (Some (fer_security_exchange e))"
  "msg_get (fd_number spec_side) (encode_execution_report e) = (Some (as_char_value (normalize_side (fer_side e))))"
  "msg_get (fd_number spec_ord_type) (encode_execution_report e) = (Some (as_char_value (normalize_ord_type (fer_ord_type e))))"
  "msg_get (fd_number spec_time_in_force) (encode_execution_report e) = (Some (as_char_value (normalize_time_in_force (fer_time_in_force e))))"
  "msg_get (fd_number spec_exec_type) (encode_execution_report e) = (Some (as_char_value (normalize_exec_type (fer_exec_type e))))"
  "msg_get (fd_number spec_ord_status) (encode_execution_report e) = (Some (as_char_value (normalize_ord_status (fer_ord_status e))))"
  "msg_get (fd_number spec_order_qty) (encode_execution_report e) = (Some (format_unsigned (fer_order_qty e)))"
  "msg_get (fd_number spec_cum_qty) (encode_execution_report e) = (Some (format_unsigned (fer_cum_qty e)))"
  "msg_get (fd_number spec_leaves_qty) (encode_execution_report e) = (Some (format_unsigned (fer_leaves_qty e)))"
  "msg_get (fd_number spec_last_qty) (encode_execution_report e) = (map_option format_unsigned (fer_last_qty e))"
  "msg_get (fd_number spec_last_px) (encode_execution_report e) = (map_option format_unsigned (fer_last_px e))"
  "msg_get (fd_number spec_avg_px) (encode_execution_report e) = (map_option format_unsigned (fer_avg_px e))"
  "msg_get (fd_number spec_transact_time) (encode_execution_report e) = (Some (format_unsigned (fer_transact_time e)))"
  "msg_get (fd_number spec_cxl_rej_reason) (encode_execution_report e) = (map_option (\<lambda>r. format_unsigned (normalize_reject_reason r)) (fer_reject_reason e))"
  "msg_get (fd_number spec_text) (encode_execution_report e) = (if fer_text e = [] then None else Some (fer_text e))"
  by (simp_all add: encode_execution_report_def Let_def spec_defs)

lemma decode_encode_execution_report:
  "instrument_ok (fer_symbol e) (fer_security_exchange e) \<Longrightarrow>
   decode_execution_report (encode_execution_report e) =
     Inr (e\<lparr>fer_reject_reason := map_option wire_reason (fer_reject_reason e)\<rparr>)"
  by (cases "fer_reject_reason e")
    (simp_all add: decode_execution_report_def encoded_execution_report_fields instrument_defs cong: rbind_weak_cong)

lemma encoded_types [simp]:
  "mg_type (encode_new_order_single r1) = new_order_single_msg_type"
  "mg_type (encode_order_cancel_replace_request r2) = order_cancel_replace_request_msg_type"
  "mg_type (encode_order_cancel_request r3) = order_cancel_request_msg_type"
  "mg_type (encode_execution_report e1) = execution_report_msg_type"
  "mg_type (encode_order_cancel_reject e2) = order_cancel_reject_msg_type"
  by (simp_all add: encode_new_order_single_def encode_order_cancel_replace_request_def
      encode_order_cancel_request_def encode_execution_report_def encode_order_cancel_reject_def Let_def)

lemma acceptor_decode_encode: "request_ok r \<Longrightarrow> rbind (initiator_encode r) acceptor_decode = Inr r"
  by (cases r) (simp_all add: acceptor_decode_def decode_encode_new_order_single decode_encode_replace
      decode_encode_cancel, simp_all add: msg_type_defs)

lemma initiator_decode_encode: "event_ok e \<Longrightarrow> rbind (acceptor_encode e) initiator_decode = Inr (wire_event e)"
  by (cases e) (simp_all add: initiator_decode_def decode_encode_execution_report decode_encode_cancel_reject,
      simp_all add: msg_type_defs)

section \<open>What the decoders accept\<close>

lemma get_required_Inr:
  "get_required parse m spec = Inr x \<Longrightarrow> \<exists>v. msg_get (fd_number spec) m = Some v \<and> v \<noteq> [] \<and> parse v = Inr x"
  by (auto simp: get_required_def get_required_view_def rbind_eq_Inr_iff make_leaf_error_def split: option.splits if_splits)

lemma get_required_char_Inr:
  "get_required_char m spec = Inr x \<Longrightarrow> msg_get (fd_number spec) m = Some [x]"
  by (auto simp: get_required_char_def get_required_view_def rbind_eq_Inr_iff make_leaf_error_def length_Suc_conv
      split: option.splits if_splits)

lemma get_required_fixed_string:
  "get_required (parse_fixed_string n) m spec = Inr x \<Longrightarrow> n \<le> 127 \<Longrightarrow> x \<noteq> [] \<and> length x \<le> n"
  using get_required_Inr [of "parse_fixed_string n" m spec x] parse_fixed_string_Inr [of n _ x] by blast

lemma instrument_of_fields:
  assumes "get_required (parse_fixed_string symbol_size) m spec_symbol = Inr s"
    "get_required (parse_fixed_string security_exchange_size) m spec_security_exchange = Inr x"
  shows "instrument_ok s x"
  using get_required_fixed_string [OF assms(1)] get_required_fixed_string [OF assms(2)] by (simp add: instrument_defs)

definition order_fields :: "field_spec list" where
  "order_fields = [spec_side, spec_ord_type, spec_time_in_force, spec_account, spec_cl_ord_id,
     spec_security_id, spec_symbol, spec_security_exchange, spec_order_qty]"

definition required_fields :: "string \<Rightarrow> field_spec list" where
  "required_fields msg_type =
     (if msg_type = new_order_single_msg_type then order_fields @ [spec_price]
      else if msg_type = order_cancel_replace_request_msg_type then order_fields @ [spec_price, spec_orig_cl_ord_id]
      else if msg_type = order_cancel_request_msg_type then [spec_account, spec_cl_ord_id, spec_orig_cl_ord_id]
      else if msg_type = execution_report_msg_type
      then order_fields @ [spec_exec_type, spec_ord_status, spec_order_id, spec_exec_id, spec_cum_qty,
             spec_leaves_qty, spec_transact_time]
      else if msg_type = order_cancel_reject_msg_type
      then [spec_cxl_rej_reason, spec_account, spec_cl_ord_id, spec_orig_cl_ord_id, spec_transact_time]
      else [])"

definition has_field :: "fix_message \<Rightarrow> field_spec \<Rightarrow> bool" where
  "has_field m spec \<longleftrightarrow> (\<exists>v. msg_get (fd_number spec) m = Some v \<and> v \<noteq> [])"

lemma has_field_iff: "has_field m spec \<longleftrightarrow> is_ok (get_required_view m spec)"
  by (auto simp: has_field_def get_required_view_def make_leaf_error_def split: option.splits)

lemmas field_access_defs = get_required_def get_required_char_def rbind_eq_Inr_iff

lemma decoded_new_order_fields: "decode_new_order_single m = Inr r \<Longrightarrow> list_all (has_field m) (order_fields @ [spec_price])"
  unfolding decode_new_order_single_def field_access_defs order_fields_def by (clarsimp simp: has_field_iff)

lemma decoded_new_order_single:
  assumes "decode_new_order_single m = Inr r"
  shows "instrument_ok (fno_symbol r) (fno_security_exchange r)"
proof (rule instrument_of_fields)
  show "get_required (parse_fixed_string symbol_size) m spec_symbol = Inr (fno_symbol r)"
    "get_required (parse_fixed_string security_exchange_size) m spec_security_exchange = Inr (fno_security_exchange r)"
    using assms unfolding decode_new_order_single_def rbind_eq_Inr_iff by clarsimp+
qed

lemma decoded_replace:
  assumes "decode_order_cancel_replace_request m = Inr r"
  shows "instrument_ok (frr_symbol r) (frr_security_exchange r) \<and> list_all (has_field m) (order_fields @ [spec_price, spec_orig_cl_ord_id])"
proof -
  from assms obtain n i where n: "decode_new_order_single m = Inr n"
    and "get_required (parse_integral :: string \<Rightarrow> u64 result) m spec_orig_cl_ord_id = Inr i"
    and r: "frr_symbol r = fno_symbol n" "frr_security_exchange r = fno_security_exchange n"
    unfolding decode_order_cancel_replace_request_def rbind_eq_Inr_iff by auto
  then have "has_field m spec_orig_cl_ord_id" unfolding field_access_defs by (clarsimp simp: has_field_iff)
  with decoded_new_order_fields [OF n] decoded_new_order_single [OF n] r show ?thesis by simp
qed

lemma decoded_cancel:
  assumes "decode_order_cancel_request m = Inr r"
  shows "list_all (has_field m) [spec_account, spec_cl_ord_id, spec_orig_cl_ord_id]"
  using assms unfolding decode_order_cancel_request_def field_access_defs by (clarsimp simp: has_field_iff)

lemma wire_reason_parsed: "parse_reject_reason c = Inr r \<Longrightarrow> wire_reason r = r"
  by (auto simp: parse_reject_reason_def wire_reason_def invalid_value_def make_leaf_error_def split: if_splits)

lemma decoded_execution_report_fields:
  assumes "decode_execution_report m = Inr e"
  shows "list_all (has_field m) (required_fields execution_report_msg_type)"
  using assms unfolding decode_execution_report_def field_access_defs required_fields_def order_fields_def msg_type_defs
  by (clarsimp simp: has_field_iff)

lemma decoded_execution_report:
  assumes "decode_execution_report m = Inr e"
  shows "instrument_ok (fer_symbol e) (fer_security_exchange e) \<and>
    map_option wire_reason (fer_reject_reason e) = fer_reject_reason e"
proof -
  from assms have "get_required (parse_fixed_string symbol_size) m spec_symbol = Inr (fer_symbol e)"
    "get_required (parse_fixed_string security_exchange_size) m spec_security_exchange = Inr (fer_security_exchange e)"
    unfolding decode_execution_report_def rbind_eq_Inr_iff by clarsimp+
  note sx = instrument_of_fields [OF this]
  from assms obtain code where "(case code of None \<Rightarrow> Inr None
      | Some c \<Rightarrow> rbind (parse_reject_reason c) (\<lambda>r. Inr (Some r))) = Inr (fer_reject_reason e)"
    unfolding decode_execution_report_def rbind_eq_Inr_iff by clarsimp
  then have "map_option wire_reason (fer_reject_reason e) = fer_reject_reason e"
    by (cases code) (auto simp: rbind_eq_Inr_iff wire_reason_parsed dest!: sym [of "Some _"])
  with sx show ?thesis by simp
qed

lemma decoded_cancel_reject:
  assumes "decode_order_cancel_reject m = Inr e"
  shows "wire_reason (fcr_reject_reason e) = fcr_reject_reason e \<and>
    list_all (has_field m) (required_fields order_cancel_reject_msg_type)"
  using assms unfolding decode_order_cancel_reject_def field_access_defs required_fields_def msg_type_defs
  by (clarsimp simp: has_field_iff wire_reason_parsed)

lemma acceptor_decoded:
  assumes "acceptor_decode m = Inr r"
  shows "request_ok r \<and> list_all (has_field m) (required_fields (mg_type m))"
  using assms decoded_new_order_single [of m] decoded_new_order_fields [of m] decoded_replace [of m] decoded_cancel [of m]
  unfolding acceptor_decode_def required_fields_def
  by (auto simp: rbind_eq_Inr_iff split: if_splits)

lemma initiator_decoded:
  assumes "initiator_decode m = Inr e"
  shows "event_ok e \<and> wire_event e = e \<and> list_all (has_field m) (required_fields (mg_type m))"
  using assms decoded_execution_report [of m] decoded_execution_report_fields [of m] decoded_cancel_reject [of m]
  unfolding initiator_decode_def
  by (auto simp: rbind_eq_Inr_iff split: if_splits)

text \<open>What is not carried is refused: an empty symbol or exchange, or one that does not fit.\<close>

lemma instrument_carried:
  assumes "get_required (parse_fixed_string symbol_size) m spec_symbol = Inr s'"
    "get_required (parse_fixed_string security_exchange_size) m spec_security_exchange = Inr x'"
    and "msg_get (fd_number spec_symbol) m = Some s" "msg_get (fd_number spec_security_exchange) m = Some x"
  shows "instrument_ok s x"
proof -
  have "s' = s" "x' = x"
    using get_required_Inr [OF assms(1)] get_required_Inr [OF assms(2)] assms(3,4)
      parse_fixed_string_Inr [of symbol_size s s'] parse_fixed_string_Inr [of security_exchange_size x x']
    by (auto simp: symbol_size_def security_exchange_size_def)
  with instrument_of_fields [OF assms(1,2)] show ?thesis by simp
qed

lemma encoded_instruments:
  "msg_get (fd_number spec_symbol) (encode_new_order_single r) = Some (fno_symbol r)"
  "msg_get (fd_number spec_security_exchange) (encode_new_order_single r) = Some (fno_security_exchange r)"
  "msg_get (fd_number spec_symbol) (encode_order_cancel_replace_request q) = Some (frr_symbol q)"
  "msg_get (fd_number spec_security_exchange) (encode_order_cancel_replace_request q) = Some (frr_security_exchange q)"
  by (simp_all add: encode_new_order_single_def encode_order_cancel_replace_request_def Let_def spec_defs)

lemma decoded_new_order_instrument:
  assumes "decode_new_order_single m = Inr r"
    and "msg_get (fd_number spec_symbol) m = Some s" "msg_get (fd_number spec_security_exchange) m = Some x"
  shows "instrument_ok s x"
proof (rule instrument_carried [OF _ _ assms(2,3)])
  show "get_required (parse_fixed_string symbol_size) m spec_symbol = Inr (fno_symbol r)"
    "get_required (parse_fixed_string security_exchange_size) m spec_security_exchange = Inr (fno_security_exchange r)"
    using assms(1) unfolding decode_new_order_single_def rbind_eq_Inr_iff by clarsimp+
qed

lemma acceptor_refuses:
  assumes "\<not> request_ok f" "initiator_encode f = Inr m"
  shows "\<exists>e. acceptor_decode m = Inl e"
proof (cases "acceptor_decode m")
  case (Inr g)
  with assms show ?thesis
    using decoded_new_order_instrument [of m] encoded_instruments
    by (cases f) (auto simp: acceptor_decode_def decode_order_cancel_replace_request_def rbind_eq_Inr_iff msg_type_defs
        split: if_splits)
qed simp

lemma initiator_refuses:
  assumes "\<not> event_ok f" "acceptor_encode f = Inr m"
  shows "\<exists>e. initiator_decode m = Inl e"
proof (cases "initiator_decode m")
  case (Inr g)
  from assms obtain r where r: "m = encode_execution_report r" "\<not> instrument_ok (fer_symbol r) (fer_security_exchange r)"
    by (cases f) auto
  with Inr obtain h where "decode_execution_report m = Inr h"
    by (auto simp: initiator_decode_def rbind_eq_Inr_iff msg_type_defs split: if_splits)
  then have "get_required (parse_fixed_string symbol_size) m spec_symbol = Inr (fer_symbol h)"
    "get_required (parse_fixed_string security_exchange_size) m spec_security_exchange = Inr (fer_security_exchange h)"
    unfolding decode_execution_report_def rbind_eq_Inr_iff by clarsimp+
  from instrument_carried [OF this] r encoded_execution_report_fields(7,8) show ?thesis by blast
qed simp

section \<open>On the wire\<close>

definition clean :: "string \<Rightarrow> bool" where
  "clean v \<longleftrightarrow> soh \<notin> set v"

fun request_clean :: "fix_request \<Rightarrow> bool" where
  "request_clean (Fix_New_Order_Single r) = (clean (fno_symbol r) \<and> clean (fno_security_exchange r))"
| "request_clean (Fix_Order_Cancel_Replace_Request r) = (clean (frr_symbol r) \<and> clean (frr_security_exchange r))"
| "request_clean (Fix_Order_Cancel_Request r) = True"

fun event_clean :: "fix_event \<Rightarrow> bool" where
  "event_clean (Fix_Execution_Report e) =
     (clean (fer_symbol e) \<and> clean (fer_security_exchange e) \<and> clean (fer_text e))"
| "event_clean (Fix_Order_Cancel_Reject e) = clean (fcr_text e)"

lemma clean_format [simp]: "clean (format_unsigned w)"
  using format_unsigned_digits [of soh w] delimiters_ok(1) by (auto simp: clean_def delimiter_ok_def)

lemma clean_values [simp]:
  "clean (as_char_value (normalize_side v1))" "clean (as_char_value (normalize_ord_type v2))"
  "clean (as_char_value (normalize_time_in_force v3))" "clean (as_char_value (normalize_exec_type v4))"
  "clean (as_char_value (normalize_ord_status v5))"
proof -
  have num: "c \<noteq> soh \<Longrightarrow> clean (as_char_value c)" for c by (simp add: clean_def as_char_value_def)
  show "clean (as_char_value (normalize_side v1))" by (rule num, cases v1) (simp_all add: soh_def)
  show "clean (as_char_value (normalize_ord_type v2))" by (rule num, cases v2) (simp_all add: soh_def)
  show "clean (as_char_value (normalize_time_in_force v3))" by (rule num, cases v3) (simp_all add: soh_def)
  show "clean (as_char_value (normalize_exec_type v4))" by (rule num, cases v4) (simp_all add: soh_def)
  show "clean (as_char_value (normalize_ord_status v5))" by (rule num, cases v5) (simp_all add: soh_def)
qed

lemma message_ok_set_field:
  assumes "message_ok soh m" "fd_number spec \<noteq> 35" "clean v"
  shows "message_ok soh (set_field spec v m)"
proof -
  have "f \<in> set (set_in k v fs) \<Longrightarrow> snd f = v \<or> f \<in> set fs" for f k fs
  proof (induction fs)
    case (Cons g fs)
    then show ?case by (cases g) (auto split: if_splits)
  qed simp
  then have "\<forall>f\<in>set (set_in (fd_number spec) v (mg_fields m)). soh \<notin> set (snd f)"
    using assms(1,3) by (fastforce simp: message_ok_def clean_def)
  with assms show ?thesis
    unfolding message_ok_def set_field_def msg_set_def set_map
    by (simp add: set_tags_set_in distinct_set_in msg_type_tag_def)
qed

lemma message_ok_set_optional_field:
  assumes "message_ok soh m" "fd_number spec \<noteq> 35" "pred_option clean v"
  shows "message_ok soh (set_optional_field spec v m)"
  using assms by (cases v) (simp_all add: set_optional_field_def message_ok_set_field)

lemma pred_option_format [simp]: "pred_option clean (map_option (\<lambda>x. format_unsigned (f x)) w)"
  by (cases w) simp_all

lemma pred_option_format_id [simp]: "pred_option clean (map_option format_unsigned w)"
  by (cases w) simp_all

lemma message_ok_new [simp]:
  "message_ok soh (fix_message_of new_order_single_msg_type)"
  "message_ok soh (fix_message_of order_cancel_replace_request_msg_type)"
  "message_ok soh (fix_message_of order_cancel_request_msg_type)"
  "message_ok soh (fix_message_of execution_report_msg_type)"
  "message_ok soh (fix_message_of order_cancel_reject_msg_type)"
  by (simp_all add: message_ok_def fix_message_of_def msg_type_defs soh_def)

lemma initiator_encode_message_ok: "request_clean r \<Longrightarrow> initiator_encode r = Inr m \<Longrightarrow> message_ok soh m"
  by (cases r) (auto simp: encode_new_order_single_def encode_order_cancel_replace_request_def
      encode_order_cancel_request_def Let_def spec_defs intro!: message_ok_set_field)

lemma acceptor_encode_message_ok: "event_clean e \<Longrightarrow> acceptor_encode e = Inr m \<Longrightarrow> message_ok soh m"
  by (cases e) (auto simp: encode_execution_report_def encode_order_cancel_reject_def Let_def spec_defs
      intro!: message_ok_set_field message_ok_set_optional_field)

text \<open>The code's pairs keep the codec contract, and so does each chained with the text form.\<close>

definition message_text :: "fix_message \<Rightarrow> string result" where
  "message_text m = Inr (encode_message m soh)"

definition text_message :: "string \<Rightarrow> fix_message result" where
  "text_message t = decode_message t soh"

definition event_carried :: "fix_event \<Rightarrow> bool" where
  "event_carried e \<longleftrightarrow> event_ok e \<and> wire_event e = e"

interpretation requests: codec_chain initiator_encode acceptor_decode request_ok "\<lambda>_. True"
  message_text text_message "message_ok soh" "\<lambda>_. True" request_clean
proof unfold_locales
  fix r :: fix_request
  assume "request_ok r"
  with acceptor_decode_encode [OF this] show "\<exists>m. initiator_encode r = Inr m \<and> True \<and> acceptor_decode m = Inr r"
    by (cases r) simp_all
qed (simp_all add: message_text_def text_message_def decode_encode_message initiator_encode_message_ok)

interpretation events: codec_chain acceptor_encode initiator_decode event_carried "\<lambda>_. True"
  message_text text_message "message_ok soh" "\<lambda>_. True" event_clean
proof unfold_locales
  fix e :: fix_event
  assume "event_carried e"
  then show "\<exists>m. acceptor_encode e = Inr m \<and> True \<and> initiator_decode m = Inr e"
    using initiator_decode_encode [of e] by (cases e) (simp_all add: event_carried_def)
qed (simp_all add: message_text_def text_message_def decode_encode_message acceptor_encode_message_ok)

text \<open>
  C28: Whatever request the acceptor accepts is one the initiator can send: its symbol and exchange
  are non-empty and fit, every field the message type requires was present, and writing it as a
  message again gives it back; a message of any other type is refused by name.
\<close>
theorem accepted_requests_are_canonical:
  assumes "acceptor_decode m = Inr r"
  shows "request_ok r \<and> list_all (has_field m) (required_fields (mg_type m)) \<and>
    rbind (initiator_encode r) acceptor_decode = Inr r"
  using acceptor_decoded [OF assms] by (simp add: requests.outer.roundtrip)

lemma accepted_requests_are_canonical_witness:
  "request_ok (Fix_Order_Cancel_Request \<lparr>fcq_account = 1, fcq_cl_ord_id = 2, fcq_orig_cl_ord_id = 3\<rparr>)"
proof -
  let ?c = "\<lparr>fcq_account = 1, fcq_cl_ord_id = 2, fcq_orig_cl_ord_id = 3\<rparr> :: fix_order_cancel_request"
  have "acceptor_decode (encode_order_cancel_request ?c) = Inr (Fix_Order_Cancel_Request ?c)"
    using acceptor_decode_encode [of "Fix_Order_Cancel_Request ?c"] by simp
  from accepted_requests_are_canonical [OF this] show ?thesis by blast
qed

text \<open>
  Whatever event the initiator accepts had every field its type requires and carries no reject
  reason beyond those with a code of their own, and the acceptor writes it so that it is read back.
\<close>
lemma accepted_events_are_canonical:
  assumes "initiator_decode m = Inr e"
  shows "event_ok e \<and> wire_event e = e \<and> list_all (has_field m) (required_fields (mg_type m)) \<and>
    rbind (acceptor_encode e) initiator_decode = Inr e"
  using initiator_decoded [OF assms] events.outer.roundtrip [of e] by (simp add: event_carried_def)

definition sample_reject :: fix_order_cancel_reject where
  "sample_reject = \<lparr>fcr_account = 1, fcr_cl_ord_id = 2, fcr_orig_cl_ord_id = 3,
     fcr_reject_reason = Unknown_Order, fcr_text = ''unknown order'', fcr_transact_time = 7\<rparr>"

lemma accepted_events_are_canonical_witness:
  "rbind (acceptor_encode (Fix_Order_Cancel_Reject sample_reject)) initiator_decode =
     Inr (Fix_Order_Cancel_Reject sample_reject)"
proof -
  have "initiator_decode (encode_order_cancel_reject sample_reject) = Inr (Fix_Order_Cancel_Reject sample_reject)"
    using initiator_decode_encode [of "Fix_Order_Cancel_Reject sample_reject"]
    by (simp add: sample_reject_def wire_reason_def)
  from accepted_events_are_canonical [OF this] show ?thesis by blast
qed


definition sample_fix_order :: new_order_single where
  "sample_fix_order = \<lparr>nos_client_id = 7, nos_cl_ord_id = 1, nos_security_id = 100, nos_symbol = ''PETR4'',
     nos_security_exchange = ''BVMF'', nos_side = Sell, nos_ord_type = Limit, nos_time_in_force = Day,
     nos_order_qty = 50, nos_price = 3000\<rparr>"




end
