(* ===== verification/Mor_Wiring.thy ===== *)
theory Mor_Wiring
  imports Mor "HOL-Library.Multiset"
begin

text \<open>
  The interfaces between routing stages (\<open>mor/interfaces.hpp\<close>). A stage's callbacks capture its
  neighbours by reference, so the stages live in a store, and a callback names the stage it calls.
\<close>

type_synonym stage_id = nat

datatype 'h callback =
    Unset
  | Forward stage_id
  | Handler 'h

record 'h pipeline_stage =
  ps_on_request :: "'h callback"
  ps_on_event :: "'h callback"

type_synonym 'h stages = "stage_id \<Rightarrow> 'h pipeline_stage"

definition wire_stages :: "stage_id \<Rightarrow> stage_id \<Rightarrow> 'h stages \<Rightarrow> 'h stages" where
  "wire_stages upstream downstream st =
     (let st = st(upstream := (st upstream)\<lparr>ps_on_request := Forward downstream\<rparr>)
      in st(downstream := (st downstream)\<lparr>ps_on_event := Forward upstream\<rparr>))"

text \<open>A source calls the \<open>send\<close> of a sink.\<close>

record 'h source =
  so_on_request :: "'h callback"

definition wire_source :: "'h \<Rightarrow> 'h source \<Rightarrow> 'h source" where
  "wire_source target_send s = s\<lparr>so_on_request := Handler target_send\<rparr>"

text \<open>
  Calling a callback: who gets the message. \<open>None\<close> stands for a callback that is not set and for
  stages wired in a circle, where the call does not return.
\<close>

partial_function (option) call_request :: "'h stages \<Rightarrow> stage_id \<Rightarrow> mor_request \<Rightarrow> ('h \<times> mor_request) option" where
  "call_request st i r =
     (case ps_on_request (st i) of
        Unset \<Rightarrow> None
      | Forward j \<Rightarrow> call_request st j r
      | Handler h \<Rightarrow> Some (h, r))"

partial_function (option) call_event :: "'h stages \<Rightarrow> stage_id \<Rightarrow> mor_event \<Rightarrow> ('h \<times> mor_event) option" where
  "call_event st i ev =
     (case ps_on_event (st i) of
        Unset \<Rightarrow> None
      | Forward j \<Rightarrow> call_event st j ev
      | Handler h \<Rightarrow> Some (h, ev))"

section \<open>Wiring a chain\<close>

definition wire_all :: "(stage_id \<times> stage_id) list \<Rightarrow> 'h stages \<Rightarrow> 'h stages" where
  "wire_all ws st = fold (\<lambda>(u, d). wire_stages u d) ws st"

lemma wire_all_Cons: "wire_all ((u, d) # ws) st = wire_all ws (wire_stages u d st)"
  by (simp add: wire_all_def)

lemma wire_stages_request: "ps_on_request (wire_stages u d st i) = (if i = u then Forward d else ps_on_request (st i))"
  by (simp add: wire_stages_def Let_def)

lemma wire_stages_event: "ps_on_event (wire_stages u d st i) = (if i = d then Forward u else ps_on_event (st i))"
  by (simp add: wire_stages_def Let_def)

lemma wire_all_other:
  "i \<notin> fst ` set ws \<Longrightarrow> ps_on_request (wire_all ws st i) = ps_on_request (st i)"
  "i \<notin> snd ` set ws \<Longrightarrow> ps_on_event (wire_all ws st i) = ps_on_event (st i)"
  by (induction ws arbitrary: st) (auto simp: wire_all_Cons wire_stages_request wire_stages_event wire_all_def)

lemma wire_all_request:
  "distinct (map fst ws) \<Longrightarrow> (u, d) \<in> set ws \<Longrightarrow> ps_on_request (wire_all ws st u) = Forward d"
proof (induction ws arbitrary: st)
  case (Cons w ws)
  then show ?case
    by (cases w; cases "(u, d) \<in> set ws")
      (auto simp: wire_all_Cons wire_all_other wire_stages_request)
qed simp

lemma wire_all_event:
  "distinct (map snd ws) \<Longrightarrow> (u, d) \<in> set ws \<Longrightarrow> ps_on_event (wire_all ws st d) = Forward u"
proof (induction ws arbitrary: st)
  case (Cons w ws)
  then show ?case
    by (cases w; cases "(u, d) \<in> set ws")
      (auto simp: wire_all_Cons wire_all_other wire_stages_event)
qed simp

lemma request_travels:
  assumes "\<And>i. Suc i < length xs \<Longrightarrow> ps_on_request (st (xs ! i)) = Forward (xs ! Suc i)"
    and "xs \<noteq> []" "ps_on_request (st (last xs)) = Handler h"
  shows "n < length xs \<Longrightarrow> call_request st (xs ! (length xs - Suc n)) r = Some (h, r)"
proof (induction n)
  case 0
  with assms(2,3) show ?case by (subst call_request.simps) (simp add: last_conv_nth)
next
  case (Suc n)
  then have "Suc (length xs - Suc (Suc n)) = length xs - Suc n" by simp
  with assms(1) [of "length xs - Suc (Suc n)"] Suc show ?case by (subst call_request.simps) simp
qed

lemma event_travels:
  assumes "\<And>i. Suc i < length xs \<Longrightarrow> ps_on_event (st (xs ! Suc i)) = Forward (xs ! i)"
    and "xs \<noteq> []" "ps_on_event (st (hd xs)) = Handler h"
  shows "n < length xs \<Longrightarrow> call_event st (xs ! n) ev = Some (h, ev)"
proof (induction n)
  case 0
  with assms(2,3) show ?case by (subst call_event.simps) (simp add: hd_conv_nth)
next
  case (Suc n)
  with assms(1) [of n] show ?case by (subst call_event.simps) simp
qed

text \<open>
  A chain of stages may be wired pair by pair in any order: a request given to the first stage
  then reaches the handler of the last, and an event given to the last that of the first.
\<close>
lemma chain_wired_in_any_order:
  assumes "distinct xs" "xs \<noteq> []" "mset ws = mset (zip xs (tl xs))"
    and "ps_on_request (st (last xs)) = Handler h" "ps_on_event (st (hd xs)) = Handler g"
  shows "call_request (wire_all ws st) (hd xs) r = Some (h, r)"
    and "call_event (wire_all ws st) (last xs) ev = Some (g, ev)"
proof -
  let ?st = "wire_all ws st"
  have len: "0 < length xs" using assms(2) by simp
  have set: "set ws = set (zip xs (tl xs))" by (rule mset_eq_setD [OF assms(3)])
  have "map fst (zip xs (tl xs)) = butlast xs" by (cases xs) (simp_all add: map_fst_zip_take butlast_conv_take min_def)
  then have fsts: "mset (map fst ws) = mset (butlast xs)" using assms(3) by (metis mset_map)
  have "map snd (zip xs (tl xs)) = tl xs" by (simp add: map_snd_zip_take min_def)
  then have snds: "mset (map snd ws) = mset (tl xs)" using assms(3) by (metis mset_map)
  have d: "distinct (map fst ws)" "distinct (map snd ws)"
    using mset_eq_imp_distinct_iff [OF fsts] mset_eq_imp_distinct_iff [OF snds] assms(1)
    by (simp_all add: distinct_butlast distinct_tl)
  have pair: "(xs ! i, xs ! Suc i) \<in> set ws" if "Suc i < length xs" for i
  proof -
    from that len have "i < length (zip xs (tl xs))" "zip xs (tl xs) ! i = (xs ! i, xs ! Suc i)" by (simp_all add: nth_tl)
    then show ?thesis unfolding set by (metis nth_mem)
  qed
  have "last xs \<notin> fst ` set ws"
  proof -
    have "last xs \<notin> set (butlast xs)"
      using assms(1,2) distinct_append [of "butlast xs" "[last xs]"] by simp
    with mset_eq_setD [OF fsts] show ?thesis by (metis list.set_map)
  qed
  then have req: "ps_on_request (?st (last xs)) = Handler h" by (simp add: wire_all_other assms(4))
  have "hd xs \<notin> snd ` set ws"
  proof -
    have "hd xs \<notin> set (tl xs)" using assms(1,2) by (cases xs) simp_all
    with mset_eq_setD [OF snds] show ?thesis by (metis list.set_map)
  qed
  then have ev: "ps_on_event (?st (hd xs)) = Handler g" by (simp add: wire_all_other assms(5))
  have "length xs - 1 < length xs" using len by simp
  from request_travels [OF wire_all_request [OF d(1) pair] assms(2) req this] len
  show "call_request ?st (hd xs) r = Some (h, r)" by (simp add: hd_conv_nth assms(2))
  from event_travels [OF wire_all_event [OF d(2) pair] assms(2) ev, of "length xs - 1"] len
  show "call_event ?st (last xs) ev = Some (g, ev)" by (simp add: last_conv_nth assms(2))
qed

end
