(* ===== verification/Variant.thy ===== *)
theory Variant
  imports Main
begin

text \<open>
  The variant utilities of \<open>lab/variant.hpp\<close>. A variant is the index of its alternative and the value;
  a list of alternatives is a list of type names; a visitor is a function of index and value.
\<close>

type_synonym 'v variant = "nat \<times> 'v"

section \<open>Dispatch\<close>

text \<open>
  \<open>match<N, R>\<close>: the branch for alternative \<open>N\<close>, then the one below. The infinite loop that stands
  in for the unreachable end is \<open>None\<close>.
\<close>

fun variant_match_from :: "nat \<Rightarrow> 'v variant \<Rightarrow> (nat \<Rightarrow> 'v \<Rightarrow> 'r) \<Rightarrow> 'r option" where
  "variant_match_from 0 var vis = (if fst var = 0 then Some (vis 0 (snd var)) else None)"
| "variant_match_from (Suc n) var vis =
     (if fst var = Suc n then Some (vis (Suc n) (snd var)) else variant_match_from n var vis)"

definition variant_match :: "nat \<Rightarrow> 'v variant \<Rightarrow> (nat \<Rightarrow> 'v \<Rightarrow> 'r) \<Rightarrow> 'r option" where
  "variant_match alternatives var vis = variant_match_from (alternatives - 1) var vis"

text \<open>\<open>match_partial\<close>: alternatives without a visitor do nothing.\<close>

definition match_partial :: "nat \<Rightarrow> 'v variant \<Rightarrow> (nat \<Rightarrow> ('v \<Rightarrow> 's \<Rightarrow> 's) option) \<Rightarrow> 's \<Rightarrow> 's option" where
  "match_partial alternatives var vis st =
     variant_match alternatives var (\<lambda>i v. case vis i of Some f \<Rightarrow> f v st | None \<Rightarrow> st)"

lemma variant_match_from_eq:
  "variant_match_from n var vis = (if fst var \<le> n then Some (vis (fst var) (snd var)) else None)"
  by (induction n) (auto simp: le_Suc_eq)

text \<open>
  Dispatching on a variant ends in the branch of the alternative it holds, once, whenever its
  index is one of the type's alternatives; the branch that would not return is never reached.
\<close>
lemma match_dispatches:
  assumes "fst var < alternatives"
  shows "variant_match alternatives var vis = Some (vis (fst var) (snd var)) \<and>
    match_partial alternatives var pvis st = Some (case pvis (fst var) of Some f \<Rightarrow> f (snd var) st | None \<Rightarrow> st)"
  using assms by (simp add: variant_match_def match_partial_def variant_match_from_eq)


text \<open>\<open>LAB_PLUCK\<close>: the field of that name, whatever the alternative; the generic lambda reads it for each.\<close>

definition pluck :: "nat \<Rightarrow> 'v variant \<Rightarrow> (nat \<Rightarrow> 'v \<Rightarrow> 'r) \<Rightarrow> 'r option" where
  "pluck alternatives var field = variant_match alternatives var (\<lambda>i x. field i x)"

section \<open>Type lists\<close>

definition is_variant_member :: "'t list \<Rightarrow> 't \<Rightarrow> bool" where
  "is_variant_member types t \<longleftrightarrow> list_ex (\<lambda>u. u = t) types"

text \<open>\<open>find_index_in_tuple\<close> folds the indices of all matches with addition.\<close>

definition find_index_in_tuple :: "'t \<Rightarrow> 't list \<Rightarrow> nat" where
  "find_index_in_tuple t types = sum_list (map (\<lambda>i. if t = types ! i then i else 0) [0..<length types])"

definition get_variant_index :: "'t \<Rightarrow> 't list \<Rightarrow> nat" where
  "get_variant_index t types = find_index_in_tuple t types"

definition extend_variant :: "'t list \<Rightarrow> 't list \<Rightarrow> 't list" where
  "extend_variant types more = types @ more"

definition concat_variants :: "'t list \<Rightarrow> 't list \<Rightarrow> 't list" where
  "concat_variants types1 types2 = types1 @ types2"

definition variant_types :: "'t list \<Rightarrow> 't list" where
  "variant_types types = types"

text \<open>\<open>nested_type_variant\<close>: \<open>nested\<close> is \<open>NestedType<T>::type\<close>.\<close>

definition nested_type_variant :: "('t \<Rightarrow> 'u) \<Rightarrow> 't list \<Rightarrow> 'u list" where
  "nested_type_variant nested types = map nested types"

lemma sum_single_index:
  assumes "distinct types" "i < length types"
  shows "sum_list (map (\<lambda>k. if types ! i = types ! k then k else 0) [0..<length types]) = i"
proof -
  have "sum_list (map (\<lambda>k. if types ! i = types ! k then k else 0) [0..<length types]) =
      (\<Sum>k\<in>{0..<length types}. if types ! i = types ! k then k else 0)"
    by (simp add: sum_list_distinct_conv_sum_set)
  also have "\<dots> = (\<Sum>k\<in>{0..<length types}. if k = i then i else 0)"
    using assms by (intro sum.cong) (auto simp: nth_eq_iff_index_eq)
  also have "\<dots> = i" using assms(2) by simp
  finally show ?thesis .
qed

text \<open>
  The index of a type among the alternatives of a variant is its position when the
  alternatives are distinct; a type that is not an alternative gets index zero, the index of the
  first one, so the index alone does not tell membership.
\<close>
lemma variant_index_of_member:
  assumes "distinct types"
  shows "(i < length types \<longrightarrow> is_variant_member types (types ! i) \<and> get_variant_index (types ! i) types = i) \<and>
    (\<not> is_variant_member types t \<longrightarrow> get_variant_index t types = 0)"
proof (intro conjI impI)
  assume i: "i < length types"
  then show "is_variant_member types (types ! i)" by (auto simp: is_variant_member_def list_ex_iff)
  show "get_variant_index (types ! i) types = i"
    using sum_single_index [OF assms i] by (simp add: get_variant_index_def find_index_in_tuple_def)
next
  assume "\<not> is_variant_member types t"
  then have "t \<noteq> types ! k" if "k < length types" for k
    using that by (auto simp: is_variant_member_def list_ex_iff)
  then have "map (\<lambda>i. if t = types ! i then i else 0) [0..<length types] = map (\<lambda>i. 0) [0..<length types]" by simp
  then show "get_variant_index t types = 0"
    unfolding get_variant_index_def find_index_in_tuple_def by (simp only:) simp
qed

section \<open>The checks of match\<close>

text \<open>
  What the compiler decides before \<open>match\<close> is instantiated. \<open>invocable\<close> is the language's
  \<open>std::is_invocable_v\<close> of a visitor on a type; \<open>monostate\<close> is the empty alternative.
\<close>

definition is_invocable_with_any_of :: "('c \<Rightarrow> 't \<Rightarrow> bool) \<Rightarrow> 't \<Rightarrow> 'c \<Rightarrow> 't list \<Rightarrow> bool" where
  "is_invocable_with_any_of invocable monostate callable types \<longleftrightarrow>
     list_ex (\<lambda>t. t = monostate \<or> invocable callable t) types"

definition check_variant_match_visitor :: "('c \<Rightarrow> 't \<Rightarrow> bool) \<Rightarrow> 't \<Rightarrow> 't list \<Rightarrow> 'c \<Rightarrow> bool" where
  "check_variant_match_visitor invocable monostate types visitor \<longleftrightarrow>
     is_invocable_with_any_of invocable monostate visitor (variant_types types)"

definition check_variant_match_visitors :: "('c \<Rightarrow> 't \<Rightarrow> bool) \<Rightarrow> 't \<Rightarrow> 't list \<Rightarrow> 'c list \<Rightarrow> bool" where
  "check_variant_match_visitors invocable monostate types visitors \<longleftrightarrow>
     list_all (check_variant_match_visitor invocable monostate types) visitors"

definition is_visitable :: "('c \<Rightarrow> 't \<Rightarrow> bool) \<Rightarrow> 't \<Rightarrow> 'c list \<Rightarrow> bool" where
  "is_visitable invocable t visitors \<longleftrightarrow> list_ex (\<lambda>v. invocable v t) visitors"

text \<open>
  \<open>match(var, vis, visitors...)\<close> compiles when the check passes, which is given \<open>visitors\<close> alone, and some
  visitor takes each alternative.
\<close>

definition match_compiles :: "('c \<Rightarrow> 't \<Rightarrow> bool) \<Rightarrow> 't \<Rightarrow> 't list \<Rightarrow> 'c \<Rightarrow> 'c list \<Rightarrow> bool" where
  "match_compiles invocable monostate types vis visitors \<longleftrightarrow>
     check_variant_match_visitors invocable monostate types visitors \<and>
     0 < length types \<and> list_all (\<lambda>t. is_visitable invocable t (vis # visitors)) types"

text \<open>
  A visitor for no alternative is rejected, unless it comes first or the variant has an empty
  alternative: those are the cases the check lets through.
\<close>
lemma stray_visitors:
  assumes "\<forall>t\<in>set types. \<not> invocable stray t" "types \<noteq> []"
  shows "stray \<in> set visitors \<and> monostate \<notin> set types \<longrightarrow> \<not> match_compiles invocable monostate types vis visitors"
    "match_compiles invocable monostate types vis visitors \<longrightarrow> match_compiles invocable monostate types stray (vis # visitors) \<or>
       \<not> check_variant_match_visitor invocable monostate types vis"
    "monostate \<in> set types \<longrightarrow> match_compiles invocable monostate types vis visitors \<longrightarrow>
       match_compiles invocable monostate types vis (stray # visitors)"
proof -
  have "is_invocable_with_any_of invocable monostate stray types \<longleftrightarrow> monostate \<in> set types"
    using assms by (auto simp: is_invocable_with_any_of_def list_ex_iff)
  then show "stray \<in> set visitors \<and> monostate \<notin> set types \<longrightarrow> \<not> match_compiles invocable monostate types vis visitors"
    "monostate \<in> set types \<longrightarrow> match_compiles invocable monostate types vis visitors \<longrightarrow>
       match_compiles invocable monostate types vis (stray # visitors)"
    by (auto simp: match_compiles_def check_variant_match_visitors_def check_variant_match_visitor_def
        variant_types_def is_visitable_def list_all_iff list_ex_iff)
  show "match_compiles invocable monostate types vis visitors \<longrightarrow> match_compiles invocable monostate types stray (vis # visitors) \<or>
       \<not> check_variant_match_visitor invocable monostate types vis"
    by (auto simp: match_compiles_def check_variant_match_visitors_def is_visitable_def list_all_iff list_ex_iff)
qed

end
