(* ===== verification/Strong_Type.thy ===== *)
theory Strong_Type
  imports Fixed_String
begin

text \<open>
  \<open>lab::strong_type\<close> (\<open>lab/strong_type.hpp\<close>): a nominal wrapper whose operators are those of the
  wrapped value. The tag is a phantom type, so values of different strong types cannot be mixed;
  the operators are the methods of the type classes of the library.
\<close>

section \<open>The wrapper\<close>

datatype ('a, 'tag) strong_type = Strong_Type (st_get: 'a)

definition st_make :: "'a \<Rightarrow> ('a, 'tag) strong_type" where
  "st_make v = Strong_Type v"

lemma st_get_make [simp]: "st_get (st_make v) = v"
  by (simp add: st_make_def)

lemma st_eq_iff: "x = y \<longleftrightarrow> st_get x = st_get y"
  by (cases x; cases y) simp

section \<open>Comparable\<close>

definition st_less :: "('a::ord, 'tag) strong_type \<Rightarrow> ('a, 'tag) strong_type \<Rightarrow> bool" where
  "st_less this other \<longleftrightarrow> st_get this < st_get other"

definition st_greater :: "('a::ord, 'tag) strong_type \<Rightarrow> ('a, 'tag) strong_type \<Rightarrow> bool" where
  "st_greater this other \<longleftrightarrow> st_get other < st_get this"

definition st_less_equal :: "('a::ord, 'tag) strong_type \<Rightarrow> ('a, 'tag) strong_type \<Rightarrow> bool" where
  "st_less_equal this other \<longleftrightarrow> \<not> st_less other this"

definition st_greater_equal :: "('a::ord, 'tag) strong_type \<Rightarrow> ('a, 'tag) strong_type \<Rightarrow> bool" where
  "st_greater_equal this other \<longleftrightarrow> \<not> st_less this other"

definition st_equal :: "('a, 'tag) strong_type \<Rightarrow> ('a, 'tag) strong_type \<Rightarrow> bool" where
  "st_equal this other \<longleftrightarrow> st_get this = st_get other"

definition st_not_equal :: "('a, 'tag) strong_type \<Rightarrow> ('a, 'tag) strong_type \<Rightarrow> bool" where
  "st_not_equal this other \<longleftrightarrow> \<not> st_equal this other"

text \<open>The code's \<open><\<close> and \<open><=\<close> make a strong type a linear order whenever the wrapped type is one.\<close>

instantiation strong_type :: (linorder, type) linorder
begin

definition less_strong_type :: "('a, 'b) strong_type \<Rightarrow> ('a, 'b) strong_type \<Rightarrow> bool" where
  "less_strong_type x y = st_less x y"

definition less_eq_strong_type :: "('a, 'b) strong_type \<Rightarrow> ('a, 'b) strong_type \<Rightarrow> bool" where
  "less_eq_strong_type x y = st_less_equal x y"

instance
  by intro_classes (auto simp: less_strong_type_def less_eq_strong_type_def st_less_def st_less_equal_def st_eq_iff)

end

section \<open>Arithmetic\<close>

definition st_plus :: "('a::plus, 'tag) strong_type \<Rightarrow> ('a, 'tag) strong_type \<Rightarrow> ('a, 'tag) strong_type" where
  "st_plus this other = st_make (st_get this + st_get other)"

definition st_minus :: "('a::minus, 'tag) strong_type \<Rightarrow> ('a, 'tag) strong_type \<Rightarrow> ('a, 'tag) strong_type" where
  "st_minus this other = st_make (st_get this - st_get other)"

definition st_times :: "('a::times, 'tag) strong_type \<Rightarrow> ('a, 'tag) strong_type \<Rightarrow> ('a, 'tag) strong_type" where
  "st_times this other = st_make (st_get this * st_get other)"

text \<open>A zero divisor is undefined behaviour in the code; the model has no value for it.\<close>

definition st_divide :: "('a::{zero,divide}, 'tag) strong_type \<Rightarrow> ('a, 'tag) strong_type \<Rightarrow> ('a, 'tag) strong_type option" where
  "st_divide this other = (if st_get other = 0 then None else Some (st_make (st_get this div st_get other)))"

definition st_modulo :: "('a::{zero,modulo}, 'tag) strong_type \<Rightarrow> ('a, 'tag) strong_type \<Rightarrow> ('a, 'tag) strong_type option" where
  "st_modulo this other = (if st_get other = 0 then None else Some (st_make (st_get this mod st_get other)))"

definition st_negate :: "('a::uminus, 'tag) strong_type \<Rightarrow> ('a, 'tag) strong_type" where
  "st_negate this = st_make (- st_get this)"

definition st_unary_plus :: "('a, 'tag) strong_type \<Rightarrow> ('a, 'tag) strong_type" where
  "st_unary_plus this = st_make (st_get this)"

text \<open>The assignment forms update the value in place and return the object: the new value.\<close>

definition st_plus_assign :: "('a::plus, 'tag) strong_type \<Rightarrow> ('a, 'tag) strong_type \<Rightarrow> ('a, 'tag) strong_type" where
  "st_plus_assign this other = (case this of Strong_Type v \<Rightarrow> Strong_Type (v + st_get other))"

definition st_minus_assign :: "('a::minus, 'tag) strong_type \<Rightarrow> ('a, 'tag) strong_type \<Rightarrow> ('a, 'tag) strong_type" where
  "st_minus_assign this other = (case this of Strong_Type v \<Rightarrow> Strong_Type (v - st_get other))"

definition st_times_assign :: "('a::times, 'tag) strong_type \<Rightarrow> ('a, 'tag) strong_type \<Rightarrow> ('a, 'tag) strong_type" where
  "st_times_assign this other = (case this of Strong_Type v \<Rightarrow> Strong_Type (v * st_get other))"

definition st_divide_assign ::
  "('a::{zero,divide}, 'tag) strong_type \<Rightarrow> ('a, 'tag) strong_type \<Rightarrow> ('a, 'tag) strong_type option" where
  "st_divide_assign this other =
     (case this of Strong_Type v \<Rightarrow> if st_get other = 0 then None else Some (Strong_Type (v div st_get other)))"

definition st_modulo_assign ::
  "('a::{zero,modulo}, 'tag) strong_type \<Rightarrow> ('a, 'tag) strong_type \<Rightarrow> ('a, 'tag) strong_type option" where
  "st_modulo_assign this other =
     (case this of Strong_Type v \<Rightarrow> if st_get other = 0 then None else Some (Strong_Type (v mod st_get other)))"

instantiation strong_type :: (plus, type) plus
begin
definition plus_strong_type :: "('a, 'b) strong_type \<Rightarrow> ('a, 'b) strong_type \<Rightarrow> ('a, 'b) strong_type" where
  "plus_strong_type x y = st_plus x y"
instance ..
end

instantiation strong_type :: (minus, type) minus
begin
definition minus_strong_type :: "('a, 'b) strong_type \<Rightarrow> ('a, 'b) strong_type \<Rightarrow> ('a, 'b) strong_type" where
  "minus_strong_type x y = st_minus x y"
instance ..
end

instance strong_type :: (ab_semigroup_add, type) ab_semigroup_add
  by intro_classes (simp_all add: plus_strong_type_def st_plus_def st_eq_iff ac_simps)

definition st_hash :: "('a \<Rightarrow> u64) \<Rightarrow> ('a, 'tag) strong_type \<Rightarrow> u64" where
  "st_hash hash_of v = hash_of (st_get v)"

definition st_format :: "('a \<Rightarrow> string) \<Rightarrow> ('a, 'tag) strong_type \<Rightarrow> string" where
  "st_format format_of v = format_of (st_get v)"

section \<open>Factory\<close>

text \<open>For a wrapped \<open>fixed_string\<close> of capacity \<open>n\<close>.\<close>

definition st_from :: "nat \<Rightarrow> string \<Rightarrow> (fixed_string, 'tag) strong_type result" where
  "st_from n sv = rbind (fs_from n sv) (\<lambda>ret. Inr (st_make ret))"

definition st_truncate_from :: "nat \<Rightarrow> string \<Rightarrow> (fixed_string, 'tag) strong_type" where
  "st_truncate_from n sv = st_make (truncate_from n sv)"

section \<open>Properties\<close>

text \<open>
  The comparison operators are those of the wrapped value: exactly one of less, equal and greater
  holds, the non-strict forms are the negations, and equal values hash and format alike.
\<close>

lemma strong_type_comparisons:
  fixes x y :: "('a::linorder, 'tag) strong_type"
  shows "st_less x y \<longleftrightarrow> st_get x < st_get y" "st_greater x y \<longleftrightarrow> st_get x > st_get y"
    "st_less_equal x y \<longleftrightarrow> st_get x \<le> st_get y" "st_greater_equal x y \<longleftrightarrow> st_get x \<ge> st_get y"
    "st_equal x y \<longleftrightarrow> x = y" "st_not_equal x y \<longleftrightarrow> x \<noteq> y"
    "length (filter id [st_less x y, st_equal x y, st_greater x y]) = 1"
    "st_equal x y \<Longrightarrow> st_hash h x = st_hash h y" "st_equal x y \<Longrightarrow> st_format f x = st_format f y"
  by (auto simp: st_less_def st_greater_def st_less_equal_def st_greater_equal_def st_equal_def st_not_equal_def
      st_eq_iff st_hash_def st_format_def)

text \<open>
  Arithmetic of a 64-bit strong type is the wrapping arithmetic of the word inside: adding and
  taking away again, in place or not, gives the value back even when the sum wraps, the in-place
  forms agree with the others, and quotient and remainder recompose unless the divisor is zero,
  which is refused.
\<close>
lemma strong_type_arithmetic:
  fixes x y :: "(u64, 'tag) strong_type"
  shows "st_minus (st_plus x y) y = x \<and> st_minus_assign (st_plus_assign x y) y = x \<and>
    st_plus_assign x y = st_plus x y \<and> st_times_assign x y = st_times x y \<and>
    st_divide_assign x y = st_divide x y \<and> st_modulo_assign x y = st_modulo x y \<and>
    (case (st_divide x y, st_modulo x y) of
       (Some q, Some r) \<Rightarrow> st_plus (st_times q y) r = x
     | _ \<Rightarrow> st_get y = 0) \<and>
    unat (st_get (st_plus x y)) = (unat (st_get x) + unat (st_get y)) mod 2 ^ 64 \<and>
    st_plus x (st_negate x) = st_make 0 \<and> st_unary_plus x = x"
proof -
  obtain v w where vw: "x = Strong_Type v" "y = Strong_Type w" by (cases x; cases y) simp
  have "v div w * w + v mod w = v" by (rule div_mult_mod_eq)
  then show ?thesis
    by (simp add: vw st_plus_def st_minus_def st_times_def st_divide_def st_modulo_def st_negate_def st_unary_plus_def
        st_plus_assign_def st_minus_assign_def st_times_assign_def st_divide_assign_def st_modulo_assign_def st_make_def
        unat_word_ariths)
qed

end
