(* ===== verification/Wrappers.thy ===== *)
theory Wrappers
  imports Json_Config Strong_Type
begin

text \<open>
  The rest of the value wrappers of \<open>lab/\<close>: how they convert to what they hold, how they are
  compared, printed, parsed and hashed, and their JSON serializers (\<open>fixed_string.hpp\<close>,
  \<open>strong_type.hpp\<close>, \<open>defaulted_field.hpp\<close>, \<open>charconv.hpp\<close>, \<open>hash.hpp\<close>, \<open>json.hpp\<close>). A reference to the
  wrapped value is modelled by reading it or by what a write through it leaves.
\<close>

section \<open>fixed_string\<close>

datatype truncation_policy = Strict | Auto_Truncate

text \<open>The converting constructor exists under the truncating policy only.\<close>

definition fs_construct :: "truncation_policy \<Rightarrow> nat \<Rightarrow> string \<Rightarrow> fixed_string option" where
  "fs_construct policy n sv = (case policy of Auto_Truncate \<Rightarrow> Some (from_string_view n sv) | Strict \<Rightarrow> None)"

definition length_prefixed_string :: "fixed_string \<Rightarrow> string" where
  "length_prefixed_string fs = fs_buffer fs"

definition fs_was_truncated :: "fixed_string \<Rightarrow> bool" where
  "fs_was_truncated fs = fs_truncated fs"

text \<open>
  A C string is the characters before its terminator; \<open>None\<close> is the null pointer. Comparing with one
  asserts that it is not null; the negated comparison does not, and a null pointer is undefined
  behaviour there. Both are the failure.
\<close>

definition fs_equal_c_str :: "fixed_string \<Rightarrow> string option \<Rightarrow> bool option" where
  "fs_equal_c_str fs rhs = (case rhs of None \<Rightarrow> None | Some s \<Rightarrow> Some (to_string_view fs = s))"

definition fs_not_equal_c_str :: "fixed_string \<Rightarrow> string option \<Rightarrow> bool option" where
  "fs_not_equal_c_str fs rhs = (case rhs of None \<Rightarrow> None | Some s \<Rightarrow> Some (to_string_view fs \<noteq> s))"

definition fs_print :: "string \<Rightarrow> fixed_string \<Rightarrow> string" where
  "fs_print os fs = os @ to_string_view fs"

definition fs_format :: "fixed_string \<Rightarrow> string" where
  "fs_format fs = to_string_view fs"

lemma length_prefix_layout:
  assumes "n \<le> 127" "fs_ok n fs"
  shows "of_char (hd (length_prefixed_string fs)) = fs_size fs \<and>
    take (fs_size fs) (tl (length_prefixed_string fs)) = to_string_view fs \<and>
    tl (length_prefixed_string fs) = c_str fs"
  using assms(2,1) by (elim fs_okE) (auto simp: length_prefixed_string_def c_str_def fs_size_def)

lemma construct_truncates:
  assumes "n \<le> 127" "fs_construct policy n sv = Some fs"
  shows "to_string_view fs = take n sv" "fs_was_truncated fs \<longleftrightarrow> length sv > n"
proof -
  from assms(2) have fs: "fs = from_string_view n sv" by (cases policy) (simp_all add: fs_construct_def)
  show "to_string_view fs = take n sv"
    unfolding fs by (rule view_store [of _ n]) (simp_all add: assms from_string_view_def min_def)
  show "fs_was_truncated fs \<longleftrightarrow> length sv > n" by (simp add: fs fs_was_truncated_def from_string_view_def)
qed

section \<open>strong_type\<close>

text \<open>
  The conversions to the wrapped value, the arrow and the star all give a reference to it. Reading
  is \<open>st_get\<close>; a write through the reference replaces the value and keeps the type.
\<close>

definition st_read :: "('a, 'tag) strong_type \<Rightarrow> 'a" where
  "st_read v = st_get v"

definition st_write :: "('a \<Rightarrow> 'a) \<Rightarrow> ('a, 'tag) strong_type \<Rightarrow> ('a, 'tag) strong_type" where
  "st_write f v = Strong_Type (f (st_get v))"

definition st_arrow :: "('a \<Rightarrow> 'b) \<Rightarrow> ('a, 'tag) strong_type \<Rightarrow> 'b" where
  "st_arrow member v = member (st_get v)"

definition st_star :: "('a, 'tag) strong_type \<Rightarrow> 'a" where
  "st_star v = st_get v"

text \<open>A strong type of a reference: writing through it writes the object it was made from.\<close>

definition st_ref_write :: "('a \<Rightarrow> 'a) \<Rightarrow> ('a, 'tag) strong_type \<Rightarrow> ('a, 'tag) strong_type" where
  "st_ref_write f v = st_write f v"

text \<open>An operator between different strong types, or with a raw value, is the operator of the values.\<close>

definition st_mixed :: "('a \<Rightarrow> 'b \<Rightarrow> 'c) \<Rightarrow> ('a, 's) strong_type \<Rightarrow> ('b, 't) strong_type \<Rightarrow> 'c" where
  "st_mixed f x y = f (st_read x) (st_read y)"

text \<open>Named arguments: \<open>name = value\<close> makes the strong value.\<close>

definition st_argument :: "'a \<Rightarrow> ('a, 'tag) strong_type" where
  "st_argument v = st_make v"

definition st_print :: "('a \<Rightarrow> string) \<Rightarrow> string \<Rightarrow> ('a, 'tag) strong_type \<Rightarrow> string" where
  "st_print show_value os v = os @ show_value (st_get v)"

definition st_std_hash :: "('a \<Rightarrow> u64) \<Rightarrow> ('a, 'tag) strong_type \<Rightarrow> u64" where
  "st_std_hash std_hash x = std_hash (st_get x)"

lemma mixed_drops_type:
  "st_mixed (+) x y = st_get (st_plus x y)" for x y :: "(u64, 'tag) strong_type"
  by (simp add: st_mixed_def st_read_def st_plus_def)

section \<open>charconv\<close>

definition from_chars_strong :: "match_type \<Rightarrow> string \<Rightarrow> ('a::len word, 'tag) strong_type result" where
  "from_chars_strong mt view = rbind (from_chars mt view) (\<lambda>value. Inr (st_make value))"

definition from_chars_fixed :: "match_type \<Rightarrow> fixed_string \<Rightarrow> 'a::len word result" where
  "from_chars_fixed mt fs = from_chars mt (to_string_view fs)"

definition from_chars_of_strong :: "match_type \<Rightarrow> (fixed_string, 's) strong_type \<Rightarrow> ('a::len word, 'tag) strong_type result" where
  "from_chars_of_strong mt v = from_chars_strong mt (to_string_view (st_get v))"

section \<open>hash\<close>

text \<open>
  \<open>auto_hash\<close> folds \<open>boost::hash_combine\<close> over the fields of an aggregate, here the list of their hashes;
  the combination is a parameter.
\<close>

definition auto_hash :: "(u64 \<Rightarrow> u64 \<Rightarrow> u64) \<Rightarrow> u64 list \<Rightarrow> u64" where
  "auto_hash hash_combine field_hashes = fold (\<lambda>h seed. hash_combine seed h) field_hashes 0"

section \<open>defaulted_field\<close>

record 'a defaulted_field =
  df_value :: 'a

text \<open>\<open>holder\<close> is the value of the default holder that \<open>LAB_DEFAULTED_FIELD\<close> declares.\<close>

definition df_default :: "'a \<Rightarrow> 'a defaulted_field" where
  "df_default holder = \<lparr>df_value = holder\<rparr>"

definition df_make :: "'a \<Rightarrow> 'a defaulted_field" where
  "df_make initial_value = \<lparr>df_value = initial_value\<rparr>"

definition df_make_list :: "'a list \<Rightarrow> 'a list defaulted_field" where
  "df_make_list initial_values = \<lparr>df_value = initial_values\<rparr>"

definition df_read :: "'a defaulted_field \<Rightarrow> 'a" where
  "df_read f = df_value f"

definition df_write :: "('a \<Rightarrow> 'a) \<Rightarrow> 'a defaulted_field \<Rightarrow> 'a defaulted_field" where
  "df_write g f = f\<lparr>df_value := g (df_value f)\<rparr>"

definition df_equal :: "'a defaulted_field \<Rightarrow> 'a defaulted_field \<Rightarrow> bool" where
  "df_equal lhs rhs \<longleftrightarrow> df_value lhs = df_value rhs"

datatype ordering = Less | Equal | Greater

definition three_way :: "'a::linorder \<Rightarrow> 'a \<Rightarrow> ordering" where
  "three_way x y = (if x < y then Less else if x = y then Equal else Greater)"

definition df_compare :: "'a::linorder defaulted_field \<Rightarrow> 'a defaulted_field \<Rightarrow> ordering" where
  "df_compare lhs rhs = three_way (df_value lhs) (df_value rhs)"

definition df_equal_value :: "'a defaulted_field \<Rightarrow> 'a \<Rightarrow> bool" where
  "df_equal_value lhs rhs \<longleftrightarrow> df_value lhs = rhs"

definition df_compare_value :: "'a::linorder defaulted_field \<Rightarrow> 'a \<Rightarrow> ordering" where
  "df_compare_value lhs rhs = three_way (df_value lhs) rhs"

text \<open>\<open>begin\<close> to \<open>end\<close>: the elements of the value.\<close>

definition df_elements :: "'a list defaulted_field \<Rightarrow> 'a list" where
  "df_elements f = df_value f"

definition df_format :: "('a \<Rightarrow> string) \<Rightarrow> 'a defaulted_field \<Rightarrow> string" where
  "df_format format_of f = format_of (df_value f)"

lemma df_compare_consistent:
  "df_compare f g = Equal \<longleftrightarrow> df_equal f g" "df_compare f g = Less \<longleftrightarrow> df_compare g f = Greater"
  "df_compare_value f (df_read g) = df_compare f g" "df_equal_value f (df_read g) \<longleftrightarrow> df_equal f g"
  by (auto simp: df_compare_def df_compare_value_def df_equal_def df_equal_value_def df_read_def three_way_def)

section \<open>Serializers\<close>

definition fixed_string_to_json :: "('j, 'z) json_lib_scheme \<Rightarrow> fixed_string \<Rightarrow> 'j" where
  "fixed_string_to_json L from = js_string L (to_string_view from)"

definition strict_from_json :: "('j, 'z) json_lib_scheme \<Rightarrow> nat \<Rightarrow> 'j \<Rightarrow> string + fixed_string" where
  "strict_from_json L n j =
     rbind (js_get_string L j) (\<lambda>s.
       case fs_from n s of Inl _ \<Rightarrow> Inl ''fixed_string out of bounds'' | Inr parsed \<Rightarrow> Inr parsed)"

definition truncating_from_json :: "('j, 'z) json_lib_scheme \<Rightarrow> nat \<Rightarrow> 'j \<Rightarrow> string + fixed_string" where
  "truncating_from_json L n j = rbind (js_get_string L j) (\<lambda>s. Inr (from_string_view n s))"

definition strong_to_json :: "('a \<Rightarrow> 'j) \<Rightarrow> ('a, 'tag) strong_type \<Rightarrow> 'j" where
  "strong_to_json to_json from = to_json (st_get from)"

definition strong_from_json :: "('j \<Rightarrow> string + 'a) \<Rightarrow> 'j \<Rightarrow> string + ('a, 'tag) strong_type" where
  "strong_from_json from_json j = rbind (from_json j) (\<lambda>v. Inr (st_make v))"

definition defaulted_to_json :: "('a \<Rightarrow> 'j) \<Rightarrow> 'a defaulted_field \<Rightarrow> 'j" where
  "defaulted_to_json to_json from = to_json (df_value from)"

definition defaulted_from_json :: "('j \<Rightarrow> string + 'a) \<Rightarrow> 'j \<Rightarrow> 'a defaulted_field \<Rightarrow> string + 'a defaulted_field" where
  "defaulted_from_json from_json j to = rbind (from_json j) (\<lambda>v. Inr (to\<lparr>df_value := v\<rparr>))"

definition optional_to_json :: "('j, 'z) json_lib_scheme \<Rightarrow> ('a \<Rightarrow> 'j) \<Rightarrow> 'a option \<Rightarrow> 'j" where
  "optional_to_json L to_json from = (case from of Some v \<Rightarrow> to_json v | None \<Rightarrow> js_null L)"

text \<open>A duration is its count.\<close>

definition duration_to_json :: "('j, 'z) json_lib_scheme \<Rightarrow> int \<Rightarrow> 'j" where
  "duration_to_json L count = js_integer L count"

definition duration_from_json :: "('j, 'z) json_lib_scheme \<Rightarrow> 'j \<Rightarrow> string + int" where
  "duration_from_json L j = js_get_integer L j"

text \<open>
  Maps keyed by fixed strings. The writer goes through the entries in the map's own order, any list
  of them. The reader goes through \<open>from.items()\<close>, which the library defines for every value, and
  assigns into the map it is given: entries that were there stay.
\<close>

definition map_to_json :: "('j, 'z) json_lib_scheme \<Rightarrow> ('a \<Rightarrow> 'j) \<Rightarrow> (fixed_string \<times> 'a) list \<Rightarrow> 'j" where
  "map_to_json L to_json entries =
     js_object L (fold (\<lambda>(key, v). write_member (to_string_view key) (to_json v)) entries [])"

fun read_entries ::
  "nat \<Rightarrow> ('j \<Rightarrow> string + 'a) \<Rightarrow> (string \<times> 'j) list \<Rightarrow> (string \<rightharpoonup> 'a) \<Rightarrow> string + (string \<rightharpoonup> 'a)" where
  "read_entries n from_json [] to = Inr to"
| "read_entries n from_json ((key, v) # items) to =
     (case fs_from n key of
        Inl _ \<Rightarrow> Inl ''fixed_string out of bounds''
      | Inr parsed \<Rightarrow> rbind (from_json v) (\<lambda>x. read_entries n from_json items (to(to_string_view parsed \<mapsto> x))))"

definition map_from_json ::
  "('j \<Rightarrow> (string \<times> 'j) list) \<Rightarrow> nat \<Rightarrow> ('j \<Rightarrow> string + 'a) \<Rightarrow> 'j \<Rightarrow> (string \<rightharpoonup> 'a) \<Rightarrow> string + (string \<rightharpoonup> 'a)" where
  "map_from_json items n from_json j to = read_entries n from_json (items j) to"

definition json_dump :: "('j, 'z) json_lib_scheme \<Rightarrow> ('a \<Rightarrow> 'j) \<Rightarrow> 'a \<Rightarrow> string" where
  "json_dump L to_json object = js_dump L (to_json object)"

definition json_format :: "('j, 'z) json_lib_scheme \<Rightarrow> 'j \<Rightarrow> string" where
  "json_format L v = js_dump L v"

text \<open>\<open>write_field\<close> of a defaulted member.\<close>

definition write_defaulted_member :: "string \<Rightarrow> ('a \<Rightarrow> 'j) \<Rightarrow> 'a defaulted_field \<Rightarrow> (string \<times> 'j) list \<Rightarrow> (string \<times> 'j) list" where
  "write_defaulted_member key to_json field ms = write_member key (to_json (df_value field)) ms"

section \<open>Round trips\<close>

lemma strict_round_trip:
  assumes "json_laws L" "n \<le> 127" "fs_ok n fs" "\<not> fs_truncated fs"
  shows "strict_from_json L n (fixed_string_to_json L fs) = Inr fs"
proof -
  note b = fs_ok_buffer [OF assms(3,2)]
  then have "from_string_view n (to_string_view fs) = fs" using assms(4) by (cases fs) (simp add: from_string_view_def)
  with b show ?thesis by (simp add: strict_from_json_def fixed_string_to_json_def json_lawsD(5) [OF assms(1)] fs_from_def)
qed

lemma strong_round_trip:
  "from_json (to_json (st_get v)) = Inr (st_get v) \<Longrightarrow> strong_from_json from_json (strong_to_json to_json v) = Inr v"
  by (simp add: strong_from_json_def strong_to_json_def st_eq_iff)

lemma duration_round_trip: "json_laws L \<Longrightarrow> duration_from_json L (duration_to_json L d) = Inr d"
  by (simp add: duration_from_json_def duration_to_json_def json_lawsD)

lemma defaulted_member_round_trip:
  assumes "config_laws L" "distinct (map fst ms)" "from_json (to_json (df_value f)) = Inr (df_value f)"
  shows "read_defaulted_field L from_json (js_object L (write_defaulted_member key to_json f ms)) key d = Inr (df_value f)"
  using assms read_defaulted_member [OF assms(1) write_member_distinct [OF assms(2)], of from_json key "to_json (df_value f)" key d]
  by (simp add: write_defaulted_member_def map_of_write_member)

lemma read_entries_distinct:
  assumes "n \<le> 127"
  shows "distinct (map fst items) \<Longrightarrow> \<forall>(k, v)\<in>set items. length k \<le> n \<and> (\<exists>x. from_json v = Inr x) \<Longrightarrow>
    read_entries n from_json items to = Inr (\<lambda>k. case map_of items k of Some v \<Rightarrow> Some (projr (from_json v)) | None \<Rightarrow> to k)"
proof (induction items arbitrary: to)
  case (Cons item items)
  obtain k v where item: "item = (k, v)" by (cases item)
  from Cons.prems(2) obtain x where kv: "length k \<le> n" "from_json v = Inr x" by (auto simp: item)
  have "k \<notin> dom (map_of items)" using Cons.prems(1) by (simp add: item dom_map_of_conv_image_fst)
  then have none: "map_of items k = None" by blast
  from kv(1) assms have "fs_from n k = Inr (from_string_view n k)" "to_string_view (from_string_view n k) = k"
    by (simp_all add: fs_from_def from_string_view_def)
  moreover from Cons have "read_entries n from_json items (to(k \<mapsto> x)) =
    Inr (\<lambda>k'. case map_of items k' of Some v \<Rightarrow> Some (projr (from_json v)) | None \<Rightarrow> (to(k \<mapsto> x)) k')" by (simp add: item)
  ultimately show ?case using kv(2) none by (auto simp: item fun_eq_iff split: option.split)
qed simp

text \<open>What \<open>items\<close> gives for an object: each of its members once, in some order.\<close>

definition items_law :: "('j, 'z) json_lib_scheme \<Rightarrow> ('j \<Rightarrow> (string \<times> 'j) list) \<Rightarrow> bool" where
  "items_law L items \<longleftrightarrow> (\<forall>kvs. distinct (map fst kvs) \<longrightarrow>
     distinct (map fst (items (js_object L kvs))) \<and> set (items (js_object L kvs)) = set kvs)"

lemma fold_write_entries:
  "distinct (map (to_string_view \<circ> fst) entries) \<Longrightarrow>
   fold (\<lambda>(key, v). write_member (to_string_view key) (to_json v)) entries [] =
     map (\<lambda>(key, v). (to_string_view key, to_json v)) entries"
proof -
  assume d: "distinct (map (to_string_view \<circ> fst) entries)"
  let ?ms = "map (\<lambda>(key, v). (to_string_view key, to_json v)) entries"
  have f: "fold (\<lambda>(key, v). write_member (to_string_view key) (to_json v)) es ms =
      fold (\<lambda>(k, v). write_member k v) (map (\<lambda>(key, v). (to_string_view key, to_json v)) es) ms" for es ms
    by (induction es arbitrary: ms) auto
  have k: "map fst ?ms = map (to_string_view \<circ> fst) entries" by (induction entries) auto
  have "distinct (map fst [] @ map fst ?ms)" using d by (simp only: k) simp
  from fold_write_members [OF this] show ?thesis by (simp add: f)
qed

text \<open>
  A map keyed by fixed strings survives JSON: written in whatever order its entries come and read
  in whatever order the library lists the members, into any map, every entry of the map is there
  with its value and every other key is as it was before; and when one key of the object is too
  long for the key type, reading fails instead of cutting it.
\<close>
lemma map_json_roundtrip:
  assumes "items_law L items" "n \<le> 127" "distinct (map (to_string_view \<circ> fst) entries)"
    and "\<forall>(key, v)\<in>set entries. fs_ok n key \<and> from_json (to_json v) = Inr v"
  shows "map_from_json items n from_json (map_to_json L to_json entries) to =
      Inr (\<lambda>k. case map_of (map (\<lambda>(key, v). (to_string_view key, v)) entries) k of Some v \<Rightarrow> Some v | None \<Rightarrow> to k) \<and>
    (\<forall>kvs k v. distinct (map fst kvs) \<and> (k, v) \<in> set kvs \<and> n < length k \<longrightarrow>
      \<not> is_ok (map_from_json items n from_json (js_object L kvs) to))"
proof
  let ?ms = "map (\<lambda>(key, v). (to_string_view key, to_json v)) entries"
  let ?its = "items (js_object L ?ms)"
  have keys: "map fst ?ms = map (to_string_view \<circ> fst) entries" by (induction entries) auto
  then have d: "distinct (map fst ?ms)" using assms(3) by (simp only: keys)
  with assms(1) have its: "distinct (map fst ?its)" "set ?its = set ?ms" unfolding items_law_def by blast+
  have ok: "\<forall>(k, v)\<in>set ?its. length k \<le> n \<and> (\<exists>x. from_json v = Inr x)"
    unfolding its(2) using assms(4) fs_ok_buffer [OF _ assms(2)] by fastforce
  have same: "map_of ?its = map_of ?ms" using map_of_inject_set [OF its(1) d] its(2) by (rule iffD2)
  have vals: "map_of ?ms k = Some w \<Longrightarrow> map_of (map (\<lambda>(key, v). (to_string_view key, v)) entries) k = Some (projr (from_json w))" for k w
    using assms(4) by (induction entries) (auto split: if_splits)
  have none: "map_of ?ms k = None \<Longrightarrow> map_of (map (\<lambda>(key, v). (to_string_view key, v)) entries) k = None" for k
    by (induction entries) (auto split: if_splits)
  have eq: "(case map_of ?its k of Some v \<Rightarrow> Some (projr (from_json v)) | None \<Rightarrow> to k) =
    (case map_of (map (\<lambda>(key, v). (to_string_view key, v)) entries) k of Some v \<Rightarrow> Some v | None \<Rightarrow> to k)" for k
    unfolding same using vals [of k] none [of k] by (cases "map_of ?ms k") auto
  show "map_from_json items n from_json (map_to_json L to_json entries) to =
      Inr (\<lambda>k. case map_of (map (\<lambda>(key, v). (to_string_view key, v)) entries) k of Some v \<Rightarrow> Some v | None \<Rightarrow> to k)"
    unfolding map_from_json_def map_to_json_def fold_write_entries [OF assms(3)]
      read_entries_distinct [OF assms(2) its(1) ok] eq ..
next
  have "(k, v) \<in> set its \<Longrightarrow> n < length k \<Longrightarrow> \<not> is_ok (read_entries n from_json its to)" for k v its to
  proof (induction its arbitrary: to)
    case (Cons it its)
    obtain k' v' where it: "it = (k', v')" by (cases it)
    show ?case
    proof (cases "n < length k'")
      case True
      then show ?thesis by (simp add: it fs_from_def make_leaf_error_def)
    next
      case False
      with Cons show ?thesis by (cases "from_json v'") (auto simp: it fs_from_def)
    qed
  qed simp
  with assms(1) show "\<forall>kvs k v. distinct (map fst kvs) \<and> (k, v) \<in> set kvs \<and> n < length k \<longrightarrow>
      \<not> is_ok (map_from_json items n from_json (js_object L kvs) to)"
    unfolding items_law_def map_from_json_def by blast
qed

text \<open>The sample library lists the members of an object as they are.\<close>

fun members_of_value :: "json_value \<Rightarrow> (string \<times> json_value) list" where
  "members_of_value (V_Object kvs) = kvs"
| "members_of_value _ = []"

lemma map_json_roundtrip_witness:
  "map_from_json members_of_value 8 (js_get_unsigned sample_config_lib)
     (map_to_json sample_config_lib (js_number sample_config_lib)
        [(fs_literal 8 ''BVMF'', 7), (fs_literal 8 ''XNYS'', 9)]) Map.empty = Inr [''BVMF'' \<mapsto> 7, ''XNYS'' \<mapsto> 9] \<and>
   \<not> is_ok (map_from_json members_of_value 8 (js_get_unsigned sample_config_lib)
     (js_object sample_config_lib [(''too long for it'', js_number sample_config_lib 1)]) Map.empty)"
proof -
  let ?L = sample_config_lib
  let ?entries = "[(fs_literal 8 ''BVMF'', 7), (fs_literal 8 ''XNYS'', 9)] :: (fixed_string \<times> u64) list"
  have o: "js_object ?L = V_Object" by (simp add: sample_config_lib_def sample_json_def json_lib.defs)
  have law: "items_law ?L members_of_value" by (simp add: items_law_def o)
  have views: "to_string_view (fs_literal 8 ''BVMF'') = ''BVMF''" "to_string_view (fs_literal 8 ''XNYS'') = ''XNYS''" by code_simp+
  have ok: "fs_ok 8 (fs_literal 8 ''BVMF'')" "fs_ok 8 (fs_literal 8 ''XNYS'')"
    by (rule fs_ok_store [OF _ fs_literal_buffer], simp, simp)+
  have n: "js_get_unsigned ?L (js_number ?L v) = Inr v" for v by (rule json_lawsD(7) [OF config_lawsD(1) [OF sample_config_laws]])
  have d: "distinct (map (to_string_view \<circ> fst) ?entries)" by (simp add: views)
  have all: "\<forall>(key, v)\<in>set ?entries. fs_ok 8 key \<and> js_get_unsigned ?L (js_number ?L v) = Inr v" using ok n by simp
  have "(8::nat) \<le> 127" by simp
  note rt = map_json_roundtrip [OF law this d all, of Map.empty]
  have "(\<lambda>k. case map_of (map (\<lambda>(key, v). (to_string_view key, v)) ?entries) k of Some v \<Rightarrow> Some v | None \<Rightarrow> None) =
    [''BVMF'' \<mapsto> 7, ''XNYS'' \<mapsto> 9]" by (auto simp: views fun_eq_iff)
  with conjunct1 [OF rt] have
    "map_from_json members_of_value 8 (js_get_unsigned ?L) (map_to_json ?L (js_number ?L) ?entries) Map.empty =
      Inr [''BVMF'' \<mapsto> 7, ''XNYS'' \<mapsto> 9]" by simp
  moreover have "\<not> is_ok (map_from_json members_of_value 8 (js_get_unsigned ?L)
     (js_object ?L [(''too long for it'', js_number ?L 1)]) Map.empty)"
    using conjunct2 [OF rt, rule_format, of "[(''too long for it'', js_number ?L 1)]" "''too long for it''" "js_number ?L 1"] by simp
  ultimately show ?thesis ..
qed

end
