(* ===== verification/Assertions.thy ===== *)
theory Assertions
  imports Wrappers Event_Loop
begin

text \<open>
  \<open>LAB_ASSERT\<close> (\<open>lab/assert.hpp\<close>) and what its callers outside the engine do when it fails. A failed
  assertion is always printed; it aborts the program in a build without \<open>NDEBUG\<close> only, and otherwise
  the code goes on. Also \<open>make_unexpected\<close> (\<open>lab/expected.hpp\<close>).
\<close>

section \<open>The macro\<close>

datatype build = Debug_Build | Release_Build

text \<open>Where an assertion stands; \<open>as_trace\<close> is the stacktrace at the failure.\<close>

record assert_site =
  as_build :: build
  as_file :: string
  as_trace :: string

text \<open>What an operation comes to, with the text on the standard error stream.\<close>

datatype 'a outcome =
    Aborts string
  | Undefined
  | Returns 'a string

fun continue_with :: "'a outcome \<Rightarrow> ('a \<Rightarrow> string \<Rightarrow> 'b outcome) \<Rightarrow> 'b outcome" where
  "continue_with (Aborts err) f = Aborts err"
| "continue_with Undefined f = Undefined"
| "continue_with (Returns x err) f = f x err"

definition lab_abort :: "build \<Rightarrow> string \<Rightarrow> unit outcome" where
  "lab_abort b err = (case b of Release_Build \<Rightarrow> Returns () err | Debug_Build \<Rightarrow> Aborts err)"

definition assertion_text :: "assert_site \<Rightarrow> string \<Rightarrow> nat \<Rightarrow> string" where
  "assertion_text site expr line =
     ''assert failed: `'' @ expr @ ''` at '' @ as_file site @ '':'' @ decimal line @ [char_of (10::nat)] @
     as_trace site @ [char_of (10::nat)]"

definition lab_assert :: "assert_site \<Rightarrow> string \<Rightarrow> nat \<Rightarrow> bool \<Rightarrow> string \<Rightarrow> unit outcome" where
  "lab_assert site expr line holds err =
     (if holds then Returns () err else lab_abort (as_build site) (err @ assertion_text site expr line))"

definition make_unexpected :: "'e \<Rightarrow> 'e + 'a" where
  "make_unexpected e = Inl e"

section \<open>Its callers\<close>

text \<open>\<open>enqueue\<close> fails only when no memory can be had for the task; then the queue is as before.\<close>

definition loop_post_checked :: "assert_site \<Rightarrow> bool \<Rightarrow> 't \<Rightarrow> 't event_loop \<Rightarrow> string \<Rightarrow> 't event_loop outcome" where
  "loop_post_checked site allocated task st err =
     (let st' = (if allocated then loop_post task st else st)
      in continue_with (lab_assert site ''task_queue_.enqueue(std::move(task))'' 170 allocated err) (\<lambda>_. Returns st'))"

text \<open>Reading \<open>parts[i]\<close> past the end is undefined; parts beyond the last field are not looked at.\<close>

definition split_fields_checked :: "assert_site \<Rightarrow> nat \<Rightarrow> string \<Rightarrow> char \<Rightarrow> string \<Rightarrow> string list outcome" where
  "split_fields_checked site n body delimiter err =
     (let parts = split_on delimiter body
      in continue_with (lab_assert site ''parts.size() == N'' 60 (length parts = n) err)
           (\<lambda>_ err. if n \<le> length parts then Returns (map (\<lambda>p. trim p ascii_whitespace) (take n parts)) err else Undefined))"

text \<open>
  The bytes a pointer and a length stand for: \<open>None\<close> is the null pointer. Nothing is read for the
  length zero.
\<close>

definition read_bytes :: "string option \<Rightarrow> nat \<Rightarrow> string option" where
  "read_bytes data k =
     (if k = 0 then Some []
      else (case data of None \<Rightarrow> None | Some bytes \<Rightarrow> if k \<le> length bytes then Some (take k bytes) else None))"

definition fs_copy :: "nat \<Rightarrow> string option \<Rightarrow> nat \<Rightarrow> string \<Rightarrow> fixed_string outcome" where
  "fs_copy n data len err =
     (case read_bytes data (min len n) of
        None \<Rightarrow> Undefined
      | Some s \<Rightarrow> Returns \<lparr>fs_buffer = store n s, fs_truncated = (len > n)\<rparr> err)"

text \<open>\<open>from(data, len)\<close> checks the pointer first, the constructor after the copy.\<close>

definition fs_from_data :: "assert_site \<Rightarrow> nat \<Rightarrow> string option \<Rightarrow> nat \<Rightarrow> string \<Rightarrow> fixed_string result outcome" where
  "fs_from_data site n data len err =
     continue_with (lab_assert site ''data != nullptr'' 132 (data \<noteq> None) err)
       (\<lambda>_ err. if len > n then Returns (make_leaf_error (Lab_Code Code_Out_Of_Bounds) ''max size exceeded'') err
          else continue_with (fs_copy n data len err) (\<lambda>fs. Returns (Inr fs)))"

definition fs_construct_data :: "assert_site \<Rightarrow> nat \<Rightarrow> string option \<Rightarrow> nat \<Rightarrow> string \<Rightarrow> fixed_string outcome" where
  "fs_construct_data site n data len err =
     continue_with (fs_copy n data len err)
       (\<lambda>fs err. continue_with (lab_assert site ''data != nullptr'' 110 (data \<noteq> None) err) (\<lambda>_. Returns fs))"

section \<open>What a failed assertion leads to\<close>

lemma lab_assert_holds [simp]: "lab_assert site expr line True err = Returns () err"
  by (simp add: lab_assert_def)

lemma lab_assert_fails:
  "lab_assert site expr line False err =
     (if as_build site = Debug_Build then Aborts (err @ assertion_text site expr line)
      else Returns () (err @ assertion_text site expr line))"
  by (cases "as_build site") (simp_all add: lab_assert_def lab_abort_def)

lemma split_on_not_empty: "split_on d s \<noteq> []"
  by (cases s) (auto split: list.splits)

lemma fs_copy_view: "len \<le> length bytes \<Longrightarrow> fs_copy n (Some bytes) len err = Returns (from_string_view n (take len bytes)) err"
  by (auto simp: fs_copy_def read_bytes_def from_string_view_def Let_def min_def)

text \<open>Where the preconditions hold, the operations are the ones of the other theories, in either build.\<close>

lemma checked_operations_agree:
  "loop_post_checked site True task st err = Returns (loop_post task st) err"
  "split_fields n body delimiter = Some parts \<Longrightarrow> split_fields_checked site n body delimiter err = Returns parts err"
  "len \<le> length bytes \<Longrightarrow> fs_from_data site n (Some bytes) len err = Returns (fs_from n (take len bytes)) err"
  "len \<le> length bytes \<Longrightarrow> fs_construct_data site n (Some bytes) len err = Returns (from_string_view n (take len bytes)) err"
  by (auto simp: loop_post_checked_def split_fields_checked_def split_fields_def fs_from_data_def fs_from_def
      fs_construct_data_def fs_copy_view Let_def split: if_splits)

text \<open>
  Without \<open>NDEBUG\<close> a broken precondition ends the program after the line is printed. With it the line is
  printed all the same, and then the task is lost, surplus fields are dropped, missing ones are
  undefined, and the null pointer is read unless nothing is to be read.
\<close>

lemmas checked_defs = loop_post_checked_def split_fields_checked_def fs_from_data_def fs_construct_data_def
  fs_copy_def read_bytes_def Let_def

lemma failed_assertion_aborts:
  assumes "as_build site = Debug_Build"
  shows "\<exists>txt. loop_post_checked site False task st err = Aborts (err @ txt)"
    "length (split_on delimiter body) \<noteq> n \<Longrightarrow> \<exists>txt. split_fields_checked site n body delimiter err = Aborts (err @ txt)"
    "\<exists>txt. fs_from_data site n None len err = Aborts (err @ txt)"
  by (simp_all add: checked_defs lab_assert_fails assms)

lemma failed_assertion_goes_on:
  assumes "as_build site = Release_Build"
  shows "\<exists>txt. loop_post_checked site False task st err = Returns st (err @ txt)"
    "length (split_on delimiter body) > n \<Longrightarrow> \<exists>txt. split_fields_checked site n body delimiter err =
       Returns (map (\<lambda>p. trim p ascii_whitespace) (take n (split_on delimiter body))) (err @ txt)"
    "length (split_on delimiter body) < n \<Longrightarrow> split_fields_checked site n body delimiter err = Undefined"
    "0 < len \<Longrightarrow> len \<le> n \<Longrightarrow> fs_from_data site n None len err = Undefined"
  by (auto simp: checked_defs lab_assert_fails assms)

text \<open>The truncating constructor copies before it checks: for a null pointer with a length the check comes too late in both builds.\<close>

lemma construct_checks_too_late: "0 < len \<Longrightarrow> 0 < n \<Longrightarrow> fs_construct_data site n None len err = Undefined"
  by (auto simp: checked_defs min_def)

end
