(* ===== verification/Loop_Progress.thy ===== *)
theory Loop_Progress
  imports Event_Loop Fair_System
begin

text \<open>
  An event loop serves its queue: in a run that passes its thread over only finitely often in a
  row, whatever has been posted is executed, however long others go on posting.
\<close>

section \<open>Suffixes of runs\<close>

lemma shorter_is_prefix:
  assumes "xs @ ys = as @ bs" "length as \<le> length xs"
  shows "\<exists>more. xs = as @ more"
  using assms by (metis append_eq_append_conv_if append_take_drop_id)

lemma run_suffix: "infinite_run step who run \<Longrightarrow> infinite_run step (\<lambda>k. who (i + k)) (\<lambda>k. run (i + k))"
  by (simp add: infinite_run_def)

lemma fair_suffix:
  assumes "weakly_fair step actors who run"
  shows "weakly_fair step actors (\<lambda>k. who (i + k)) (\<lambda>k. run (i + k))"
  unfolding weakly_fair_def
proof (intro ballI allI)
  fix a k
  assume "a \<in> actors"
  from weakly_fairD [OF assms this, of "i + k"] obtain j where "j \<ge> i + k" "\<not> can_move step a (run j) \<or> who j = a" .
  then show "\<exists>j\<ge>k. \<not> can_move step a (run (i + j)) \<or> who (i + j) = a" by (intro exI [of _ "j - i"]) auto
qed

lemma fair_subset: "weakly_fair step actors who run \<Longrightarrow> b \<subseteq> actors \<Longrightarrow> weakly_fair step b who run"
  by (auto simp: weakly_fair_def)

lemma always_again_fair: "\<forall>a\<in>actors. \<forall>i. \<exists>j\<ge>i. who j = a \<Longrightarrow> weakly_fair step actors who run"
  by (auto simp: weakly_fair_def)

text \<open>If every one of a list of actors can always move, there is a run that lets them move in turn.\<close>

lemma round_robin_run:
  assumes "ok s" and keeps: "\<And>a s t. ok s \<Longrightarrow> step a s t \<Longrightarrow> ok t"
    and moves: "\<And>a s. ok s \<Longrightarrow> a \<in> set actors \<Longrightarrow> can_move step a s" and "actors \<noteq> []"
  shows "\<exists>who run. run 0 = s \<and> infinite_run step who run \<and> (\<forall>a\<in>set actors. \<forall>i. \<exists>j\<ge>i. who j = a)"
proof -
  let ?who = "\<lambda>i. actors ! (i mod length actors)"
  have who: "?who i \<in> set actors" for i using \<open>actors \<noteq> []\<close> by simp
  have "\<exists>run. \<forall>n. (ok (run n) \<and> (n = 0 \<longrightarrow> run n = s)) \<and> step (?who n) (run n) (run (Suc n))"
  proof (rule dependent_nat_choice)
    fix x and n :: nat
    assume x: "ok x \<and> (n = 0 \<longrightarrow> x = s)"
    with moves who [of n] obtain y where "step (?who n) x y" by (auto simp: can_move_def)
    with keeps x show "\<exists>y. (ok y \<and> (Suc n = 0 \<longrightarrow> y = s)) \<and> step (?who n) x y" by blast
  qed (use \<open>ok s\<close> in blast)
  then obtain run where run: "run 0 = s" "\<forall>n. step (?who n) (run n) (run (Suc n))" by blast
  have "\<exists>j\<ge>i. ?who j = a" if "a \<in> set actors" for a i
  proof -
    from that obtain m where m: "m < length actors" "actors ! m = a" by (auto simp: in_set_conv_nth)
    then have "?who (i * length actors + m) = a" by simp
    moreover have "i \<le> i * length actors + m" using m(1) by (cases "length actors") simp_all
    ultimately show ?thesis by blast
  qed
  with run show ?thesis by (intro exI [of _ ?who] exI [of _ run]) (auto simp: infinite_run_def)
qed

section \<open>One step of a loop that has tasks\<close>

text \<open>How many steps a thread without pollers makes at most before it runs the next task.\<close>

fun serve_rank :: "phase \<Rightarrow> nat" where
  "serve_rank (Polling i) = 3"
| "serve_rank Waiting = 2"
| "serve_rank Head = 1"
| "serve_rank ph = 0"

lemma thread_step_serves:
  assumes "thread_step idle 0 l l'" "el_queue l \<noteq> []"
  shows "length (el_executed l') = Suc (length (el_executed l)) \<or>
    el_executed l' = el_executed l \<and> serve_rank (el_phase l') < serve_rank (el_phase l)"
  using assms by (cases rule: thread_step.cases) (auto simp: run_task_def)

section \<open>The contract of a served loop\<close>

text \<open>
  \<open>thread\<close> is the loop's own actor. The others may post and may clear the running flag; the loop does
  not finish with tasks left, and until it has finished its thread can always move.
\<close>

locale served_loop = actor_system step ok
  for step :: "'a \<Rightarrow> 's \<Rightarrow> 's \<Rightarrow> bool" and ok :: "'s \<Rightarrow> bool" +
  fixes served :: "'s \<Rightarrow> 't event_loop" and thread :: 'a
  assumes own_step: "ok s \<Longrightarrow> step thread s t \<Longrightarrow> \<exists>idle. thread_step idle 0 (served s) (served t)"
    and other_step: "ok s \<Longrightarrow> step b s t \<Longrightarrow> b \<noteq> thread \<Longrightarrow>
      el_phase (served t) = el_phase (served s) \<and> el_executed (served t) = el_executed (served s) \<and>
      (\<exists>more. el_posted (served t) = el_posted (served s) @ more)"
    and served_sound: "ok s \<Longrightarrow> loop_ok (served s)"
    and none_left: "ok s \<Longrightarrow> el_phase (served s) = Finished \<Longrightarrow> el_queue (served s) = []"
    and thread_can: "ok s \<Longrightarrow> el_phase (served s) \<noteq> Finished \<Longrightarrow> can_move step thread s"
begin

lemma posted_grows:
  assumes "ok s" "step b s t"
  shows "\<exists>more. el_posted (served t) = el_posted (served s) @ more"
proof (cases "b = thread")
  case True
  with own_step assms obtain idle where "thread_step idle 0 (served s) (served t)" by blast
  from thread_step_ok [OF this served_sound [OF assms(1)]] show ?thesis by simp
qed (use other_step [OF assms] in blast)

lemma posted_later:
  assumes "infinite_run step who run" "ok (run 0)" "i \<le> j"
  shows "\<exists>more. el_posted (served (run j)) = el_posted (served (run i)) @ more"
proof (rule run_keeps [OF assms(1,2) _ assms(3)])
  fix b s t
  assume "ok s" "\<exists>more. el_posted (served s) = el_posted (served (run i)) @ more" "step b s t"
  with posted_grows [of s b t] show "\<exists>more. el_posted (served t) = el_posted (served (run i)) @ more" by fastforce
qed simp

lemma executed_prefix:
  assumes "ok s" "el_posted (served s) = ps @ qs" "length ps \<le> length (el_executed (served s))"
  shows "\<exists>later. el_executed (served s) = ps @ later"
proof (rule shorter_is_prefix [OF _ assms(3)])
  show "el_executed (served s) @ el_queue (served s) = ps @ qs"
    using served_sound [OF assms(1)] assms(2) by (simp add: loop_ok_def)
qed

text \<open>Everything posted is executed, in its place.\<close>

lemma posted_is_executed:
  assumes run: "infinite_run step who run" "ok (run 0)" and fair: "weakly_fair step {thread} who run"
  shows "\<exists>j\<ge>i. \<exists>later. el_executed (served (run j)) = el_posted (served (run i)) @ later"
proof -
  let ?ps = "el_posted (served (run i))"
  let ?run = "\<lambda>k. run (i + k)" and ?who = "\<lambda>k. who (i + k)"
  let ?ok = "\<lambda>s. ok s \<and> (\<exists>more. el_posted (served s) = ?ps @ more)"
  let ?Q = "\<lambda>s. length ?ps \<le> length (el_executed (served s))"
  let ?dist = "\<lambda>s. (length ?ps - length (el_executed (served s)), serve_rank (el_phase (served s)))"
  let ?r = "less_than <*lex*> less_than"
  have sys: "actor_system step ?ok"
  proof
    fix s a t
    assume "?ok s" "step a s t"
    with step_ok posted_grows [of s a t] show "?ok t" by fastforce
  qed
  have waiting: "el_queue (served s) \<noteq> []" if "?ok s" "\<not> ?Q s" for s
    using that served_sound [of s] by (auto simp: loop_ok_def)
  have enabled: "can_move step thread s" if "?ok s" "\<not> ?Q s" for s
    using that waiting [OF that] none_left [of s] thread_can [of s] by auto
  have closer: "(?dist t, ?dist s) \<in> ?r \<or> ?dist t = ?dist s \<and> thread = thread \<and> b \<noteq> thread"
    if "?ok s" "step b s t" "\<not> ?Q s" for b s t
  proof (cases "b = thread")
    case True
    with own_step that obtain idle where "thread_step idle 0 (served s) (served t)" by blast
    from thread_step_serves [OF this waiting [OF that(1,3)]] that(3) show ?thesis by auto
  next
    case False
    with other_step [of s b t] that show ?thesis by simp
  qed
  have start: "?ok (?run 0)" using run_ok [OF run] by simp
  have "wf ?r" by (simp add: wf_lex_prod)
  have "\<exists>k\<ge>0. ?Q (?run k)"
    by (rule actor_system.helpful_progress [where helpful = "\<lambda>s. thread" and dist = ?dist and r = ?r,
          OF sys run_suffix [OF run(1)] start fair_suffix [OF fair] _ \<open>wf ?r\<close> enabled closer]) simp_all
  then obtain k where k: "?Q (run (i + k))" by blast
  obtain rest where "el_posted (served (run (i + k))) = ?ps @ rest" using posted_later [OF run, of i "i + k"] by auto
  from executed_prefix [OF run_ok [OF run] this k] show ?thesis by (intro exI [of _ "i + k"]) simp
qed

end

end
