(* ===== verification/Pipeline_Progress.thy ===== *)
theory Pipeline_Progress
  imports Pipeline_Shutdown Loop_Progress
begin

text \<open>
  The running server makes progress: without being stopped it writes the records of everything it has
  read unless an allocation fails in the engine, and reads everything that has arrived.
\<close>

section \<open>Both queues are served\<close>

lemma alive_runD:
  assumes "alive_run L app0 st"
  shows "pipeline_run L app0 st" "\<not> pl_terminated st" "stages_ok st" "flow_ok L app0 st" "engine_flow app0 st"
  using assms run_invariant [of L app0 st] by (auto simp: alive_run_def)

lemma others_at_processing:
  assumes "pipeline_step L b st t" "b \<noteq> Processing_Thread"
  shows "el_phase (ap_processing (pl_app t)) = el_phase (ap_processing (pl_app st)) \<and>
    el_executed (ap_processing (pl_app t)) = el_executed (ap_processing (pl_app st)) \<and>
    (\<exists>later. el_posted (ap_processing (pl_app t)) = el_posted (ap_processing (pl_app st)) @ later)"
  using assms by (cases rule: pipeline_step.cases) (auto simp: on_datagram_eq fold_loop_post loop_stop_def)

lemma others_at_output:
  assumes "pipeline_step L b st t" "b \<noteq> Output_Thread"
  shows "el_phase (ap_output (pl_app t)) = el_phase (ap_output (pl_app st)) \<and>
    el_executed (ap_output (pl_app t)) = el_executed (ap_output (pl_app st)) \<and>
    (\<exists>later. el_posted (ap_output (pl_app t)) = el_posted (ap_output (pl_app st)) @ later)"
  using assms by (cases rule: pipeline_step.cases) (auto simp: on_datagram_eq post_events_def fold_loop_post loop_stop_def)

text \<open>
  Runs that end count as well: a process that has died stays as it is, and one for which nothing
  arrives may rest. A rest is no step of a thread.
\<close>

definition lasting_step :: "('j, 'z) json_lib_scheme \<Rightarrow> actor \<Rightarrow> pipeline \<Rightarrow> pipeline \<Rightarrow> bool" where
  "lasting_step L a st t \<longleftrightarrow> pipeline_step L a st t \<or> t = st \<and> (a = Network \<or> pl_terminated st)"

definition living_step :: "('j, 'z) json_lib_scheme \<Rightarrow> actor \<Rightarrow> pipeline \<Rightarrow> pipeline \<Rightarrow> bool" where
  "living_step L a st t \<longleftrightarrow> alive_step L a st t \<or> t = st \<and> a = Network"

lemma living_can_move: "can_move (alive_step L) a st \<Longrightarrow> can_move (living_step L) a st"
  by (auto simp: can_move_def living_step_def)

lemma living_step_cases:
  assumes "living_step L a st t" "alive_run L app0 st"
  obtains (moves) "pipeline_step L a st t" "\<not> pl_terminated t" | (rests) "t = st" "a = Network"
  using assms by (auto simp: living_step_def alive_step_def)

lemma living_step_ok: "alive_run L app0 st \<Longrightarrow> living_step L a st t \<Longrightarrow> alive_run L app0 t"
  by (auto simp: living_step_def intro: server.step_ok)

interpretation processing_queue: served_loop "living_step L" "alive_run L app0" "\<lambda>st. ap_processing (pl_app st)" Processing_Thread
  for L app0
proof
  fix st t b
  assume st: "alive_run L app0 st"
  show "alive_run L app0 t" if "living_step L b st t" using living_step_ok [OF st that] .
  from st show "loop_ok (ap_processing (pl_app st))"
    "el_phase (ap_processing (pl_app st)) = Finished \<Longrightarrow> el_queue (ap_processing (pl_app st)) = []"
    "el_phase (ap_processing (pl_app st)) \<noteq> Finished \<Longrightarrow> can_move (living_step L) Processing_Thread st"
    using alive_runD [OF st] living_can_move [OF processing_can_move [OF st]] by (auto simp: stages_ok_def staged_def)
  show "\<exists>idle. thread_step idle 0 (ap_processing (pl_app st)) (ap_processing (pl_app t))" if "living_step L Processing_Thread st t"
    using that st by (cases rule: living_step_cases) (use processing_step_moves [of L st t] in auto)
qed (use others_at_processing in \<open>auto simp: living_step_def alive_step_def\<close>)

interpretation output_queue: served_loop "living_step L" "alive_run L app0" "\<lambda>st. ap_output (pl_app st)" Output_Thread
  for L app0
proof
  fix st t b
  assume st: "alive_run L app0 st"
  then show "loop_ok (ap_output (pl_app st))"
    "el_phase (ap_output (pl_app st)) = Finished \<Longrightarrow> el_queue (ap_output (pl_app st)) = []"
    "el_phase (ap_output (pl_app st)) \<noteq> Finished \<Longrightarrow> can_move (living_step L) Output_Thread st"
    using alive_runD [OF st] living_can_move [OF output_can_move [OF st]] by (auto simp: stages_ok_def staged_def)
  show "\<exists>idle. thread_step idle 0 (ap_output (pl_app st)) (ap_output (pl_app t))" if "living_step L Output_Thread st t"
    using that st by (cases rule: living_step_cases) (use output_step_moves [of L st t] in auto)
qed (use others_at_output in \<open>auto simp: living_step_def alive_step_def\<close>)

section \<open>What is read is written\<close>

lemma sequential_records_extend:
  "\<exists>later. sequential_records L n (ds @ ds') sp = sequential_records L n ds sp @ later"
proof -
  let ?rs = "requests_of (session_outputs L n ds)" and ?rs' = "requests_of (session_outputs L n ds')"
  from engine_source.prefix_extends [of ?rs ?rs' sp] obtain evs where
    "sp_emitted (fold spec_send (?rs @ ?rs') sp) = sp_emitted (fold spec_send ?rs sp) @ evs" by blast
  then show ?thesis by (simp add: sequential_records_def sequential_engine_def session_outputs_def del: fold_append)
qed

lemma infinite_run_alive:
  assumes "pipeline_run L app0 (run 0)" "infinite_run (pipeline_step L) who run"
  shows "infinite_run (alive_step L) who run" "alive_run L app0 (run 0)"
proof -
  have "\<not> pl_terminated (run i)" for i
  proof -
    have "pipeline_step L (who i) (run i) (run (Suc i))" using assms(2) by (simp add: infinite_run_def)
    then show ?thesis by (cases rule: pipeline_step.cases) simp_all
  qed
  with assms show "infinite_run (alive_step L) who run" "alive_run L app0 (run 0)"
    by (simp_all add: infinite_run_def alive_step_def alive_run_def)
qed

lemma infinite_run_lasts:
  assumes "pipeline_run L app0 (run 0)" "infinite_run (pipeline_step L) who run"
  shows "infinite_run (lasting_step L) who run" "\<forall>i. \<not> pl_terminated (run i)"
  using assms(2) alive_runD(2) [OF server.run_ok [OF infinite_run_alive [OF assms]]]
  by (simp_all add: infinite_run_def lasting_step_def)

lemma stays_dead:
  assumes "infinite_run (lasting_step L) who run" "pl_terminated (run i)" "i \<le> j"
  shows "pl_terminated (run j)"
  using assms(3)
proof (induction j rule: dec_induct)
  case (step n)
  have "lasting_step L (who n) (run n) (run (Suc n))" using assms(1) by (simp add: infinite_run_def)
  with step.IH show ?case by (auto simp: lasting_step_def elim: pipeline_step.cases)
qed (rule assms(2))

lemma lasting_run_living:
  assumes "pipeline_run L app0 (run 0)" "infinite_run (lasting_step L) who run" "\<forall>i. \<not> pl_terminated (run i)"
  shows "infinite_run (living_step L) who run" "alive_run L app0 (run 0)"
  using assms by (auto simp: infinite_run_def lasting_step_def living_step_def alive_step_def alive_run_def)

lemma fair_living:
  assumes "weakly_fair (pipeline_step L) actors who run" "Network \<notin> actors"
  shows "weakly_fair (living_step L) actors who run"
proof -
  have "can_move (pipeline_step L) a st" if "can_move (living_step L) a st" "a \<in> actors" for a st
    using that assms(2) by (auto simp: can_move_def living_step_def alive_step_def)
  with assms(1) show ?thesis unfolding weakly_fair_def by meson
qed

lemma executed_is_written:
  assumes "pipeline_run L app0 st" "market_data_of (sp_emitted (fold spec_send rs (abs_engine (the (ap_engine app0))))) = ms"
    and "el_executed (ap_processing (pl_app st)) = rs @ later"
  shows "\<exists>evs. el_posted (ap_output (pl_app st)) = ms @ evs"
proof -
  from run_stages [OF assms(1)] obtain e where
    e: "abs_engine e = fold spec_send (rs @ later) (abs_engine (the (ap_engine app0)))"
       "market_data_of (emitted e) = el_executed (ap_output (pl_app st)) @ el_queue (ap_output (pl_app st))"
    using assms(3) by metis
  from engine_source.prefix_extends [of rs later "abs_engine (the (ap_engine app0))"] obtain evs where
    "emitted e = sp_emitted (fold spec_send rs (abs_engine (the (ap_engine app0)))) @ evs"
    unfolding e(1) [symmetric] emitted_abs by blast
  moreover have "el_posted (ap_output (pl_app st)) = el_executed (ap_output (pl_app st)) @ el_queue (ap_output (pl_app st))"
    using run_invariant [OF assms(1)] by (simp add: stages_ok_def staged_def loop_ok_def)
  ultimately show ?thesis using assms(2) e(2) by (intro exI [of _ "market_data_of evs"]) simp
qed

text \<open>The records of everything read so far are written sooner or later.\<close>

lemma records_follow_reads:
  assumes "pipeline_run L app0 (run 0)" "infinite_run (lasting_step L) who run" "\<forall>i. \<not> pl_terminated (run i)"
    and "weakly_fair (pipeline_step L) {Processing_Thread, Output_Thread} who run"
  shows "\<exists>j\<ge>i. \<exists>later. pl_records (run j) =
    sequential_records L (datagram_limit app0) (pl_read (run i)) (abs_engine (the (ap_engine app0))) @ later"
proof -
  let ?rs = "requests_of (session_outputs L (datagram_limit app0) (pl_read (run i)))"
  note run = lasting_run_living [OF assms(1-3)]
  have fair: "weakly_fair (living_step L) {Processing_Thread} who run" "weakly_fair (living_step L) {Output_Thread} who run"
    using fair_living [OF assms(4)] by (auto elim: fair_subset)
  note reached = processing_queue.run_ok [OF run]
  from processing_queue.posted_is_executed [OF run fair(1), of i] alive_runD(4) [OF reached, of i] obtain j later where
    j: "j \<ge> i" "el_executed (ap_processing (pl_app (run j))) = ?rs @ later" by (auto simp: flow_ok_def)
  from executed_is_written [OF alive_runD(1) [OF reached] refl j(2)] obtain evs where
    evs: "el_posted (ap_output (pl_app (run j))) = market_data_of (sp_emitted (fold spec_send ?rs (abs_engine (the (ap_engine app0))))) @ evs"
    by blast
  from output_queue.posted_is_executed [OF run fair(2), of j] obtain k rest where
    k: "k \<ge> j" "el_executed (ap_output (pl_app (run k))) = el_posted (ap_output (pl_app (run j))) @ rest" by blast
  have "pl_records (run k) = map (md_encode L) (el_executed (ap_output (pl_app (run k))))"
    using alive_runD(4) [OF reached, of k] by (simp add: flow_ok_def)
  then have "pl_records (run k) = sequential_records L (datagram_limit app0) (pl_read (run i)) (abs_engine (the (ap_engine app0))) @
      map (md_encode L) (evs @ rest)"
    by (simp add: k(2) evs sequential_records_def sequential_engine_def)
  with j(1) k(1) show ?thesis by (intro exI [of _ k]) auto
qed

section \<open>What arrives is read\<close>

definition receiving :: "pipeline \<Rightarrow> bool" where
  "receiving st \<longleftrightarrow> pl_control st = Up \<and> entry_armed (ap_order_entry (pl_app st))"

definition receiving_step :: "('j, 'z) json_lib_scheme \<Rightarrow> actor \<Rightarrow> pipeline \<Rightarrow> pipeline \<Rightarrow> bool" where
  "receiving_step L a st t \<longleftrightarrow> alive_step L a st t \<and> receiving t"

definition receiving_run :: "('j, 'z) json_lib_scheme \<Rightarrow> application \<Rightarrow> pipeline \<Rightarrow> bool" where
  "receiving_run L app0 st \<longleftrightarrow> alive_run L app0 st \<and> receiving st"

text \<open>How many steps the input thread makes at most before it polls the receiver.\<close>

fun read_rank :: "phase \<Rightarrow> nat" where
  "read_rank (Polling 0) = 0"
| "read_rank Tasks = 1"
| "read_rank Head = 2"
| "read_rank Waiting = 3"
| "read_rank (Polling (Suc i)) = 4"
| "read_rank ph = 0"

text \<open>What is missing until \<open>n\<close> datagrams have been read; nobody posts to the input loop.\<close>

definition read_left :: "nat \<Rightarrow> pipeline \<Rightarrow> nat \<times> nat \<times> nat" where
  "read_left n st = (n - length (pl_read st), length (el_queue (ap_input (pl_app st))), read_rank (el_phase (ap_input (pl_app st))))"

abbreviation sooner :: "((nat \<times> nat \<times> nat) \<times> (nat \<times> nat \<times> nat)) set" where
  "sooner \<equiv> less_than <*lex*> less_than <*lex*> less_than"

lemma polls_sooner:
  assumes "thread_step idle 1 l l'" "el_phase l \<noteq> Polling 0" "el_phase l \<notin> {Drain, Finished}" "el_running l"
  shows "length (el_queue l') < length (el_queue l) \<or> el_queue l' = el_queue l \<and> read_rank (el_phase l') < read_rank (el_phase l)"
  using assms(1)
proof (cases rule: thread_step.cases)
  case (poll i worked)
  with assms(2) show ?thesis by simp
next
  case (again i)
  then show ?thesis by (cases i) simp_all
next
  case (idle_wait i d)
  then show ?thesis by (cases i) simp_all
qed (use assms(3,4) in \<open>auto simp: run_task_def\<close>)

lemma receiving_input:
  assumes "alive_run L app0 st" "receiving st"
  shows "el_running (ap_input (pl_app st))" "el_phase (ap_input (pl_app st)) \<notin> {Drain, Finished}" "ap_pollers (pl_app st) = 1"
  using alive_runD(3) [OF assms(1)] assms(2) by (auto simp: stages_ok_def staged_def receiving_def)

lemma input_step_reads:
  assumes "receiving_run L app0 st" "receiving_step L Input_Thread st t" "length (pl_read st) < n" "pl_socket st \<noteq> []"
  shows "(read_left n t, read_left n st) \<in> sooner"
proof -
  from assms(1,2) have st: "alive_run L app0 st" "receiving st" and s: "pipeline_step L Input_Thread st t" and t: "receiving t"
    by (simp_all add: receiving_run_def receiving_step_def alive_step_def)
  from s show ?thesis
  proof (cases rule: pipeline_step.cases)
    case (poll_datagram app d rest app')
    with assms(3) show ?thesis by (simp add: on_datagram_eq read_left_def)
  next
    case (poll_nothing app app' aborted)
    with assms(4) st(2) show ?thesis by (simp add: receiving_def)
  next
    case (poll_error app app')
    with t show ?thesis by (simp add: receiving_def armed_after_receive)
  next
    case (input_thread app l)
    with receiving_input [OF st] polls_sooner [of _ "ap_input app" l] show ?thesis by (fastforce simp: read_left_def)
  qed
qed

lemma others_do_not_read:
  assumes "pipeline_step L b st t" "b \<noteq> Input_Thread" "receiving st" "receiving t"
  shows "read_left n t = read_left n st"
  using assms by (cases rule: pipeline_step.cases) (auto simp: read_left_def receiving_def post_events_def)

lemma arrivals_kept:
  assumes "pipeline_step L b st t"
  shows "\<exists>more. pl_read t @ pl_socket t = (pl_read st @ pl_socket st) @ more"
  using assms by (cases rule: pipeline_step.cases) (auto simp: on_datagram_eq post_events_def)

lemma thread_keeps_receiving:
  assumes "alive_step L a st t" "receiving st" "a \<in> {Processing_Thread, Output_Thread}"
  shows "receiving t"
proof -
  from assms(1) have s: "pipeline_step L a st t" "\<not> pl_terminated t" by (simp_all add: alive_step_def)
  from s(1) show ?thesis
    by (cases rule: pipeline_step.cases) (use assms(2,3) s(2) in \<open>auto simp: receiving_def post_events_def\<close>)
qed

interpretation receiver: actor_system "receiving_step L" "receiving_run L app0" for L app0
  by unfold_locales (auto simp: receiving_step_def receiving_run_def intro: server.step_ok)

lemma receiving_step_moves: "receiving_step L b st t \<Longrightarrow> pipeline_step L b st t \<and> receiving t"
  by (simp add: receiving_step_def alive_step_def)

lemma reader_can_move:
  assumes "receiving_run L app0 st"
  shows "can_move (receiving_step L) Input_Thread st"
proof -
  from assms have st: "alive_run L app0 st" "receiving st" by (simp_all add: receiving_run_def)
  with input_moves [of L app0 st] receiving_input [OF st] show ?thesis
    by (auto simp: can_move_def receiving_step_def receiving_def)
qed

lemma arrived_is_read:
  assumes "pipeline_run L app0 (run 0)" "infinite_run (pipeline_step L) who run"
    and fair: "weakly_fair (pipeline_step L) {Input_Thread} who run" and "\<forall>k. receiving (run k)"
  shows "\<exists>j. \<exists>more. pl_read (run j) = pl_read (run 0) @ pl_socket (run 0) @ more"
proof -
  let ?arrived = "pl_read (run 0) @ pl_socket (run 0)"
  let ?ok = "\<lambda>st. receiving_run L app0 st \<and> (\<exists>more. pl_read st @ pl_socket st = ?arrived @ more)"
  let ?Q = "\<lambda>st. length ?arrived \<le> length (pl_read st)"
  note alive = infinite_run_alive [OF assms(1,2)]
  have run: "infinite_run (receiving_step L) who run" "?ok (run 0)"
    using alive assms(4) by (auto simp: infinite_run_def receiving_step_def receiving_run_def)
  have fair': "weakly_fair (receiving_step L) {Input_Thread} who run"
    using fair receiving_step_moves unfolding weakly_fair_def can_move_def by meson
  have sys: "actor_system (receiving_step L) ?ok"
  proof
    fix st a t
    assume st: "?ok st" and s: "receiving_step L a st t"
    then obtain more where "pl_read t @ pl_socket t = (pl_read st @ pl_socket st) @ more"
      using arrivals_kept receiving_step_moves by blast
    with st s receiver.step_ok show "?ok t" by (metis append.assoc)
  qed
  have pending: "pl_socket st \<noteq> [] \<and> length (pl_read st) < length ?arrived" if "?ok st" "\<not> ?Q st" for st
    using that by (auto dest: arg_cong [of _ _ length])
  have closer: "(read_left (length ?arrived) t, read_left (length ?arrived) st) \<in> sooner \<or>
      read_left (length ?arrived) t = read_left (length ?arrived) st \<and> Input_Thread = Input_Thread \<and> b \<noteq> Input_Thread"
    if "?ok st" "receiving_step L b st t" "\<not> ?Q st" for b st t
  proof (cases "b = Input_Thread")
    case True
    with input_step_reads [of L app0 st t] that pending [OF that(1,3)] show ?thesis by blast
  next
    case False
    from receiving_step_moves [OF that(2)] have "pipeline_step L b st t" "receiving t" by simp_all
    with False that(1) others_do_not_read [of L b st t] show ?thesis by (simp add: receiving_run_def)
  qed
  have "wf sooner" by (simp add: wf_lex_prod)
  have "\<exists>j\<ge>0. ?Q (run j)"
    by (rule actor_system.helpful_progress [where helpful = "\<lambda>st. Input_Thread" and
          dist = "read_left (length ?arrived)" and r = sooner, OF sys run fair' _ \<open>wf sooner\<close> _ closer])
      (use reader_can_move in auto)
  then obtain j where j: "?Q (run j)" by blast
  have "?ok (run j)" by (rule actor_system.run_ok [OF sys run])
  with shorter_is_prefix [OF _ j] show ?thesis by (metis append.assoc)
qed



section \<open>A run in which an order has arrived\<close>

lemma round_of_threads:
  assumes "receiving_run L app0 st"
  shows "\<exists>who run. run 0 = st \<and> infinite_run (pipeline_step L) who run \<and> (\<forall>k. receiving (run k)) \<and>
    (\<forall>a\<in>{Input_Thread, Processing_Thread, Output_Thread}. \<forall>i. \<exists>j\<ge>i. who j = a)"
proof -
  have can: "can_move (receiving_step L) a s"
    if s: "receiving_run L app0 s" and "a \<in> set [Input_Thread, Processing_Thread, Output_Thread]" for a s
  proof -
    from s have alive: "alive_run L app0 s" and "receiving s" by (simp_all add: receiving_run_def)
    then have "el_phase (ap_processing (pl_app s)) \<noteq> Finished" "el_phase (ap_output (pl_app s)) \<noteq> Finished"
      using alive_runD(3) [OF alive] by (auto simp: stages_ok_def staged_def receiving_def)
    with that processing_can_move [OF alive] output_can_move [OF alive] reader_can_move [OF s] show ?thesis
      using thread_keeps_receiving [OF _ \<open>receiving s\<close>] by (auto simp: can_move_def receiving_step_def)
  qed
  have "\<exists>who run. run 0 = st \<and> infinite_run (receiving_step L) who run \<and>
      (\<forall>a\<in>set [Input_Thread, Processing_Thread, Output_Thread]. \<forall>i. \<exists>j\<ge>i. who j = a)"
    by (rule round_robin_run [where ok = "receiving_run L app0", OF assms receiver.step_ok can]) simp_all
  then obtain who run where run: "run 0 = st" "infinite_run (receiving_step L) who run"
    "\<forall>a\<in>set [Input_Thread, Processing_Thread, Output_Thread]. \<forall>i. \<exists>j\<ge>i. who j = a" by blast
  moreover have "receiving (run k)" for k
    using receiver.run_ok [OF run(2), of app0 k] assms run(1) by (simp add: receiving_run_def)
  moreover have "infinite_run (pipeline_step L) who run"
    using run(2) receiving_step_moves unfolding infinite_run_def by blast
  ultimately show ?thesis by (intro exI [of _ who] exI [of _ run]) simp
qed

lemma sample_receiving: "receiving_run sample_json sample_application sample_arrived"
  using sample_arrived_run sample_ready
  by (simp add: receiving_run_def receiving_def alive_run_def sample_arrived_def pipeline_init_def ready_def)

lemma sample_answered:
  "sequential_records sample_json (datagram_limit sample_application) (sample_datagram # ds)
     (abs_engine (the (ap_engine sample_application))) \<noteq> []"
  using sequential_records_extend [of sample_json "datagram_limit sample_application" "[sample_datagram]" ds] sample_sequential
  by (metis append_Cons append_Nil append_is_Nil_conv)



end
