(* ===== verification/Spec2Isabelle.thy ===== *)
theory Spec2Isabelle
  imports Client_Process Receiver_Example Logging Morfix_Quickfix Mor_Wiring Variant Assertions Pipeline_Progress
begin

text \<open>
  A verification development for the exchange demo: a server that matches orders received as JSON
  datagrams and publishes market data, a client that sends orders, and a router that carries
  orders and events as FIX messages. All paths below are under \<open>src/\<close>.

  \<^bold>\<open>The program.\<close> The server (\<open>server/\<close>) is three threads, each an event loop (\<open>lab/lab/event_loop.hpp\<close>).
  The input loop polls a UDP receiver (\<open>lab/libs/network\<close>); the order-entry session decodes each
  datagram into a request or a rejection (\<open>order_entry/\<close>). Requests are posted to the processing
  loop, where the matching engine (\<open>matching_engine/\<close>) matches them against per-symbol books and
  emits market data and order events. Market data is posted to the output loop, encoded
  (\<open>market_data/\<close>) and written. The client (\<open>client/\<close>, \<open>order_client/\<close>) reads commands, encodes them and
  sends datagrams. The router converts order entry to routing messages (\<open>mor/\<close>), to FIX messages
  (\<open>morfix/\<close>) and to FIX text (\<open>morfix_quickfix/\<close>, \<open>quickfix_fix/\<close>, with the B3 field table in \<open>ospec/\<close>);
  market data has the same path (\<open>mmd/\<close>, \<open>mmdfix/\<close>, \<open>mmd_json/\<close>, \<open>mmd_transport/\<close>). \<open>lab/\<close> is the library
  under all of it. Each program reads its configuration from a JSON file.

  \<^bold>\<open>Theories.\<close>
  \<^item> \<open>Prelude\<close>: machine integers as words, results as sums with \<open>rbind\<close> for an early return, list lemmas.
  \<^item> \<open>Order_Entry\<close>, \<open>Market_Data\<close>: the message vocabularies; structs are records, enums and variants datatypes.
  \<^item> \<open>Order_Book\<close>, \<open>Book_Invariant\<close>: the book on explicit node addresses, its sides as sorted maps of
    price levels, and what makes a side correct. Locale \<open>ordered_side\<close>.
  \<^item> \<open>Matching\<close>, \<open>Matching_Correct\<close>: the matching loops with their callbacks as parameters, and their
    refinement of a greedy fill for any callbacks that keep the contract of locale
    \<open>matching_callbacks\<close>, interpreted on the engine's callbacks.
  \<^item> \<open>Engine\<close>: every handler of \<open>engine.cpp\<close>; \<open>Engine_Spec\<close>: the abstract engine, lists of orders in
    priority order; \<open>Engine_Invariant\<close>, \<open>Engine_Correct\<close>, \<open>Engine_New_Order\<close>, \<open>Engine_Refinement\<close>: every
    request keeps the invariant and implements the abstract engine; \<open>Engine_Samples\<close>,
    \<open>Engine_Properties\<close>, \<open>Engine_Lifecycle\<close>: the properties and the runs that witness them;
    \<open>Engine_Events\<close>: the engine only adds events (locale \<open>event_source\<close>).
  \<^item> \<open>Text\<close>, \<open>Errors\<close>, \<open>Fixed_String\<close>, \<open>Strong_Type\<close>, \<open>Wrappers\<close>, \<open>Variant\<close>, \<open>Logging\<close>: the parts of \<open>lab/\<close>
    with logic of their own; error codes and payloads of every domain; \<open>Wrappers\<close> also has defaulted
    members and the JSON serializers. \<open>Assertions\<close>: the assertion macro in both builds. \<open>Leaf\<close>: the carrier errors travel in, the handlers and the macros.
  \<^item> \<open>Mor\<close>, \<open>Morfix\<close>, \<open>Ospec_B3\<close>, \<open>Quickfix\<close>, \<open>Morfix_Quickfix\<close>: the router. Locales \<open>codec\<close> and
    \<open>codec_chain\<close> of \<open>Codec\<close> are interpreted on the request and the event path. \<open>Mor_Wiring\<close>: stages
    that call each other.
  \<^item> \<open>Mmd\<close>, \<open>Md_Json\<close>: market data as routing messages, FIX messages and JSON.
  \<^item> \<open>Json\<close>, \<open>Json_Sample\<close>, \<open>Order_Entry_Json\<close>, \<open>Order_Client\<close>, \<open>Order_Entry_Session\<close>: JSON requests on
    both ends. \<open>Json_Config\<close>, \<open>Config\<close>, \<open>Client_Main\<close>: configuration files and the client program.
  \<^item> \<open>Event_Loop\<close>: one loop as a step relation. \<open>Application\<close>: set-up and start. \<open>Pipeline\<close>: the
    running server as a step relation over all its threads, each step labelled with who makes it.
    \<open>Fair_System\<close>: weakly fair infinite runs; its locale \<open>actor_system\<close> is interpreted in
    \<open>Pipeline_Shutdown\<close>, which shows that \<open>stop\<close> returns. \<open>Loop_Progress\<close>: its extension \<open>served_loop\<close>, a
    loop that serves its queue, interpreted on both queues of the server in \<open>Pipeline_Progress\<close>, which
    shows that the running server answers.
  \<^item> \<open>Market_Data_Publisher\<close>: the publisher, the sink and standard output. \<open>Server_Main\<close>,
    \<open>Client_Process\<close>: the two programs as processes. \<open>Receiver_Example\<close>: the receiver's example program.

  \<^bold>\<open>State and code.\<close> \<open>engine\<close> extends the node store \<open>heap\<close> (addresses to orders) with \<open>books\<close>,
  \<open>resting_index\<close>, the two counters and the events \<open>emitted\<close>; its handlers carry the names of the
  code. An event loop's program counter is its \<open>phase\<close>, one step per queue operation, poll or
  flag check of \<open>run_timed_wait\<close>, \<open>run_busy_spin\<close> and \<open>drain\<close>. \<open>application\<close> has the members of
  \<open>server::application\<close>; \<open>pipeline\<close> adds the socket, what was written and how far \<open>stop\<close> has come;
  \<open>server_process\<close> adds the signal flag and the exit status.

  \<^bold>\<open>What is shown.\<close> The engine implements the abstract engine and can fault only when the pool is
  exhausted; fills follow price-time priority; nodes, books and index agree; books never cross;
  events and identifiers of every request; cancels, replaces, refusals and flushes. A request or
  event survives the FIX path, and what a codec accepts is complete and canonical. JSON requests
  and market data in ASCII lose nothing. Every posted task runs once, in order, as long as a loop has one thread; a stopped loop drains. The
  threaded server writes, under every interleaving, a prefix of what a sequential run over the
  datagrams read would write, and exactly that once stopped. In every weakly fair run that no failed
  allocation ends, \<open>stop\<close> returns, whatever is read is written, and until \<open>stop\<close> is called whatever
  arrives is read.
  Start-up succeeds exactly under the stated conditions and only once; \<open>main\<close> returns with the status
  and the lines stated, after a signal, and leaves nothing behind. A command file that is run
  through the client and the server comes out on standard output as the market data of the abstract
  engine. The session's handlers leave no failure out. Configurations round trip and are refused
  when incomplete.

  \<^bold>\<open>Parameters.\<close> Code outside the repository is an argument: what the pool allocates (\<open>slot\<close>, with
  the contract \<open>slot_fresh\<close>), the JSON library (\<open>json_lib\<close>, \<open>config_lib\<close>, with the laws \<open>json_laws\<close> and
  \<open>config_laws\<close>, which the library of \<open>Json_Sample\<close> satisfies), what the network and the operating
  system answer, the contents of files, \<open>boost::leaf\<close>'s \<open>try_handle_all\<close> (\<open>leaf_law\<close>: the first handler that
  accepts a failure runs), and the spdlog library (\<open>spdlog_law\<close>). Recursion is structural or has a measure; no fuel is
  used outside the sample parser.

  \<^bold>\<open>Not modelled.\<close> The text of log lines at each call site; the two macros of \<open>lab/result.hpp\<close> that
  attach a second error to a failure and the test-only one, which no program uses; the type traits and
  concepts that only select overloads; what hash functions compute (only that equal strings hash
  alike); what the engine does after a failed assertion in a build that goes on (a fault stands for both); what two threads of
  one event loop do to its single-consumer queue (\<open>Event_Loop\<close> models how they come about and stops there); a task
  queue that cannot grow, but for one loop in \<open>Assertions\<close>; what \<open>dump\<close> makes of texts that are not valid UTF-8; memory ordering below the level of
  queue operations and flag reads; tests and benchmarks.
\<close>

end
